theory Spec2Isabelle
  imports Complex_Main
begin

chapter \<open>The embedding\<close>

section \<open>Common ground: outcomes and 64-bit integers\<close>

text \<open>
  The solver signals a contradiction by \<open>solver()->Fail()\<close>, a programming error by a
  fatal \<open>CHECK\<close>, and its plain \<open>int64\<close> arithmetic (\<open>+\<close>, \<open>-\<close>, \<open>*\<close>) has no defined
  result outside the 64-bit range. Every operation of the model that can end in one of
  these ways returns a sum: \<open>Inl\<close> of the way it ended, or \<open>Inr\<close> of its result. The
  values themselves are mathematical integers, so a result \<open>Inr\<close> is exact.
\<close>

datatype failure = Fail | CheckFailed | Overflow

definition kint64max :: int where
  "kint64max = 9223372036854775807"

definition kint64min :: int where
  "kint64min = - 9223372036854775808"

definition in_int64 :: "int \<Rightarrow> bool" where
  "in_int64 x = (kint64min \<le> x \<and> x \<le> kint64max)"

definition add64 :: "int \<Rightarrow> int \<Rightarrow> failure + int" where
  "add64 a b = (if in_int64 (a + b) then Inr (a + b) else Inl Overflow)"

definition sub64 :: "int \<Rightarrow> int \<Rightarrow> failure + int" where
  "sub64 a b = (if in_int64 (a - b) then Inr (a - b) else Inl Overflow)"

definition mul64 :: "int \<Rightarrow> int \<Rightarrow> failure + int" where
  "mul64 a b = (if in_int64 (a * b) then Inr (a * b) else Inl Overflow)"

text \<open>
  Plain \<open>int64\<close> arithmetic that is not checked wraps around: \<open>wrap64 x\<close> is the value a
  two's complement machine leaves in an \<open>int64\<close> for the exact result \<open>x\<close>.
\<close>

definition wrap64 :: "int \<Rightarrow> int" where
  "wrap64 x = (x + 2 ^ 63) mod 2 ^ 64 - 2 ^ 63"

text \<open>
  Modelled from the spec: \<open>CapAdd\<close> and \<open>CapSub\<close> (saturated_arithmetic.h is not among
  the sources). Section 4.1: both treat \<open>MIN\<close> and \<open>MAX\<close> as absorbing sentinels, with
  \<open>cap_add(MIN, x) = MIN\<close>, \<open>cap_add(MAX, x) = MAX\<close>, \<open>cap_sub(x, MAX) = MIN\<close>,
  \<open>cap_sub(x, MIN) = MAX\<close>, and otherwise clamp the exact result to the 64-bit range.
\<close>

definition CapAdd :: "int \<Rightarrow> int \<Rightarrow> int" where
  "CapAdd a b =
     (if a = kint64min then kint64min
      else if a = kint64max then kint64max
      else if b = kint64min then kint64min
      else if b = kint64max then kint64max
      else if a + b > kint64max then kint64max
      else if a + b < kint64min then kint64min
      else a + b)"

definition CapSub :: "int \<Rightarrow> int \<Rightarrow> int" where
  "CapSub a b =
     (if b = kint64max then kint64min
      else if b = kint64min then kint64max
      else if a = kint64min then kint64min
      else if a = kint64max then kint64max
      else if a - b > kint64max then kint64max
      else if a - b < kint64min then kint64min
      else a - b)"

section \<open>Interval variables (interval.cc)\<close>

subsection \<open>BooleanStorage\<close>

definition kFalse :: int where "kFalse = 0"
definition kTrue :: int where "kTrue = 1"
definition kUndecidedBooleanValue :: int where "kUndecidedBooleanValue = 2"

record BooleanStorage =
  status :: int
  previous_status :: int
  postponed_status :: int

text \<open>The constructor \<open>BooleanStorage(solver, optional)\<close>.\<close>

definition BooleanStorage_make :: "bool \<Rightarrow> BooleanStorage" where
  "BooleanStorage_make optional =
     (let s = (if optional then kUndecidedBooleanValue else kTrue)
      in \<lparr>status = s, previous_status = s, postponed_status = s\<rparr>)"

definition MayBeTrue :: "BooleanStorage \<Rightarrow> bool" where
  "MayBeTrue b = (status b \<noteq> kFalse)"

definition MustBeTrue :: "BooleanStorage \<Rightarrow> bool" where
  "MustBeTrue b = (status b = kTrue)"

text \<open>A C++ \<open>bool\<close> compared with an \<open>int\<close> is promoted to 0 or 1.\<close>

definition int_of_bool :: "bool \<Rightarrow> int" where
  "int_of_bool v = (if v then 1 else 0)"

text \<open>\<open>BooleanStorage::SetValue\<close>: the flag returned says whether the interval has to be
  pushed onto the queue.\<close>

definition BooleanStorage_SetValue ::
  "bool \<Rightarrow> BooleanStorage \<Rightarrow> failure + (bool \<times> BooleanStorage)" where
  "BooleanStorage_SetValue v b =
     (if status b = kUndecidedBooleanValue
      then Inr (True, b\<lparr>previous_status := kUndecidedBooleanValue,
                         status := (if v then kTrue else kFalse)\<rparr>)
      else if status b \<noteq> int_of_bool v then Inl Fail
      else Inr (False, b))"

definition BooleanStorage_SetValueInProcess ::
  "bool \<Rightarrow> BooleanStorage \<Rightarrow> failure + BooleanStorage" where
  "BooleanStorage_SetValueInProcess v b =
     (if status b = kUndecidedBooleanValue
      then (if postponed_status b = kUndecidedBooleanValue
            then Inr (b\<lparr>postponed_status := (if v then kTrue else kFalse)\<rparr>)
            else if postponed_status b \<noteq> int_of_bool v then Inl Fail
            else Inr b)
      else if status b \<noteq> int_of_bool v then Inl Fail
      else Inr b)"

subsection \<open>IntervalStorage\<close>

datatype SetterStatus = NO_OP | INCONSISTENT | PUSH

record IntervalStorage =
  st_min :: int
  st_max :: int
  postponed_min :: int
  postponed_max :: int
  previous_min :: int
  previous_max :: int

definition IntervalStorage_make :: "int \<Rightarrow> int \<Rightarrow> IntervalStorage" where
  "IntervalStorage_make mi ma =
     \<lparr>st_min = mi, st_max = ma, postponed_min = mi, postponed_max = ma,
      previous_min = mi, previous_max = ma\<rparr>"

definition SyncPreviousBounds :: "IntervalStorage \<Rightarrow> IntervalStorage" where
  "SyncPreviousBounds s =
     (let s1 = (if previous_min s > st_min s then s\<lparr>previous_min := st_min s\<rparr> else s)
      in (if previous_max s1 < st_max s1 then s1\<lparr>previous_max := st_max s1\<rparr> else s1))"

definition IntervalStorage_SetMin ::
  "int \<Rightarrow> IntervalStorage \<Rightarrow> SetterStatus \<times> IntervalStorage" where
  "IntervalStorage_SetMin m s =
     (if m > st_max s then (INCONSISTENT, s)
      else if m > st_min s then (PUSH, (SyncPreviousBounds s)\<lparr>st_min := m\<rparr>)
      else (NO_OP, s))"

definition IntervalStorage_SetMax ::
  "int \<Rightarrow> IntervalStorage \<Rightarrow> SetterStatus \<times> IntervalStorage" where
  "IntervalStorage_SetMax m s =
     (if m < st_min s then (INCONSISTENT, s)
      else if m < st_max s then (PUSH, (SyncPreviousBounds s)\<lparr>st_max := m\<rparr>)
      else (NO_OP, s))"

definition IntervalStorage_SetRange ::
  "int \<Rightarrow> int \<Rightarrow> IntervalStorage \<Rightarrow> SetterStatus \<times> IntervalStorage" where
  "IntervalStorage_SetRange mi ma s =
     (if mi > st_max s \<or> ma < st_min s then (INCONSISTENT, s)
      else if mi > st_min s \<or> ma < st_max s
      then (let s0 = SyncPreviousBounds s;
                s1 = (if mi > st_min s0 then s0\<lparr>st_min := mi\<rparr> else s0);
                s2 = (if ma < st_max s1 then s1\<lparr>st_max := ma\<rparr> else s1)
            in (PUSH, s2))
      else (NO_OP, s))"

text \<open>The in-process setters answer \<open>false\<close> when the postponed range would be empty.\<close>

definition SetMinInProcess :: "int \<Rightarrow> IntervalStorage \<Rightarrow> bool \<times> IntervalStorage" where
  "SetMinInProcess m s =
     (if m > postponed_max s then (False, s)
      else if m > postponed_min s then (True, s\<lparr>postponed_min := m\<rparr>)
      else (True, s))"

definition SetMaxInProcess :: "int \<Rightarrow> IntervalStorage \<Rightarrow> bool \<times> IntervalStorage" where
  "SetMaxInProcess m s =
     (if m < postponed_min s then (False, s)
      else if m < postponed_max s then (True, s\<lparr>postponed_max := m\<rparr>)
      else (True, s))"

definition SetRangeInProcess ::
  "int \<Rightarrow> int \<Rightarrow> IntervalStorage \<Rightarrow> bool \<times> IntervalStorage" where
  "SetRangeInProcess mi ma s =
     (if mi > postponed_max s \<or> ma < postponed_min s then (False, s)
      else (let s1 = (if mi > postponed_min s then s\<lparr>postponed_min := mi\<rparr> else s);
                s2 = (if ma < postponed_max s1 then s1\<lparr>postponed_max := ma\<rparr> else s1)
            in (True, s2)))"

subsection \<open>FixedDurationIntervalVar\<close>

text \<open>
  \<open>fd_enqueued\<close> counts the calls of \<open>EnqueueVar(&handler_)\<close>: the queue belongs to the
  solver core, which is not among the sources, so the model records the request and
  leaves the draining of the queue to the caller.
\<close>

record FixedDurationIntervalVar =
  fd_start :: IntervalStorage
  fd_duration :: int
  fd_performed :: BooleanStorage
  fd_in_process :: bool
  fd_enqueued :: nat














text \<open>The accessors: \<open>CHECK(performed_.MayBeTrue())\<close> comes first.\<close>

definition fd_StartMin :: "FixedDurationIntervalVar \<Rightarrow> failure + int" where
  "fd_StartMin v =
     (if \<not> MayBeTrue (fd_performed v) then Inl CheckFailed else Inr (st_min (fd_start v)))"

definition fd_StartMax :: "FixedDurationIntervalVar \<Rightarrow> failure + int" where
  "fd_StartMax v =
     (if \<not> MayBeTrue (fd_performed v) then Inl CheckFailed else Inr (st_max (fd_start v)))"

definition fd_EndMin :: "FixedDurationIntervalVar \<Rightarrow> failure + int" where
  "fd_EndMin v =
     (if \<not> MayBeTrue (fd_performed v) then Inl CheckFailed
      else add64 (st_min (fd_start v)) (fd_duration v))"

definition fd_EndMax :: "FixedDurationIntervalVar \<Rightarrow> failure + int" where
  "fd_EndMax v =
     (if \<not> MayBeTrue (fd_performed v) then Inl CheckFailed
      else Inr (CapAdd (st_max (fd_start v)) (fd_duration v)))"



definition fbind :: "failure + 'a \<Rightarrow> ('a \<Rightarrow> failure + 'b) \<Rightarrow> failure + 'b" where
  "fbind m f = (case m of Inl e \<Rightarrow> Inl e | Inr x \<Rightarrow> f x)"

definition UpdatePostponedBounds :: "IntervalStorage \<Rightarrow> IntervalStorage" where
  "UpdatePostponedBounds s = s\<lparr>postponed_min := st_min s, postponed_max := st_max s\<rparr>"






text \<open>The setters of the \<open>IntervalVar\<close> interface, as values: a call is dispatched to
  the class of the variable it is made on.\<close>

datatype interval_call =
    SetStartMin int | SetStartMax int | SetStartRange int int
  | SetDurationMin int | SetDurationMax int | SetDurationRange int int
  | SetEndMin int | SetEndMax int | SetEndRange int int


subsection \<open>VariableDurationIntervalVar\<close>

record VariableDurationIntervalVar =
  vd_start :: IntervalStorage
  vd_duration :: IntervalStorage
  vd_end :: IntervalStorage
  vd_performed :: BooleanStorage
  vd_in_process :: bool
  vd_enqueued :: nat

text \<open>The constructor computes the six initial bounds with plain \<open>int64\<close> arithmetic,
  which wraps around.\<close>

definition VariableDurationIntervalVar_make ::
  "int \<Rightarrow> int \<Rightarrow> int \<Rightarrow> int \<Rightarrow> int \<Rightarrow> int \<Rightarrow> bool \<Rightarrow> VariableDurationIntervalVar" where
  "VariableDurationIntervalVar_make start_min start_max duration_min duration_max
       end_min end_max optional =
     \<lparr>vd_start = IntervalStorage_make (max start_min (wrap64 (end_min - duration_max)))
                   (min start_max (wrap64 (end_max - duration_min))),
      vd_duration = IntervalStorage_make (max duration_min (wrap64 (end_min - start_max)))
                      (min duration_max (wrap64 (end_max - start_min))),
      vd_end = IntervalStorage_make (max end_min (wrap64 (start_min + duration_min)))
                 (min end_max (wrap64 (start_max + duration_max))),
      vd_performed = BooleanStorage_make optional,
      vd_in_process = False, vd_enqueued = 0\<rparr>"

text \<open>\<open>performed_.SetValue(false)\<close> inside \<open>Push\<close>: the answer of \<open>SetValue\<close> is dropped.\<close>

definition vd_unperform ::
  "VariableDurationIntervalVar \<Rightarrow> failure + VariableDurationIntervalVar" where
  "vd_unperform v =
     (case BooleanStorage_SetValue False (vd_performed v) of
        Inl e \<Rightarrow> Inl e
      | Inr (push, b) \<Rightarrow> Inr (v\<lparr>vd_performed := b\<rparr>))"

definition vd_Push ::
  "VariableDurationIntervalVar \<Rightarrow> failure + VariableDurationIntervalVar" where
  "vd_Push v =
     fbind
       (if MayBeTrue (vd_performed v)
        then (case IntervalStorage_SetRange
                     (CapSub (st_min (vd_end v)) (st_max (vd_duration v)))
                     (CapSub (st_max (vd_end v)) (st_min (vd_duration v))) (vd_start v) of
                (INCONSISTENT, s) \<Rightarrow> vd_unperform v
              | (st1, s) \<Rightarrow>
                  (case IntervalStorage_SetRange
                          (CapSub (st_min (vd_end v)) (st_max s))
                          (CapSub (st_max (vd_end v)) (st_min s)) (vd_duration v) of
                     (INCONSISTENT, d) \<Rightarrow> vd_unperform (v\<lparr>vd_start := s\<rparr>)
                   | (st2, d) \<Rightarrow>
                       (case IntervalStorage_SetRange
                               (CapAdd (st_min s) (st_min d))
                               (CapAdd (st_max s) (st_max d)) (vd_end v) of
                          (INCONSISTENT, e) \<Rightarrow>
                             vd_unperform (v\<lparr>vd_start := s, vd_duration := d\<rparr>)
                        | (st3, e) \<Rightarrow>
                             Inr (v\<lparr>vd_start := s, vd_duration := d, vd_end := e\<rparr>))))
        else Inr v)
       (\<lambda>v'. Inr (v'\<lparr>vd_enqueued := Suc (vd_enqueued v')\<rparr>))"

definition vd_SetPerformed ::
  "bool \<Rightarrow> VariableDurationIntervalVar \<Rightarrow> failure + VariableDurationIntervalVar" where
  "vd_SetPerformed val v =
     (if vd_in_process v
      then (case BooleanStorage_SetValueInProcess val (vd_performed v) of
              Inl e \<Rightarrow> Inl e
            | Inr b \<Rightarrow> Inr (v\<lparr>vd_performed := b\<rparr>))
      else (case BooleanStorage_SetValue val (vd_performed v) of
              Inl e \<Rightarrow> Inl e
            | Inr (push, b) \<Rightarrow>
                (if push then vd_Push (v\<lparr>vd_performed := b\<rparr>)
                 else Inr (v\<lparr>vd_performed := b\<rparr>))))"

definition vd_ProcessModification ::
  "SetterStatus \<Rightarrow> VariableDurationIntervalVar \<Rightarrow> failure + VariableDurationIntervalVar" where
  "vd_ProcessModification st v =
     (case st of
        NO_OP \<Rightarrow> Inr v
      | INCONSISTENT \<Rightarrow> vd_SetPerformed False v
      | PUSH \<Rightarrow> vd_Push v)"

text \<open>
  The nine setters of the class share one shape and differ in the storage they work on
  and in the storage operation; \<open>vd_setter\<close> is that shape, with the field read by
  \<open>getf\<close> and written by \<open>putf\<close>.
\<close>

definition vd_setter ::
  "(VariableDurationIntervalVar \<Rightarrow> IntervalStorage) \<Rightarrow>
   (IntervalStorage \<Rightarrow> VariableDurationIntervalVar \<Rightarrow> VariableDurationIntervalVar) \<Rightarrow>
   (IntervalStorage \<Rightarrow> bool \<times> IntervalStorage) \<Rightarrow>
   (IntervalStorage \<Rightarrow> SetterStatus \<times> IntervalStorage) \<Rightarrow>
   VariableDurationIntervalVar \<Rightarrow> failure + VariableDurationIntervalVar" where
  "vd_setter getf putf in_proc out_proc v =
     (if MayBeTrue (vd_performed v)
      then (if vd_in_process v
            then (case in_proc (getf v) of
                    (ok, s) \<Rightarrow> (if \<not> ok then vd_SetPerformed False (putf s v)
                                else Inr (putf s v)))
            else (case out_proc (getf v) of
                    (st, s) \<Rightarrow> vd_ProcessModification st (putf s v)))
      else Inr v)"

definition put_start :: "IntervalStorage \<Rightarrow> VariableDurationIntervalVar \<Rightarrow> VariableDurationIntervalVar" where
  "put_start s v = v\<lparr>vd_start := s\<rparr>"

definition put_duration :: "IntervalStorage \<Rightarrow> VariableDurationIntervalVar \<Rightarrow> VariableDurationIntervalVar" where
  "put_duration s v = v\<lparr>vd_duration := s\<rparr>"

definition put_end :: "IntervalStorage \<Rightarrow> VariableDurationIntervalVar \<Rightarrow> VariableDurationIntervalVar" where
  "put_end s v = v\<lparr>vd_end := s\<rparr>"

fun vd_call ::
  "interval_call \<Rightarrow> VariableDurationIntervalVar \<Rightarrow> failure + VariableDurationIntervalVar" where
  "vd_call (SetStartMin m) v =
     vd_setter vd_start put_start (SetMinInProcess m) (IntervalStorage_SetMin m) v"
| "vd_call (SetStartMax m) v =
     vd_setter vd_start put_start (SetMaxInProcess m) (IntervalStorage_SetMax m) v"
| "vd_call (SetStartRange mi ma) v =
     vd_setter vd_start put_start (SetRangeInProcess mi ma) (IntervalStorage_SetRange mi ma) v"
| "vd_call (SetDurationMin m) v =
     vd_setter vd_duration put_duration (SetMinInProcess m) (IntervalStorage_SetMin m) v"
| "vd_call (SetDurationMax m) v =
     vd_setter vd_duration put_duration (SetMaxInProcess m) (IntervalStorage_SetMax m) v"
| "vd_call (SetDurationRange mi ma) v =
     vd_setter vd_duration put_duration (SetRangeInProcess mi ma)
       (IntervalStorage_SetRange mi ma) v"
| "vd_call (SetEndMin m) v =
     vd_setter vd_end put_end (SetMinInProcess m) (IntervalStorage_SetMin m) v"
| "vd_call (SetEndMax m) v =
     vd_setter vd_end put_end (SetMaxInProcess m) (IntervalStorage_SetMax m) v"
| "vd_call (SetEndRange mi ma) v =
     vd_setter vd_end put_end (SetRangeInProcess mi ma) (IntervalStorage_SetRange mi ma) v"

text \<open>
  \<open>VariableDurationIntervalVar::Process\<close>. A demon reaches the interval through its
  virtual interface only: what a demon does to the interval is the sequence of the
  setters it calls, which \<open>ExecuteAll\<close> runs on the respective list; a demon that fails
  ends the run. Delayed demons are only enqueued and run later, outside of \<open>Process\<close>.
\<close>

datatype vd_action = Call interval_call | Perform bool

fun vd_act ::
  "vd_action \<Rightarrow> VariableDurationIntervalVar \<Rightarrow> failure + VariableDurationIntervalVar" where
  "vd_act (Call c) v = vd_call c v"
| "vd_act (Perform b) v = vd_SetPerformed b v"

fun vd_run ::
  "vd_action list \<Rightarrow> VariableDurationIntervalVar \<Rightarrow> failure + VariableDurationIntervalVar" where
  "vd_run [] v = Inr v"
| "vd_run (a # as) v = fbind (vd_act a v) (vd_run as)"

record vd_demons =
  vd_start_bound :: "vd_action list"
  vd_start_range :: "vd_action list"
  vd_duration_bound :: "vd_action list"
  vd_duration_range :: "vd_action list"
  vd_end_bound :: "vd_action list"
  vd_end_range :: "vd_action list"
  vd_performed_bound :: "vd_action list"

text \<open>\<open>IntervalStorage::ProcessDemons\<close> on the storage read by \<open>getf\<close>.\<close>

definition vd_ProcessDemons ::
  "(VariableDurationIntervalVar \<Rightarrow> IntervalStorage) \<Rightarrow> vd_action list \<Rightarrow> vd_action list \<Rightarrow>
   VariableDurationIntervalVar \<Rightarrow> failure + VariableDurationIntervalVar" where
  "vd_ProcessDemons getf bound_demons range_demons v =
     fbind (if st_min (getf v) = st_max (getf v) then vd_run bound_demons v else Inr v)
       (\<lambda>v1. if st_min (getf v1) \<noteq> previous_min (getf v1)
                 \<or> st_max (getf v1) \<noteq> previous_max (getf v1)
              then vd_run range_demons v1 else Inr v1)"

text \<open>\<open>IntervalStorage::UpdatePreviousBoundsAndApplyPostponedBounds\<close>: \<open>call\<close> is the range
  setter of the interval that the \<open>switch\<close> selects.\<close>

definition vd_UpdatePreviousBoundsAndApplyPostponedBounds ::
  "(VariableDurationIntervalVar \<Rightarrow> IntervalStorage) \<Rightarrow>
   (IntervalStorage \<Rightarrow> VariableDurationIntervalVar \<Rightarrow> VariableDurationIntervalVar) \<Rightarrow>
   (int \<Rightarrow> int \<Rightarrow> interval_call) \<Rightarrow>
   VariableDurationIntervalVar \<Rightarrow> failure + VariableDurationIntervalVar" where
  "vd_UpdatePreviousBoundsAndApplyPostponedBounds getf putf call v =
     (let s = getf v;
          v1 = putf (s\<lparr>previous_min := st_min s, previous_max := st_max s\<rparr>) v
      in if st_min s < postponed_min s \<or> st_max s > postponed_max s
         then vd_call (call (max (postponed_min s) (st_min s))
                         (min (postponed_max s) (st_max s))) v1
         else Inr v1)"

definition vd_performed_UpdatePreviousBoundsAndApplyPostponedBounds ::
  "VariableDurationIntervalVar \<Rightarrow> failure + VariableDurationIntervalVar" where
  "vd_performed_UpdatePreviousBoundsAndApplyPostponedBounds v =
     (let b = vd_performed v;
          v1 = v\<lparr>vd_performed := b\<lparr>previous_status := status b\<rparr>\<rparr>
      in if postponed_status b \<noteq> status b
         then (if postponed_status b = kUndecidedBooleanValue then Inl CheckFailed
               else vd_SetPerformed (postponed_status b \<noteq> 0) v1)
         else Inr v1)"

definition vd_Process ::
  "vd_demons \<Rightarrow> VariableDurationIntervalVar \<Rightarrow> failure + VariableDurationIntervalVar" where
  "vd_Process d v =
     (if vd_in_process v then Inl CheckFailed
      else
        (let b = vd_performed v;
             v1 = v\<lparr>vd_in_process := True,
                    vd_start := UpdatePostponedBounds (vd_start v),
                    vd_duration := UpdatePostponedBounds (vd_duration v),
                    vd_end := UpdatePostponedBounds (vd_end v),
                    vd_performed := b\<lparr>postponed_status := status b\<rparr>\<rparr>
         in fbind (if MayBeTrue (vd_performed v1)
                   then fbind (vd_ProcessDemons vd_start (vd_start_bound d)
                                 (vd_start_range d) v1)
                          (\<lambda>v2. fbind (vd_ProcessDemons vd_duration (vd_duration_bound d)
                                         (vd_duration_range d) v2)
                                   (vd_ProcessDemons vd_end (vd_end_bound d) (vd_end_range d)))
                   else Inr v1)
              (\<lambda>v3. fbind (if previous_status (vd_performed v3) \<noteq> status (vd_performed v3)
                            then vd_run (vd_performed_bound d) v3 else Inr v3)
                 (\<lambda>v4. fbind (vd_UpdatePreviousBoundsAndApplyPostponedBounds vd_start put_start
                                 SetStartRange (v4\<lparr>vd_in_process := False\<rparr>))
                    (\<lambda>v5. fbind (vd_UpdatePreviousBoundsAndApplyPostponedBounds vd_duration
                                    put_duration SetDurationRange v5)
                       (\<lambda>v6. fbind (vd_UpdatePreviousBoundsAndApplyPostponedBounds vd_end
                                       put_end SetEndRange v6)
                                vd_performed_UpdatePreviousBoundsAndApplyPostponedBounds))))))"

subsection \<open>Concrete interval variables and the predicates of the statements\<close>

text \<open>The constructor \<open>FixedDurationIntervalVar(solver, name)\<close> of an unperformed interval.\<close>

definition FixedDurationIntervalVar_make_unperformed :: FixedDurationIntervalVar where
  "FixedDurationIntervalVar_make_unperformed =
     \<lparr>fd_start = IntervalStorage_make 0 0, fd_duration = 0,
      fd_performed = \<lparr>status = kFalse, previous_status = kFalse, postponed_status = kFalse\<rparr>,
      fd_in_process = False, fd_enqueued = 0\<rparr>"





text \<open>
  A request contradicts a domain \<open>[lo, hi]\<close> when no value of the domain satisfies it:
  a minimum \<open>m\<close> asks for the values from \<open>m\<close> on, a maximum \<open>m\<close> for the values up to
  \<open>m\<close>, and a range for the values from \<open>mi\<close> to \<open>ma\<close>. The domain of the duration of a
  fixed-duration interval is the duration itself. A request on the end of a
  fixed-duration interval is the request on its start that the code derives from it by
  the saturating subtraction of the duration.
\<close>

definition contradicts_min :: "int \<Rightarrow> int \<Rightarrow> int \<Rightarrow> bool" where
  "contradicts_min lo hi m = (max lo m > hi)"

definition contradicts_max :: "int \<Rightarrow> int \<Rightarrow> int \<Rightarrow> bool" where
  "contradicts_max lo hi m = (lo > min hi m)"

definition contradicts_range :: "int \<Rightarrow> int \<Rightarrow> int \<Rightarrow> int \<Rightarrow> bool" where
  "contradicts_range lo hi mi ma = (max lo mi > min hi ma)"













text \<open>The interval of scenario S3, as the constructor leaves it.\<close>

definition c8_interval :: VariableDurationIntervalVar where
  "c8_interval =
     \<lparr>vd_start = IntervalStorage_make 0 9, vd_duration = IntervalStorage_make 3 5,
      vd_end = IntervalStorage_make 3 12, vd_performed = BooleanStorage_make False,
      vd_in_process = False, vd_enqueued = 0\<rparr>"


text \<open>Two summands whose saturating sum is the exact sum.\<close>

definition unsaturated :: "int \<Rightarrow> int \<Rightarrow> bool" where
  "unsaturated a b =
     (kint64min < a \<and> a < kint64max \<and> kint64min < b \<and> b < kint64max \<and> in_int64 (a + b))"

text \<open>The interval of scenario S3 after its end was limited to 10, before and after
  \<open>Push\<close>, and the same interval unperformed.\<close>

definition c8_tightened :: VariableDurationIntervalVar where
  "c8_tightened = c8_interval\<lparr>vd_end := (vd_end c8_interval)\<lparr>st_max := 10\<rparr>\<rparr>"

definition c8_pushed :: VariableDurationIntervalVar where
  "c8_pushed = c8_tightened\<lparr>vd_start := (vd_start c8_interval)\<lparr>st_max := 7\<rparr>, vd_enqueued := 1\<rparr>"

definition c8_unperformed :: VariableDurationIntervalVar where
  "c8_unperformed =
     c8_interval\<lparr>vd_performed := \<lparr>status = kFalse, previous_status = kUndecidedBooleanValue,
                                   postponed_status = kUndecidedBooleanValue\<rparr>\<rparr>"

text \<open>
  The bounds handed to the constructor are feasible when they are values strictly
  between the two sentinels, the six sums and differences of the constructor are 64-bit
  values, start and duration have a value each, and the earliest end is not after the
  latest start plus the longest duration, nor the latest end before the earliest start
  plus the shortest duration.
\<close>

definition feasible :: "int \<Rightarrow> int \<Rightarrow> int \<Rightarrow> int \<Rightarrow> int \<Rightarrow> int \<Rightarrow> bool" where
  "feasible start_min start_max duration_min duration_max end_min end_max =
     (list_all (\<lambda>x. kint64min < x \<and> x < kint64max)
        [start_min, start_max, duration_min, duration_max, end_min, end_max] \<and>
      list_all in_int64
        [end_min - duration_max, end_max - duration_min, end_min - start_max,
         end_max - start_min, start_min + duration_min, start_max + duration_max] \<and>
      start_min \<le> start_max \<and> duration_min \<le> duration_max \<and>
      end_min \<le> start_max + duration_max \<and> start_min + duration_min \<le> end_max)"

text \<open>The two inequalities of the coherence, with the saturating sum of \<open>Push\<close>.\<close>

definition coherent :: "VariableDurationIntervalVar \<Rightarrow> bool" where
  "coherent v =
     (CapAdd (st_min (vd_start v)) (st_min (vd_duration v)) \<le> st_min (vd_end v) \<and>
      st_max (vd_end v) \<le> CapAdd (st_max (vd_start v)) (st_max (vd_duration v)))"

text \<open>
  The intervals that propagation reaches: an interval is created with feasible bounds,
  and then a bound setter or \<open>SetPerformed\<close> is called on it, or the queue runs its
  \<open>Process\<close>, each of them returning without a failure.
\<close>

inductive vd_reachable :: "VariableDurationIntervalVar \<Rightarrow> bool" where
  created:
    "feasible start_min start_max duration_min duration_max end_min end_max \<Longrightarrow>
     vd_reachable (VariableDurationIntervalVar_make start_min start_max duration_min
                     duration_max end_min end_max optional)"
| called: "vd_reachable v \<Longrightarrow> vd_call c v = Inr v' \<Longrightarrow> vd_reachable v'"
| performed: "vd_reachable v \<Longrightarrow> vd_SetPerformed b v = Inr v' \<Longrightarrow> vd_reachable v'"
| processed: "vd_reachable v \<Longrightarrow> vd_Process d v = Inr v' \<Longrightarrow> vd_reachable v'"

text \<open>The interval the constructor returns for start in \<open>[0, 10]\<close>, duration in \<open>[3, 5]\<close>
  and end in \<open>[50, 60]\<close>.\<close>

definition c8_late :: VariableDurationIntervalVar where
  "c8_late =
     \<lparr>vd_start = IntervalStorage_make 45 10, vd_duration = IntervalStorage_make 40 5,
      vd_end = IntervalStorage_make 50 15, vd_performed = BooleanStorage_make False,
      vd_in_process = False, vd_enqueued = 0\<rparr>"

text \<open>An interval without demons.\<close>

definition no_demons :: vd_demons where
  "no_demons = \<lparr>vd_start_bound = [], vd_start_range = [], vd_duration_bound = [],
                 vd_duration_range = [], vd_end_bound = [], vd_end_range = [],
                 vd_performed_bound = []\<rparr>"

text \<open>
  Two intervals have the same bounds when the current ranges of start, duration and end
  and the current performed status agree: what is postponed inside \<open>Process\<close> does not
  count. A field of the interval is one of its three storages, with the update of it.
\<close>

definition same_bounds :: "VariableDurationIntervalVar \<Rightarrow> VariableDurationIntervalVar \<Rightarrow> bool" where
  "same_bounds v v' =
     (st_min (vd_start v') = st_min (vd_start v) \<and> st_max (vd_start v') = st_max (vd_start v) \<and>
      st_min (vd_duration v') = st_min (vd_duration v) \<and>
      st_max (vd_duration v') = st_max (vd_duration v) \<and>
      st_min (vd_end v') = st_min (vd_end v) \<and> st_max (vd_end v') = st_max (vd_end v) \<and>
      status (vd_performed v') = status (vd_performed v))"

definition field ::
  "(VariableDurationIntervalVar \<Rightarrow> IntervalStorage) \<Rightarrow>
   (IntervalStorage \<Rightarrow> VariableDurationIntervalVar \<Rightarrow> VariableDurationIntervalVar) \<Rightarrow> bool" where
  "field getf putf =
     ((getf = vd_start \<and> putf = put_start) \<or> (getf = vd_duration \<and> putf = put_duration) \<or>
      (getf = vd_end \<and> putf = put_end))"

section \<open>The model cache (model_cache.cc) and the array expressions of expr_array.cc\<close>

text \<open>
  Variables and expressions are identified by the index under which the solver holds
  them (the pointer of the source). A cell of a \<open>Cache1\<close> holds its key and the cached
  expression; \<open>array\<close> holds the chains of the hash table. \<open>Hash1\<close> on arrays of
  variables is declared in a header that is not among the sources: it is the parameter
  \<open>h\<close> of the cache operations. The table size is \<open>FLAGS_cache_initial_size\<close> at first.
\<close>

record 'k Cache1 =
  array :: "('k \<times> nat) list list"
  csize :: nat
  num_items :: nat

definition Cache1_make :: "nat \<Rightarrow> 'k Cache1" where
  "Cache1_make n = \<lparr>array = replicate n [], csize = n, num_items = 0\<rparr>"

text \<open>\<open>IsEqual\<close> on vectors: the same size and the same elements.\<close>

fun IsEqual :: "'a list \<Rightarrow> 'a list \<Rightarrow> bool" where
  "IsEqual [] [] = True"
| "IsEqual (x # xs) (y # ys) = (if x \<noteq> y then False else IsEqual xs ys)"
| "IsEqual _ _ = False"

text \<open>The walk along a chain in \<open>Find\<close>, with \<open>Cell::ReturnsIfEqual\<close>.\<close>

fun chain_find :: "nat list \<Rightarrow> (nat list \<times> nat) list \<Rightarrow> nat option" where
  "chain_find a1 [] = None"
| "chain_find a1 ((k, c) # rest) = (if IsEqual k a1 then Some c else chain_find a1 rest)"

definition Cache1_Find :: "(nat list \<Rightarrow> nat) \<Rightarrow> nat list Cache1 \<Rightarrow> nat list \<Rightarrow> nat option" where
  "Cache1_Find h c a1 = chain_find a1 (array c ! (h a1 mod csize c))"

text \<open>\<open>Double\<close>: every cell of every chain, in order, is put in front of its new chain.\<close>

fun reinsert ::
  "(nat list \<Rightarrow> nat) \<Rightarrow> nat \<Rightarrow> (nat list \<times> nat) list \<Rightarrow> (nat list \<times> nat) list list \<Rightarrow>
   (nat list \<times> nat) list list" where
  "reinsert h n [] arr = arr"
| "reinsert h n (cell # rest) arr =
     reinsert h n rest (arr[h (fst cell) mod n := cell # arr ! (h (fst cell) mod n)])"

definition Double :: "(nat list \<Rightarrow> nat) \<Rightarrow> nat list Cache1 \<Rightarrow> nat list Cache1" where
  "Double h c =
     (let n = 2 * csize c
      in c\<lparr>array := fold (reinsert h n) (array c) (replicate n []), csize := n\<rparr>)"

definition Cache1_UnsafeInsert ::
  "(nat list \<Rightarrow> nat) \<Rightarrow> nat list \<Rightarrow> nat \<Rightarrow> nat list Cache1 \<Rightarrow> nat list Cache1" where
  "Cache1_UnsafeInsert h a1 e c =
     (let position = h a1 mod csize c;
          c1 = c\<lparr>array := (array c)[position := (a1, e) # array c ! position],
                 num_items := Suc (num_items c)\<rparr>
      in if num_items c1 > 2 * csize c1 then Double h c1 else c1)"

text \<open>The expression types of the array caches that \<open>MakeMin\<close> and \<open>MakeMax\<close> use, and the
  solver states the cache distinguishes.\<close>

datatype VarArrayExpressionType = VAR_ARRAY_MAX | VAR_ARRAY_MIN | VAR_ARRAY_SUM

datatype SolverState = OUTSIDE_SEARCH | IN_SEARCH

type_synonym ModelCache = "VarArrayExpressionType \<Rightarrow> nat list Cache1"

definition FindVarArrayExpression ::
  "(nat list \<Rightarrow> nat) \<Rightarrow> ModelCache \<Rightarrow> nat list \<Rightarrow> VarArrayExpressionType \<Rightarrow> nat option" where
  "FindVarArrayExpression h mc vars t = Cache1_Find h (mc t) vars"

definition InsertVarArrayExpression ::
  "(nat list \<Rightarrow> nat) \<Rightarrow> SolverState \<Rightarrow> nat \<Rightarrow> nat list \<Rightarrow> VarArrayExpressionType \<Rightarrow>
   ModelCache \<Rightarrow> ModelCache" where
  "InsertVarArrayExpression h st expression vars t mc =
     (if st \<noteq> IN_SEARCH \<and> Cache1_Find h (mc t) vars = None
      then mc(t := Cache1_UnsafeInsert h vars expression (mc t))
      else mc)"

text \<open>
  The part of the solver that the factories touch: the variables it has allocated (their
  bounds, by index), the constraints added, the model cache and the state.
  Modelled from the spec: \<open>MakeBoolVar\<close> and \<open>MakeIntVar\<close> (section 6, \<open>new_bool_var\<close> and
  \<open>new_int_var\<close>) allocate a fresh variable with the given bounds.
\<close>

datatype Constraint =
    ArrayBoolAndEq_of "nat list" nat
  | ArrayBoolOrEq_of "nat list" nat
  | MinConstraint_of "nat list" nat
  | MaxConstraint_of "nat list" nat

record Solver =
  int_vars :: "(int \<times> int) list"
  constraints :: "Constraint list"
  model_cache :: ModelCache
  state :: SolverState

definition var_Min :: "Solver \<Rightarrow> nat \<Rightarrow> int" where
  "var_Min s v = fst (int_vars s ! v)"

definition var_Max :: "Solver \<Rightarrow> nat \<Rightarrow> int" where
  "var_Max s v = snd (int_vars s ! v)"

definition MakeIntVar :: "int \<Rightarrow> int \<Rightarrow> Solver \<Rightarrow> nat \<times> Solver" where
  "MakeIntVar mi ma s = (length (int_vars s), s\<lparr>int_vars := int_vars s @ [(mi, ma)]\<rparr>)"

definition MakeBoolVar :: "Solver \<Rightarrow> nat \<times> Solver" where
  "MakeBoolVar s = MakeIntVar 0 1 s"

definition AddConstraint :: "Constraint \<Rightarrow> Solver \<Rightarrow> Solver" where
  "AddConstraint c s = s\<lparr>constraints := constraints s @ [c]\<rparr>"

fun AreAllBooleans :: "Solver \<Rightarrow> nat list \<Rightarrow> bool" where
  "AreAllBooleans s [] = True"
| "AreAllBooleans s (v # vs) =
     (if var_Min s v < 0 \<or> var_Max s v > 1 then False else AreAllBooleans s vs)"

text \<open>
  What a factory returns: a variable, or one of the expressions that the cases of zero
  and two variables build with factories that are not among the sources.
\<close>

datatype IntExpr = Var nat | IntConst int | Min2 nat nat | Max2 nat nat

definition MakeMin :: "(nat list \<Rightarrow> nat) \<Rightarrow> nat list \<Rightarrow> Solver \<Rightarrow> IntExpr \<times> Solver" where
  "MakeMin h vars s =
     (let size = length vars in
      if size = 0 then (IntConst 0, s)
      else if size = 1 then (Var (vars ! 0), s)
      else if size = 2 then (Min2 (vars ! 0) (vars ! 1), s)
      else (case FindVarArrayExpression h (model_cache s) vars VAR_ARRAY_MIN of
              Some cache \<Rightarrow> (Var cache, s)
            | None \<Rightarrow>
                if AreAllBooleans s vars
                then (case MakeBoolVar s of
                        (new_var, s1) \<Rightarrow>
                          (let s2 = AddConstraint (ArrayBoolAndEq_of vars new_var) s1
                           in (Var new_var,
                               s2\<lparr>model_cache := InsertVarArrayExpression h (state s2) new_var
                                                   vars VAR_ARRAY_MIN (model_cache s2)\<rparr>)))
                else (let new_min = fold (\<lambda>v m. min m (var_Min s v)) vars kint64max;
                          new_max = fold (\<lambda>v m. min m (var_Max s v)) vars kint64max
                      in case MakeIntVar new_min new_max s of
                           (new_var, s1) \<Rightarrow>
                             (let s2 = AddConstraint (MinConstraint_of vars new_var) s1
                              in (Var new_var,
                                  s2\<lparr>model_cache := InsertVarArrayExpression h (state s2)
                                        new_var vars VAR_ARRAY_MIN (model_cache s2)\<rparr>)))))"

definition MakeMax :: "(nat list \<Rightarrow> nat) \<Rightarrow> nat list \<Rightarrow> Solver \<Rightarrow> IntExpr \<times> Solver" where
  "MakeMax h vars s =
     (let size = length vars in
      if size = 0 then (IntConst 0, s)
      else if size = 1 then (Var (vars ! 0), s)
      else if size = 2 then (Max2 (vars ! 0) (vars ! 1), s)
      else (case FindVarArrayExpression h (model_cache s) vars VAR_ARRAY_MAX of
              Some cache \<Rightarrow> (Var cache, s)
            | None \<Rightarrow>
                if AreAllBooleans s vars
                then (case MakeBoolVar s of
                        (new_var, s1) \<Rightarrow>
                          (let s2 = AddConstraint (ArrayBoolOrEq_of vars new_var) s1
                           in (Var new_var,
                               s2\<lparr>model_cache := InsertVarArrayExpression h (state s2) new_var
                                                   vars VAR_ARRAY_MIN (model_cache s2)\<rparr>)))
                else (let new_min = fold (\<lambda>v m. max m (var_Min s v)) vars kint64min;
                          new_max = fold (\<lambda>v m. max m (var_Max s v)) vars kint64min
                      in case MakeIntVar new_min new_max s of
                           (new_var, s1) \<Rightarrow>
                             (let s2 = AddConstraint (MaxConstraint_of vars new_var) s1
                              in (Var new_var,
                                  s2\<lparr>model_cache := InsertVarArrayExpression h (state s2)
                                        new_var vars VAR_ARRAY_MAX (model_cache s2)\<rparr>)))))"

text \<open>A solver before search with three boolean variables and empty caches of four
  chains, and a hash function for it.\<close>

definition c5_solver :: Solver where
  "c5_solver = \<lparr>int_vars = [(0, 1), (0, 1), (0, 1)], constraints = [],
                model_cache = (\<lambda>t. Cache1_make 4), state = OUTSIDE_SEARCH\<rparr>"

definition c5_hash :: "nat list \<Rightarrow> nat" where
  "c5_hash vs = sum_list vs"

section \<open>Assignments (assignment.cc)\<close>

text \<open>
  A variable, as far as an assignment is concerned: its identity (the pointer of the
  source) and its name. The three kinds of variables are told apart by the container
  that holds their element.
\<close>

record var =
  var_id :: nat
  var_name :: string

record IntVarElement =
  iv_var :: var
  iv_min :: int
  iv_max :: int
  iv_activated :: bool

record IntervalVarElement =
  it_var :: var
  start_min :: int
  start_max :: int
  duration_min :: int
  duration_max :: int
  end_min :: int
  end_max :: int
  performed_min :: int
  performed_max :: int
  it_activated :: bool

record SequenceVarElement =
  sq_var :: var
  sequence :: "int list"
  sq_activated :: bool

record IntVarAssignmentProto =
  ip_var_id :: string
  ip_min :: int
  ip_max :: int
  ip_active :: bool

record IntervalVarAssignmentProto =
  tp_var_id :: string
  tp_start_min :: int
  tp_start_max :: int
  tp_duration_min :: int
  tp_duration_max :: int
  tp_end_min :: int
  tp_end_max :: int
  tp_performed_min :: int
  tp_performed_max :: int
  tp_active :: bool

record SequenceVarAssignmentProto =
  sp_var_id :: string
  sp_active :: bool
  sp_sequence :: "int list"

text \<open>\<open>objective\<close> is \<open>None\<close> when \<open>has_objective()\<close> is false.\<close>

record AssignmentProto =
  int_var_assignment :: "IntVarAssignmentProto list"
  interval_var_assignment :: "IntervalVarAssignmentProto list"
  sequence_var_assignment :: "SequenceVarAssignmentProto list"
  objective :: "IntVarAssignmentProto option"

text \<open>
  Modelled from the spec: the base class \<open>AssignmentElement\<close> and the inline setters of
  the elements are declared in constraint_solver.h, which is not among the sources. An
  element is (bounds, activated flag) as in section 4.10; a new element is activated, and
  \<open>Activate\<close>, \<open>Deactivate\<close> and \<open>SetRange\<close> assign the fields. \<open>Reset(var)\<close> of the three
  elements is in assignment.cc.
\<close>

definition IntVarElement_Reset :: "var \<Rightarrow> IntVarElement" where
  "IntVarElement_Reset v =
     \<lparr>iv_var = v, iv_min = kint64min, iv_max = kint64max, iv_activated = True\<rparr>"

definition IntervalVarElement_Reset :: "var \<Rightarrow> IntervalVarElement" where
  "IntervalVarElement_Reset v =
     \<lparr>it_var = v, start_min = kint64min, start_max = kint64max,
      duration_min = kint64min, duration_max = kint64max,
      end_min = kint64min, end_max = kint64max,
      performed_min = 0, performed_max = 1, it_activated = True\<rparr>"

definition SequenceVarElement_Reset :: "var \<Rightarrow> SequenceVarElement" where
  "SequenceVarElement_Reset v = \<lparr>sq_var = v, sequence = [], sq_activated = True\<rparr>"

definition IntVarElement_StoreFromProto ::
  "IntVarAssignmentProto \<Rightarrow> IntVarElement \<Rightarrow> IntVarElement" where
  "IntVarElement_StoreFromProto p e =
     e\<lparr>iv_min := ip_min p, iv_max := ip_max p, iv_activated := ip_active p\<rparr>"

definition IntVarElement_RestoreToProto :: "IntVarElement \<Rightarrow> IntVarAssignmentProto" where
  "IntVarElement_RestoreToProto e =
     \<lparr>ip_var_id = var_name (iv_var e), ip_min = iv_min e, ip_max = iv_max e,
      ip_active = iv_activated e\<rparr>"

definition IntVarElement_eq :: "IntVarElement \<Rightarrow> IntVarElement \<Rightarrow> bool" where
  "IntVarElement_eq a b =
     (if iv_var a \<noteq> iv_var b then False
      else if iv_activated a \<noteq> iv_activated b then False
      else if \<not> iv_activated a \<and> \<not> iv_activated b then True
      else iv_min a = iv_min b \<and> iv_max a = iv_max b)"

definition IntervalVarElement_StoreFromProto ::
  "IntervalVarAssignmentProto \<Rightarrow> IntervalVarElement \<Rightarrow> IntervalVarElement" where
  "IntervalVarElement_StoreFromProto p e =
     e\<lparr>start_min := tp_start_min p, start_max := tp_start_max p,
       duration_min := tp_duration_min p, duration_max := tp_duration_max p,
       end_min := tp_end_min p, end_max := tp_end_max p,
       performed_min := tp_performed_min p, performed_max := tp_performed_max p,
       it_activated := tp_active p\<rparr>"

definition IntervalVarElement_RestoreToProto ::
  "IntervalVarElement \<Rightarrow> IntervalVarAssignmentProto" where
  "IntervalVarElement_RestoreToProto e =
     \<lparr>tp_var_id = var_name (it_var e),
      tp_start_min = start_min e, tp_start_max = start_max e,
      tp_duration_min = duration_min e, tp_duration_max = duration_max e,
      tp_end_min = end_min e, tp_end_max = end_max e,
      tp_performed_min = performed_min e, tp_performed_max = performed_max e,
      tp_active = it_activated e\<rparr>"

definition IntervalVarElement_eq :: "IntervalVarElement \<Rightarrow> IntervalVarElement \<Rightarrow> bool" where
  "IntervalVarElement_eq a b =
     (if it_var a \<noteq> it_var b then False
      else if it_activated a \<noteq> it_activated b then False
      else if \<not> it_activated a \<and> \<not> it_activated b then True
      else start_min a = start_min b \<and> start_max a = start_max b
         \<and> duration_min a = duration_min b \<and> duration_max a = duration_max b
         \<and> end_min a = end_min b \<and> end_max a = end_max b
         \<and> performed_min a = performed_min b \<and> performed_max a = performed_max b
         \<and> it_var a = it_var b)"

text \<open>\<open>SequenceVarElement::StoreFromProto\<close> appends to the sequence the element holds.\<close>

definition SequenceVarElement_StoreFromProto ::
  "SequenceVarAssignmentProto \<Rightarrow> SequenceVarElement \<Rightarrow> SequenceVarElement" where
  "SequenceVarElement_StoreFromProto p e =
     e\<lparr>sequence := sequence e @ sp_sequence p, sq_activated := sp_active p\<rparr>"

definition SequenceVarElement_RestoreToProto ::
  "SequenceVarElement \<Rightarrow> SequenceVarAssignmentProto" where
  "SequenceVarElement_RestoreToProto e =
     \<lparr>sp_var_id = var_name (sq_var e), sp_active = sq_activated e,
      sp_sequence = sequence e\<rparr>"

definition SequenceVarElement_eq :: "SequenceVarElement \<Rightarrow> SequenceVarElement \<Rightarrow> bool" where
  "SequenceVarElement_eq a b =
     (if sq_var a \<noteq> sq_var b then False
      else if sq_activated a \<noteq> sq_activated b then False
      else if \<not> sq_activated a \<and> \<not> sq_activated b then True
      else IsEqual (sequence a) (sequence b))"

text \<open>
  An assignment: its three containers, as the vectors of their elements, and the
  objective element, \<open>None\<close> when it holds no variable (\<open>HasObjective()\<close> is false).
  Modelled from the spec: \<open>AssignmentContainer::Clear\<close> drops all elements (section 3;
  the container is declared in constraint_solver.h).
\<close>

record Assignment =
  int_var_container :: "IntVarElement list"
  interval_var_container :: "IntervalVarElement list"
  sequence_var_container :: "SequenceVarElement list"
  objective_element :: "IntVarElement option"

definition Assignment_Clear :: "Assignment \<Rightarrow> Assignment" where
  "Assignment_Clear a =
     a\<lparr>objective_element := None, int_var_container := [],
       interval_var_container := [], sequence_var_container := []\<rparr>"

text \<open>
  Modelled from the spec: \<open>AssignmentContainer::Add\<close> (section 4.10, elements keyed by
  variable identity): a variable that has no element yet gets a new one at the end.
\<close>

definition Container_Add :: "('e \<Rightarrow> var) \<Rightarrow> (var \<Rightarrow> 'e) \<Rightarrow> var \<Rightarrow> 'e list \<Rightarrow> 'e list" where
  "Container_Add var_of reset v c = (if v \<in> var_of ` set c then c else c @ [reset v])"

definition Add_IntVar :: "var \<Rightarrow> Assignment \<Rightarrow> Assignment" where
  "Add_IntVar v a =
     a\<lparr>int_var_container := Container_Add iv_var IntVarElement_Reset v (int_var_container a)\<rparr>"

definition Add_IntervalVar :: "var \<Rightarrow> Assignment \<Rightarrow> Assignment" where
  "Add_IntervalVar v a =
     a\<lparr>interval_var_container :=
         Container_Add it_var IntervalVarElement_Reset v (interval_var_container a)\<rparr>"

definition Add_SequenceVar :: "var \<Rightarrow> Assignment \<Rightarrow> Assignment" where
  "Add_SequenceVar v a =
     a\<lparr>sequence_var_container :=
         Container_Add sq_var SequenceVarElement_Reset v (sequence_var_container a)\<rparr>"

text \<open>\<open>AddObjective\<close>: adding a second objective is a fatal error.\<close>

definition AddObjective :: "var \<Rightarrow> Assignment \<Rightarrow> failure + Assignment" where
  "AddObjective v a =
     (if objective_element a \<noteq> None then Inl CheckFailed
      else Inr (a\<lparr>objective_element := Some (IntVarElement_Reset v)\<rparr>))"

text \<open>\<open>RealSave\<close>, for a container with the name of an element's variable (\<open>name_of\<close>) and
  the element's \<open>RestoreToProto\<close>.\<close>

fun RealSave :: "('e \<Rightarrow> string) \<Rightarrow> ('e \<Rightarrow> 'p) \<Rightarrow> 'e list \<Rightarrow> 'p list" where
  "RealSave name_of to_proto [] = []"
| "RealSave name_of to_proto (element # rest) =
     (if name_of element \<noteq> [] then to_proto element # RealSave name_of to_proto rest
      else RealSave name_of to_proto rest)"

definition Assignment_Save :: "Assignment \<Rightarrow> AssignmentProto" where
  "Assignment_Save a =
     \<lparr>int_var_assignment =
        RealSave (\<lambda>e. var_name (iv_var e)) IntVarElement_RestoreToProto (int_var_container a),
      interval_var_assignment =
        RealSave (\<lambda>e. var_name (it_var e)) IntervalVarElement_RestoreToProto
          (interval_var_container a),
      sequence_var_assignment =
        RealSave (\<lambda>e. var_name (sq_var e)) SequenceVarElement_RestoreToProto
          (sequence_var_container a),
      objective =
        (case objective_element a of
           None \<Rightarrow> None
         | Some e \<Rightarrow> (if var_name (iv_var e) \<noteq> []
                       then Some \<lparr>ip_var_id = var_name (iv_var e), ip_min = iv_min e,
                                  ip_max = iv_max e, ip_active = iv_activated e\<rparr>
                       else None))\<rparr>"

text \<open>The first loop of \<open>RealLoad\<close>, from index \<open>i\<close>: it stops at the first element whose
  name is not the one of the record at the same index, and says whether it got through.\<close>

function fast_load_loop ::
  "('e \<Rightarrow> string) \<Rightarrow> ('p \<Rightarrow> string) \<Rightarrow> ('p \<Rightarrow> 'e \<Rightarrow> 'e) \<Rightarrow> 'p list \<Rightarrow> nat \<Rightarrow> 'e list \<Rightarrow>
   bool \<times> 'e list" where
  "fast_load_loop name_of id_of store protos i container =
     (if i < length protos
      then (if name_of (container ! i) = id_of (protos ! i)
            then fast_load_loop name_of id_of store protos (Suc i)
                   (container[i := store (protos ! i) (container ! i)])
            else (False, container))
      else (True, container))"
  by pat_completeness auto

termination
  by (relation "measure (\<lambda>(name_of, id_of, store, protos, i, container). length protos - i)") auto

text \<open>\<open>IdToElementMap\<close>: from a name to the index of the first element with that name;
  elements with an empty name are left out.\<close>

fun IdToElementMap :: "('e \<Rightarrow> string) \<Rightarrow> 'e list \<Rightarrow> nat \<Rightarrow> (string \<rightharpoonup> nat) \<Rightarrow> (string \<rightharpoonup> nat)" where
  "IdToElementMap name_of [] i m = m"
| "IdToElementMap name_of (element # rest) i m =
     (if name_of element = [] then IdToElementMap name_of rest (Suc i) m
      else if m (name_of element) \<noteq> None then IdToElementMap name_of rest (Suc i) m
      else IdToElementMap name_of rest (Suc i) (m(name_of element \<mapsto> i)))"

text \<open>The second loop of \<open>RealLoad\<close> with \<open>LoadElement\<close>, whose \<open>CHECK\<close> refuses a record
  without a name.\<close>

fun slow_load_loop ::
  "('p \<Rightarrow> string) \<Rightarrow> ('p \<Rightarrow> 'e \<Rightarrow> 'e) \<Rightarrow> (string \<rightharpoonup> nat) \<Rightarrow> 'p list \<Rightarrow> 'e list \<Rightarrow>
   failure + 'e list" where
  "slow_load_loop id_of store m [] container = Inr container"
| "slow_load_loop id_of store m (proto # rest) container =
     (if id_of proto = [] then Inl CheckFailed
      else (case m (id_of proto) of
              Some k \<Rightarrow> slow_load_loop id_of store m rest
                          (container[k := store proto (container ! k)])
            | None \<Rightarrow> slow_load_loop id_of store m rest container))"

definition RealLoad ::
  "('e \<Rightarrow> string) \<Rightarrow> ('p \<Rightarrow> string) \<Rightarrow> ('p \<Rightarrow> 'e \<Rightarrow> 'e) \<Rightarrow> 'p list \<Rightarrow> 'e list \<Rightarrow>
   failure + 'e list" where
  "RealLoad name_of id_of store protos container =
     (case (if length container = length protos
            then fast_load_loop name_of id_of store protos 0 container
            else (False, container)) of
        (fast_load, c) \<Rightarrow>
          (if \<not> fast_load
           then slow_load_loop id_of store (IdToElementMap name_of c 0 Map.empty) protos c
           else Inr c))"

definition Assignment_Load :: "AssignmentProto \<Rightarrow> Assignment \<Rightarrow> failure + Assignment" where
  "Assignment_Load proto a =
     fbind (RealLoad (\<lambda>e. var_name (iv_var e)) ip_var_id IntVarElement_StoreFromProto
              (int_var_assignment proto) (int_var_container a)) (\<lambda>c1.
     fbind (RealLoad (\<lambda>e. var_name (it_var e)) tp_var_id IntervalVarElement_StoreFromProto
              (interval_var_assignment proto) (interval_var_container a)) (\<lambda>c2.
     fbind (RealLoad (\<lambda>e. var_name (sq_var e)) sp_var_id SequenceVarElement_StoreFromProto
              (sequence_var_assignment proto) (sequence_var_container a)) (\<lambda>c3.
       (let a1 = a\<lparr>int_var_container := c1, interval_var_container := c2,
                   sequence_var_container := c3\<rparr>
        in case objective proto of
             None \<Rightarrow> Inr a1
           | Some obj \<Rightarrow>
               (if ip_var_id obj = [] then Inl CheckFailed
                else (case objective_element a1 of
                        None \<Rightarrow> Inr a1
                      | Some e \<Rightarrow>
                          (if ip_var_id obj = var_name (iv_var e)
                           then Inr (a1\<lparr>objective_element :=
                                   Some (e\<lparr>iv_min := ip_min obj, iv_max := ip_max obj,
                                           iv_activated := ip_active obj\<rparr>)\<rparr>)
                           else Inr a1)))))))"

text \<open>Element-wise equality of two assignments, with the \<open>operator==\<close> of the elements.\<close>

definition objective_equal :: "IntVarElement option \<Rightarrow> IntVarElement option \<Rightarrow> bool" where
  "objective_equal x y =
     (case x of
        None \<Rightarrow> (case y of None \<Rightarrow> True | Some f \<Rightarrow> False)
      | Some e \<Rightarrow> (case y of None \<Rightarrow> False | Some f \<Rightarrow> IntVarElement_eq e f))"

definition elements_equal :: "Assignment \<Rightarrow> Assignment \<Rightarrow> bool" where
  "elements_equal a b =
     (list_all2 IntVarElement_eq (int_var_container a) (int_var_container b) \<and>
      list_all2 IntervalVarElement_eq (interval_var_container a) (interval_var_container b) \<and>
      list_all2 SequenceVarElement_eq (sequence_var_container a) (sequence_var_container b) \<and>
      objective_equal (objective_element a) (objective_element b))"

text \<open>Adding the variables of \<open>a\<close> to \<open>b\<close>, container by container and in the order of \<open>a\<close>.\<close>

definition Add_variables_of :: "Assignment \<Rightarrow> Assignment \<Rightarrow> failure + Assignment" where
  "Add_variables_of a b =
     (let b1 = fold Add_IntVar (map iv_var (int_var_container a)) b;
          b2 = fold Add_IntervalVar (map it_var (interval_var_container a)) b1;
          b3 = fold Add_SequenceVar (map sq_var (sequence_var_container a)) b2
      in case objective_element a of
           None \<Rightarrow> Inr b3
         | Some e \<Rightarrow> AddObjective (iv_var e) b3)"

text \<open>The variables of an assignment have distinct non-empty names.\<close>

definition distinct_nonempty :: "string list \<Rightarrow> bool" where
  "distinct_nonempty names = (distinct names \<and> [] \<notin> set names)"

definition well_named :: "Assignment \<Rightarrow> bool" where
  "well_named a =
     (distinct_nonempty (map (\<lambda>e. var_name (iv_var e)) (int_var_container a)) \<and>
      distinct_nonempty (map (\<lambda>e. var_name (it_var e)) (interval_var_container a)) \<and>
      distinct_nonempty (map (\<lambda>e. var_name (sq_var e)) (sequence_var_container a)) \<and>
      distinct_nonempty (map (\<lambda>e. var_name (iv_var e)) (case objective_element a of None \<Rightarrow> [] | Some e \<Rightarrow> [e])))"

text \<open>An assignment that holds one integer variable \<open>a\<close> in \<open>[0, 5]\<close>, one interval variable
  and one sequence variable, and an objective.\<close>

definition c4_small :: Assignment where
  "c4_small =
     \<lparr>int_var_container =
        [\<lparr>iv_var = \<lparr>var_id = 0, var_name = ''a''\<rparr>, iv_min = 0, iv_max = 5, iv_activated = True\<rparr>],
      interval_var_container = [], sequence_var_container = [], objective_element = None\<rparr>"

definition c4_assignment :: Assignment where
  "c4_assignment =
     \<lparr>int_var_container =
        [\<lparr>iv_var = \<lparr>var_id = 0, var_name = ''a''\<rparr>, iv_min = 0, iv_max = 5, iv_activated = True\<rparr>,
         \<lparr>iv_var = \<lparr>var_id = 1, var_name = ''b''\<rparr>, iv_min = 2, iv_max = 3, iv_activated = False\<rparr>],
      interval_var_container =
        [\<lparr>it_var = \<lparr>var_id = 2, var_name = ''I''\<rparr>, start_min = 0, start_max = 9,
          duration_min = 3, duration_max = 5, end_min = 3, end_max = 12,
          performed_min = 1, performed_max = 1, it_activated = True\<rparr>],
      sequence_var_container =
        [\<lparr>sq_var = \<lparr>var_id = 3, var_name = ''S''\<rparr>, sequence = [2, 0, 1], sq_activated = True\<rparr>],
      objective_element =
        Some \<lparr>iv_var = \<lparr>var_id = 4, var_name = ''obj''\<rparr>, iv_min = 7, iv_max = 7,
              iv_activated = True\<rparr>\<rparr>"

definition c4_readded :: Assignment where
  "c4_readded =
     \<lparr>int_var_container =
        [IntVarElement_Reset \<lparr>var_id = 0, var_name = ''a''\<rparr>,
         IntVarElement_Reset \<lparr>var_id = 1, var_name = ''b''\<rparr>],
      interval_var_container = [IntervalVarElement_Reset \<lparr>var_id = 2, var_name = ''I''\<rparr>],
      sequence_var_container = [SequenceVarElement_Reset \<lparr>var_id = 3, var_name = ''S''\<rparr>],
      objective_element = Some (IntVarElement_Reset \<lparr>var_id = 4, var_name = ''obj''\<rparr>)\<rparr>"

section \<open>Integer variables\<close>

text \<open>
  Modelled from the spec: the integer variable (its implementation, expressions.cc, is
  not among the sources). Sections 3 and 4.3: a variable has the bounds \<open>[lo, hi]\<close> and
  the previous bounds, which are its bounds when its demons were last executed
  (\<open>OldMin\<close>, \<open>OldMax\<close>). A setter compares with the current bounds: no change is a
  no-op, an empty new range is a failure, and otherwise the bounds are narrowed. The
  demons of the constraints below never set the variable whose event they handle, so the
  postponed bounds of section 4.3 play no part.
\<close>

record IntVar =
  var_min :: int
  var_max :: int
  old_min :: int
  old_max :: int

definition IntVar_make :: "int \<Rightarrow> int \<Rightarrow> IntVar" where
  "IntVar_make lo hi = \<lparr>var_min = lo, var_max = hi, old_min = lo, old_max = hi\<rparr>"

definition Bound :: "IntVar \<Rightarrow> bool" where
  "Bound v = (var_min v = var_max v)"

definition IntVar_SetMin :: "int \<Rightarrow> IntVar \<Rightarrow> failure + IntVar" where
  "IntVar_SetMin m v =
     (if m > var_max v then Inl Fail
      else if m > var_min v then Inr (v\<lparr>var_min := m\<rparr>)
      else Inr v)"

definition IntVar_SetMax :: "int \<Rightarrow> IntVar \<Rightarrow> failure + IntVar" where
  "IntVar_SetMax m v =
     (if m < var_min v then Inl Fail
      else if m < var_max v then Inr (v\<lparr>var_max := m\<rparr>)
      else Inr v)"

definition IntVar_SetRange :: "int \<Rightarrow> int \<Rightarrow> IntVar \<Rightarrow> failure + IntVar" where
  "IntVar_SetRange mi ma v =
     (if max mi (var_min v) > min ma (var_max v) then Inl Fail
      else Inr (v\<lparr>var_min := max mi (var_min v), var_max := min ma (var_max v)\<rparr>))"

definition IntVar_SetValue :: "int \<Rightarrow> IntVar \<Rightarrow> failure + IntVar" where
  "IntVar_SetValue x v = IntVar_SetRange x x v"

section \<open>PositiveBooleanScalProdEqVar (expr_array.cc)\<close>

text \<open>
  The constraint with its arrays after the constructor has sorted them, the target and
  the reversible cells. The variables of the array are taken to be pairwise different
  variables: the array is the list of their states.
\<close>

record PositiveBooleanScalProdEqVar =
  ps_vars :: "IntVar list"
  ps_coefs :: "int list"
  ps_target_var :: IntVar
  first_unbound_backward :: int
  sum_of_bound_variables :: int
  sum_of_all_variables :: int
  max_coefficient :: int

text \<open>
  The loop of \<open>Propagate\<close> from \<open>last_unbound\<close> downward: it answers the index it stopped
  at (\<open>-1\<close> when it ran through), the variables and the value of \<open>max_coefficient_\<close>.
\<close>

function ps_walk ::
  "int \<Rightarrow> int \<Rightarrow> int list \<Rightarrow> int \<Rightarrow> IntVar list \<Rightarrow> int \<Rightarrow> failure + (int \<times> IntVar list \<times> int)" where
  "ps_walk slack_up slack_down coefs last_unbound vars max_coef =
     (if last_unbound \<ge> 0
      then (if \<not> Bound (vars ! nat last_unbound)
            then (if coefs ! nat last_unbound > slack_up
                  then (case IntVar_SetValue 0 (vars ! nat last_unbound) of
                          Inl e \<Rightarrow> Inl e
                        | Inr v \<Rightarrow> ps_walk slack_up slack_down coefs (last_unbound - 1)
                                    (vars[nat last_unbound := v]) max_coef)
                  else if coefs ! nat last_unbound > slack_down
                  then (case IntVar_SetValue 1 (vars ! nat last_unbound) of
                          Inl e \<Rightarrow> Inl e
                        | Inr v \<Rightarrow> ps_walk slack_up slack_down coefs (last_unbound - 1)
                                    (vars[nat last_unbound := v]) max_coef)
                  else Inr (last_unbound, vars, coefs ! nat last_unbound))
            else ps_walk slack_up slack_down coefs (last_unbound - 1) vars max_coef)
      else Inr (last_unbound, vars, max_coef))"
  by pat_completeness auto

termination
  by (relation "measure (\<lambda>(su, sd, coefs, lu, vars, mc). nat (lu + 1))") auto

declare ps_walk.simps [simp del]

definition ps_Propagate ::
  "PositiveBooleanScalProdEqVar \<Rightarrow> failure + PositiveBooleanScalProdEqVar" where
  "ps_Propagate s =
     fbind (IntVar_SetRange (sum_of_bound_variables s) (sum_of_all_variables s)
              (ps_target_var s)) (\<lambda>t.
     fbind (sub64 (var_max t) (sum_of_bound_variables s)) (\<lambda>slack_up.
     fbind (sub64 (sum_of_all_variables s) (var_min t)) (\<lambda>slack_down.
       (let max_coeff = max_coefficient s;
            s1 = s\<lparr>ps_target_var := t\<rparr>
        in if slack_down < max_coeff \<or> slack_up < max_coeff
           then (case ps_walk slack_up slack_down (ps_coefs s) (first_unbound_backward s)
                        (ps_vars s) (max_coefficient s) of
                   Inl e \<Rightarrow> Inl e
                 | Inr (last_unbound, vars, mc) \<Rightarrow>
                     Inr (s1\<lparr>ps_vars := vars, max_coefficient := mc,
                             first_unbound_backward := last_unbound\<rparr>))
           else Inr s1))))"

text \<open>The loop of \<open>InitialPropagate\<close> from \<open>index\<close>: the index of the last unbound variable
  and the two sums.\<close>

function ps_sums ::
  "IntVar list \<Rightarrow> int list \<Rightarrow> nat \<Rightarrow> int \<Rightarrow> int \<Rightarrow> int \<Rightarrow> failure + (int \<times> int \<times> int)" where
  "ps_sums vars coefs index last_unbound sum_bound sum_all =
     (if index < length vars
      then fbind (mul64 (var_max (vars ! index)) (coefs ! index)) (\<lambda>v.
           fbind (add64 sum_all v) (\<lambda>sum_all'.
             if Bound (vars ! index)
             then fbind (add64 sum_bound v) (\<lambda>sum_bound'.
                    ps_sums vars coefs (Suc index) last_unbound sum_bound' sum_all')
             else ps_sums vars coefs (Suc index) (int index) sum_bound sum_all'))
      else Inr (last_unbound, sum_bound, sum_all))"
  by pat_completeness auto

termination
  by (relation "measure (\<lambda>(vars, coefs, index, lu, sb, sa). length vars - index)") auto

declare ps_sums.simps [simp del]

definition ps_InitialPropagate ::
  "PositiveBooleanScalProdEqVar \<Rightarrow> failure + PositiveBooleanScalProdEqVar" where
  "ps_InitialPropagate s =
     fbind (ps_sums (ps_vars s) (ps_coefs s) 0 (- 1) 0 0) (\<lambda>(last_unbound, sum_bound, sum_all).
       ps_Propagate (s\<lparr>sum_of_bound_variables := sum_bound, sum_of_all_variables := sum_all,
                       first_unbound_backward := last_unbound\<rparr>))"

definition ps_Update ::
  "nat \<Rightarrow> PositiveBooleanScalProdEqVar \<Rightarrow> failure + PositiveBooleanScalProdEqVar" where
  "ps_Update var_index s =
     fbind (if var_min (ps_vars s ! var_index) = 1
            then fbind (add64 (sum_of_bound_variables s) (ps_coefs s ! var_index))
                   (\<lambda>x. Inr (s\<lparr>sum_of_bound_variables := x\<rparr>))
            else fbind (sub64 (sum_of_all_variables s) (ps_coefs s ! var_index))
                   (\<lambda>x. Inr (s\<lparr>sum_of_all_variables := x\<rparr>)))
       ps_Propagate"

text \<open>The variable has been forced to the value \<open>x\<close>.\<close>

definition forced_to :: "int \<Rightarrow> IntVar \<Rightarrow> bool" where
  "forced_to x v = (var_min v = x \<and> var_max v = x)"

text \<open>
  What the walk from \<open>lu\<close> that stops at \<open>k\<close> has done: above \<open>k\<close> every variable that was
  unbound is forced to 0 if its coefficient exceeds \<open>slack_up\<close> and else to 1, its
  coefficient then exceeding \<open>slack_down\<close>; the other variables are as before; if \<open>k\<close> is
  an index, its variable is unbound, its coefficient fits both slacks and is the new
  \<open>max_coefficient\<close>, which is otherwise unchanged.
\<close>

definition walked ::
  "int \<Rightarrow> int \<Rightarrow> int list \<Rightarrow> int \<Rightarrow> IntVar list \<Rightarrow> int \<Rightarrow> int \<Rightarrow> IntVar list \<Rightarrow> int \<Rightarrow> bool" where
  "walked slack_up slack_down coefs lu vars mc k vars' mc' =
     (k \<le> lu \<and> (- 1 \<le> lu \<longrightarrow> - 1 \<le> k) \<and> length vars' = length vars \<and>
      (\<forall>i < length vars.
         if k < int i \<and> int i \<le> lu \<and> \<not> Bound (vars ! i)
         then (if coefs ! i > slack_up then forced_to 0 (vars' ! i)
               else coefs ! i > slack_down \<and> forced_to 1 (vars' ! i))
         else vars' ! i = vars ! i) \<and>
      (if 0 \<le> k
       then \<not> Bound (vars ! nat k) \<and> coefs ! nat k \<le> slack_up \<and> coefs ! nat k \<le> slack_down
            \<and> mc' = coefs ! nat k
       else mc' = mc))"

text \<open>
  The constraint on three unbound booleans with the coefficients 1, 2, 3 and a target in
  \<open>[0, 6]\<close>, as constructed; after \<open>InitialPropagate\<close>; after the third variable has been
  set to 0 from outside; and after the demon \<open>Update(2)\<close> has run.
\<close>

definition c7_initial :: PositiveBooleanScalProdEqVar where
  "c7_initial =
     \<lparr>ps_vars = [IntVar_make 0 1, IntVar_make 0 1, IntVar_make 0 1], ps_coefs = [1, 2, 3],
      ps_target_var = IntVar_make 0 6, first_unbound_backward = 2,
      sum_of_bound_variables = 0, sum_of_all_variables = 0, max_coefficient = 3\<rparr>"

definition c7_propagated :: PositiveBooleanScalProdEqVar where
  "c7_propagated = c7_initial\<lparr>sum_of_all_variables := 6\<rparr>"

definition c7_decided :: PositiveBooleanScalProdEqVar where
  "c7_decided =
     c7_propagated\<lparr>ps_vars := [IntVar_make 0 1, IntVar_make 0 1,
                                \<lparr>var_min = 0, var_max = 0, old_min = 0, old_max = 1\<rparr>]\<rparr>"

definition c7_updated :: PositiveBooleanScalProdEqVar where
  "c7_updated =
     c7_decided\<lparr>sum_of_all_variables := 3,
                ps_target_var := \<lparr>var_min = 0, var_max = 3, old_min = 0, old_max = 6\<rparr>\<rparr>"

text \<open>The same constraint with a target in \<open>[0, 2]\<close>, after the sums have been computed,
  before and after \<open>Propagate\<close>.\<close>

definition c7_tight :: PositiveBooleanScalProdEqVar where
  "c7_tight = c7_propagated\<lparr>ps_target_var := IntVar_make 0 2\<rparr>"

definition c7_tight_propagated :: PositiveBooleanScalProdEqVar where
  "c7_tight_propagated =
     c7_tight\<lparr>ps_vars := [IntVar_make 0 1, IntVar_make 0 1,
                           \<lparr>var_min = 0, var_max = 0, old_min = 0, old_max = 1\<rparr>],
              max_coefficient := 2, first_unbound_backward := 1\<rparr>"

section \<open>Diffn, the non-overlapping rectangles (diffn.cc)\<close>

text \<open>
  The four arrays of the constraint, as the lists of the states of their variables (taken
  to be pairwise different variables), the vector \<open>neighbors_\<close> and the set
  \<open>to_propagate_\<close>. The set is a list without repetitions that is walked from its head:
  the order in which a hash set is walked is not specified, and nothing below depends on
  it. \<open>size_\<close> is the length of \<open>x_\<close>; the constructor checks that the four arrays have
  the same size.
\<close>

record Diffn =
  dn_x :: "IntVar list"
  dn_y :: "IntVar list"
  dn_dx :: "IntVar list"
  dn_dy :: "IntVar list"
  neighbors :: "nat list"
  to_propagate :: "nat list"

definition Diffn_make ::
  "IntVar list \<Rightarrow> IntVar list \<Rightarrow> IntVar list \<Rightarrow> IntVar list \<Rightarrow> failure + Diffn" where
  "Diffn_make x_vars y_vars x_size y_size =
     (if length x_vars \<noteq> length y_vars \<or> length x_vars \<noteq> length x_size
         \<or> length x_vars \<noteq> length y_size
      then Inl CheckFailed
      else Inr \<lparr>dn_x = x_vars, dn_y = y_vars, dn_dx = x_size, dn_dy = y_size,
                neighbors = [], to_propagate = []\<rparr>)"

definition dn_size :: "Diffn \<Rightarrow> nat" where
  "dn_size s = length (dn_x s)"

text \<open>The sums and products of the class are plain \<open>int64\<close> arithmetic, which wraps
  around.\<close>

definition DisjointHorizontal :: "Diffn \<Rightarrow> nat \<Rightarrow> nat \<Rightarrow> bool" where
  "DisjointHorizontal s i j =
     (var_min (dn_x s ! i) \<ge> wrap64 (var_max (dn_x s ! j) + var_max (dn_dx s ! j))
      \<or> var_min (dn_x s ! j) \<ge> wrap64 (var_max (dn_x s ! i) + var_max (dn_dx s ! i)))"

definition DisjointVertical :: "Diffn \<Rightarrow> nat \<Rightarrow> nat \<Rightarrow> bool" where
  "DisjointVertical s i j =
     (var_min (dn_y s ! i) \<ge> wrap64 (var_max (dn_y s ! j) + var_max (dn_dy s ! j))
      \<or> var_min (dn_y s ! j) \<ge> wrap64 (var_max (dn_y s ! i) + var_max (dn_dy s ! i)))"

definition Overlap :: "Diffn \<Rightarrow> nat \<Rightarrow> nat \<Rightarrow> bool" where
  "Overlap s i j =
     (if DisjointHorizontal s i j \<or> DisjointVertical s i j then False else True)"

text \<open>The loop of \<open>FillNeighbors\<close> from \<open>other\<close>, adding to the neighbours found so far.\<close>

function FillNeighbors_loop :: "Diffn \<Rightarrow> nat \<Rightarrow> nat \<Rightarrow> nat list \<Rightarrow> nat list" where
  "FillNeighbors_loop s box other ns =
     (if other < dn_size s
      then FillNeighbors_loop s box (Suc other)
             (if other \<noteq> box \<and> Overlap s other box then ns @ [other] else ns)
      else ns)"
  by pat_completeness auto

termination
  by (relation "measure (\<lambda>(s, box, other, ns). dn_size s - other)") auto

declare FillNeighbors_loop.simps [simp del]

definition FillNeighbors :: "nat \<Rightarrow> Diffn \<Rightarrow> Diffn" where
  "FillNeighbors box s = s\<lparr>neighbors := FillNeighbors_loop s box 0 []\<rparr>"

text \<open>The body of the loop of \<open>CheckEnergy\<close> for the neighbour \<open>other\<close>, on the bounding box
  and the sum of the areas found so far, and the loop over the neighbours that are left.\<close>

definition CheckEnergy_body ::
  "Diffn \<Rightarrow> nat \<Rightarrow> int \<times> int \<times> int \<times> int \<times> int \<Rightarrow> failure + int \<times> int \<times> int \<times> int \<times> int" where
  "CheckEnergy_body s other acc =
     (case acc of (area_min_x, area_max_x, area_min_y, area_max_y, sum_of_areas) \<Rightarrow>
       (let area_min_x' = min area_min_x (var_min (dn_x s ! other));
            area_max_x' = max area_max_x
                            (wrap64 (var_max (dn_x s ! other) + var_max (dn_dx s ! other)));
            area_min_y' = min area_min_y (var_min (dn_y s ! other));
            area_max_y' = max area_max_y
                            (wrap64 (var_max (dn_y s ! other) + var_max (dn_dy s ! other)));
            sum_of_areas' =
              wrap64 (sum_of_areas
                      + wrap64 (var_min (dn_dx s ! other) * var_min (dn_dy s ! other)));
            bounding_area =
              wrap64 (wrap64 (area_max_x' - area_min_x') * wrap64 (area_max_y' - area_min_y'))
        in if sum_of_areas' > bounding_area then Inl Fail
           else Inr (area_min_x', area_max_x', area_min_y', area_max_y', sum_of_areas')))"

fun CheckEnergy_loop ::
  "Diffn \<Rightarrow> nat list \<Rightarrow> int \<times> int \<times> int \<times> int \<times> int \<Rightarrow> failure + unit" where
  "CheckEnergy_loop s [] acc = Inr ()"
| "CheckEnergy_loop s (other # rest) acc =
     (case CheckEnergy_body s other acc of
        Inl e \<Rightarrow> Inl e
      | Inr acc' \<Rightarrow> CheckEnergy_loop s rest acc')"

definition CheckEnergy :: "nat \<Rightarrow> Diffn \<Rightarrow> failure + unit" where
  "CheckEnergy box s =
     CheckEnergy_loop s (neighbors s)
       (var_min (dn_x s ! box),
        wrap64 (var_max (dn_x s ! box) + var_max (dn_dx s ! box)),
        var_min (dn_y s ! box),
        wrap64 (var_max (dn_y s ! box) + var_max (dn_dy s ! box)),
        wrap64 (var_min (dn_dx s ! box) * var_min (dn_dy s ! box)))"

text \<open>The two pairs of arrays that \<open>PushOneDirection\<close> is called with.\<close>

datatype axis = Horizontal | Vertical

definition positions :: "axis \<Rightarrow> Diffn \<Rightarrow> IntVar list" where
  "positions a s = (case a of Horizontal \<Rightarrow> dn_x s | Vertical \<Rightarrow> dn_y s)"

definition sizes :: "axis \<Rightarrow> Diffn \<Rightarrow> IntVar list" where
  "sizes a s = (case a of Horizontal \<Rightarrow> dn_dx s | Vertical \<Rightarrow> dn_dy s)"

definition set_position :: "axis \<Rightarrow> nat \<Rightarrow> IntVar \<Rightarrow> Diffn \<Rightarrow> Diffn" where
  "set_position a i v s =
     (case a of Horizontal \<Rightarrow> s\<lparr>dn_x := (dn_x s)[i := v]\<rparr>
              | Vertical \<Rightarrow> s\<lparr>dn_y := (dn_y s)[i := v]\<rparr>)"

definition set_size :: "axis \<Rightarrow> nat \<Rightarrow> IntVar \<Rightarrow> Diffn \<Rightarrow> Diffn" where
  "set_size a i v s =
     (case a of Horizontal \<Rightarrow> s\<lparr>dn_dx := (dn_dx s)[i := v]\<rparr>
              | Vertical \<Rightarrow> s\<lparr>dn_dy := (dn_dy s)[i := v]\<rparr>)"

text \<open>The three setter calls of a branch of \<open>PushOneDirection\<close>: \<open>later\<close> is forced after
  \<open>earlier\<close>.\<close>

definition push_after ::
  "axis \<Rightarrow> nat \<Rightarrow> nat \<Rightarrow> int \<Rightarrow> int \<Rightarrow> Diffn \<Rightarrow> failure + Diffn" where
  "push_after a later earlier end_min_earlier start_max_later s =
     fbind (IntVar_SetMin end_min_earlier (positions a s ! later)) (\<lambda>v1.
       (let s1 = set_position a later v1 s
        in fbind (IntVar_SetMax (wrap64 (start_max_later - var_min (sizes a s1 ! earlier)))
                    (positions a s1 ! earlier)) (\<lambda>v2.
             (let s2 = set_position a earlier v2 s1
              in fbind (IntVar_SetMax
                          (wrap64 (start_max_later - var_min (positions a s2 ! earlier)))
                          (sizes a s2 ! earlier)) (\<lambda>v3.
                   Inr (set_size a earlier v3 s2))))))"

definition PushOneDirection ::
  "nat \<Rightarrow> nat \<Rightarrow> int \<Rightarrow> int \<Rightarrow> int \<Rightarrow> int \<Rightarrow> axis \<Rightarrow> Diffn \<Rightarrow> failure + Diffn" where
  "PushOneDirection box other start_max_box end_min_box start_max_other end_min_other a s =
     (if end_min_other > start_max_box
      then push_after a other box end_min_box start_max_other s
      else if end_min_box > start_max_other
      then push_after a box other end_min_other start_max_box s
      else Inr s)"

definition PushOneBox ::
  "nat \<Rightarrow> nat \<Rightarrow> int \<Rightarrow> int \<Rightarrow> int \<Rightarrow> int \<Rightarrow> Diffn \<Rightarrow> failure + Diffn" where
  "PushOneBox box other start_max_box_x end_min_box_x start_max_box_y end_min_box_y s =
     (let start_max_other_x = var_max (dn_x s ! other);
          end_min_other_x = wrap64 (var_min (dn_x s ! other) + var_min (dn_dx s ! other));
          start_max_other_y = var_max (dn_y s ! other);
          end_min_other_y = wrap64 (var_min (dn_y s ! other) + var_min (dn_dy s ! other))
      in if start_max_other_x < end_min_other_x \<and> start_max_other_y < end_min_other_y
           then (let overlap_horizontal =
                       (start_max_other_x < end_min_box_x \<and> start_max_box_x < end_min_other_x);
                     overlap_vertical =
                       (start_max_other_y < end_min_box_y \<and> start_max_box_y < end_min_other_y)
                 in if overlap_horizontal \<and> overlap_vertical then Inl Fail
                    else if overlap_horizontal
                    then PushOneDirection box other start_max_box_y end_min_box_y
                           start_max_other_y end_min_other_y Vertical s
                    else if overlap_vertical
                    then PushOneDirection box other start_max_box_x end_min_box_x
                           start_max_other_x end_min_other_x Horizontal s
                    else Inr s)
           else Inr s)"

text \<open>The loop of \<open>PushOverlappingBoxes\<close> over the neighbours that are left.\<close>

fun PushOverlappingBoxes_loop ::
  "nat \<Rightarrow> nat list \<Rightarrow> int \<Rightarrow> int \<Rightarrow> int \<Rightarrow> int \<Rightarrow> Diffn \<Rightarrow> failure + Diffn" where
  "PushOverlappingBoxes_loop box [] smx emx smy emy s = Inr s"
| "PushOverlappingBoxes_loop box (other # rest) smx emx smy emy s =
     (case PushOneBox box other smx emx smy emy s of
        Inl e \<Rightarrow> Inl e
      | Inr s1 \<Rightarrow> PushOverlappingBoxes_loop box rest smx emx smy emy s1)"

definition PushOverlappingBoxes :: "nat \<Rightarrow> Diffn \<Rightarrow> failure + Diffn" where
  "PushOverlappingBoxes box s =
     (let start_max_box_x = var_max (dn_x s ! box);
          end_min_box_x = wrap64 (var_min (dn_x s ! box) + var_min (dn_dx s ! box));
          start_max_box_y = var_max (dn_y s ! box);
          end_min_box_y = wrap64 (var_min (dn_y s ! box) + var_min (dn_dy s ! box))
      in if start_max_box_x < end_min_box_x \<and> start_max_box_y < end_min_box_y
         then PushOverlappingBoxes_loop box (neighbors s) start_max_box_x end_min_box_x
                start_max_box_y end_min_box_y s
         else Inr s)"

text \<open>The body of the loop of \<open>PropagateAll\<close>, the loop over the boxes that are left, and
  \<open>PropagateAll\<close>.\<close>

definition propagate_box :: "nat \<Rightarrow> Diffn \<Rightarrow> failure + Diffn" where
  "propagate_box box s =
     (let s1 = FillNeighbors box s
      in fbind (CheckEnergy box s1) (\<lambda>u. PushOverlappingBoxes box s1))"

fun PropagateAll_loop :: "nat list \<Rightarrow> Diffn \<Rightarrow> failure + Diffn" where
  "PropagateAll_loop [] s = Inr s"
| "PropagateAll_loop (box # rest) s =
     (case propagate_box box s of
        Inl e \<Rightarrow> Inl e
      | Inr s1 \<Rightarrow> PropagateAll_loop rest s1)"

definition PropagateAll :: "Diffn \<Rightarrow> failure + Diffn" where
  "PropagateAll s =
     fbind (PropagateAll_loop (to_propagate s) s) (\<lambda>s1. Inr (s1\<lparr>to_propagate := []\<rparr>))"

definition set_insert :: "nat \<Rightarrow> nat list \<Rightarrow> nat list" where
  "set_insert i l = (if i \<in> set l then l else l @ [i])"

text \<open>\<open>RangeBox\<close> records the box; the delayed demon it enqueues is \<open>PropagateAll\<close>.\<close>

definition RangeBox :: "nat \<Rightarrow> Diffn \<Rightarrow> Diffn" where
  "RangeBox box s = s\<lparr>to_propagate := set_insert box (to_propagate s)\<rparr>"

text \<open>The first loop of \<open>InitialPropagate\<close> from \<open>i\<close>: all sizes are at least 1.\<close>

function sizes_positive_loop :: "nat \<Rightarrow> Diffn \<Rightarrow> failure + Diffn" where
  "sizes_positive_loop i s =
     (if i < dn_size s
      then (case IntVar_SetMin 1 (dn_dx s ! i) of
              Inl e \<Rightarrow> Inl e
            | Inr v1 \<Rightarrow>
                (case IntVar_SetMin 1 (dn_dy s ! i) of
                   Inl e \<Rightarrow> Inl e
                 | Inr v2 \<Rightarrow>
                     sizes_positive_loop (Suc i)
                       (s\<lparr>dn_dx := (dn_dx s)[i := v1], dn_dy := (dn_dy s)[i := v2]\<rparr>)))
      else Inr s)"
  by pat_completeness auto

termination
  by (relation "measure (\<lambda>(i, s). dn_size s - i)") (auto simp: dn_size_def)

declare sizes_positive_loop.simps [simp del]

definition dn_InitialPropagate :: "Diffn \<Rightarrow> failure + Diffn" where
  "dn_InitialPropagate s =
     fbind (sizes_positive_loop 0 s) (\<lambda>s1.
       PropagateAll (s1\<lparr>to_propagate := fold set_insert [0 ..< dn_size s1] []\<rparr>))"





text \<open>A small example: two unit squares side by side, and the same two squares on the
  same spot.\<close>

definition c3_apart :: Diffn where
  "c3_apart = \<lparr>dn_x = [IntVar_make 0 0, IntVar_make 1 1],
               dn_y = [IntVar_make 0 0, IntVar_make 0 0],
               dn_dx = [IntVar_make 1 1, IntVar_make 1 1],
               dn_dy = [IntVar_make 1 1, IntVar_make 1 1],
               neighbors = [], to_propagate = []\<rparr>"

definition c3_stacked :: Diffn where
  "c3_stacked = c3_apart\<lparr>dn_x := [IntVar_make 0 0, IntVar_make 0 0]\<rparr>"


section \<open>The tree of the array constraints (expr_array.cc)\<close>

text \<open>
  A loop whose body may fail: \<open>for (x : xs) body(x)\<close>, left at the first failure.
\<close>

fun for_each :: "'a list \<Rightarrow> ('a \<Rightarrow> 's \<Rightarrow> failure + 's) \<Rightarrow> 's \<Rightarrow> failure + 's" where
  "for_each [] body s = Inr s"
| "for_each (x # xs) body s =
     (case body x s of
        Inl e \<Rightarrow> Inl e
      | Inr s1 \<Rightarrow> for_each xs body s1)"

subsection \<open>TreeArrayConstraint\<close>

record NodeInfo =
  node_min :: int
  node_max :: int

text \<open>
  The data of \<open>TreeArrayConstraint\<close>, which \<open>SumConstraint\<close> and \<open>SafeSumConstraint\<close>
  inherit unchanged. \<open>ta_block_size\<close> is the solver parameter \<open>array_split_size\<close>;
  \<open>ta_enqueued\<close> counts the calls of \<open>Enqueue(sum_demon_)\<close>, the queue being part of the
  solver core.
\<close>

record TreeArrayConstraint =
  ta_vars :: "IntVar list"
  ta_target_var :: IntVar
  ta_tree :: "NodeInfo list list"
  ta_block_size :: nat
  ta_enqueued :: nat

text \<open>
  The loop of the constructor: \<open>while (lengths.back() > 1)\<close>. It does not return when
  the block size is 1, and it divides by zero when the block size is 0: both are the
  value \<open>None\<close>.
\<close>

partial_function (option) lengths_loop :: "nat \<Rightarrow> nat list \<Rightarrow> nat list option" where
  "lengths_loop block_size lengths =
     (if last lengths > 1
      then (if block_size = 0 then None
            else lengths_loop block_size
                   (lengths @ [(last lengths + block_size - 1) div block_size]))
      else Some lengths)"

declare lengths_loop.simps [code]

text \<open>The constructor; \<open>DCHECK_EQ(1, tree_[0].size())\<close> is its last check.\<close>

definition TreeArrayConstraint_make ::
  "nat \<Rightarrow> IntVar list \<Rightarrow> IntVar \<Rightarrow> (failure + TreeArrayConstraint) option" where
  "TreeArrayConstraint_make block_size vars sum_var =
     (case lengths_loop block_size [length vars] of
        None \<Rightarrow> None
      | Some lengths \<Rightarrow>
          (let tree = map (\<lambda>i. replicate (lengths ! (length lengths - i - 1))
                                 \<lparr>node_min = 0, node_max = 0\<rparr>)
                          [0 ..< length lengths]
           in if length (tree ! 0) \<noteq> 1 then Some (Inl CheckFailed)
              else Some (Inr \<lparr>ta_vars = vars, ta_target_var = sum_var, ta_tree = tree,
                               ta_block_size = block_size, ta_enqueued = 0\<rparr>)))"

definition Min_node :: "TreeArrayConstraint \<Rightarrow> nat \<Rightarrow> nat \<Rightarrow> int" where
  "Min_node c depth position = node_min (ta_tree c ! depth ! position)"

definition Max_node :: "TreeArrayConstraint \<Rightarrow> nat \<Rightarrow> nat \<Rightarrow> int" where
  "Max_node c depth position = node_max (ta_tree c ! depth ! position)"

definition RootMin :: "TreeArrayConstraint \<Rightarrow> int" where
  "RootMin c = node_min (ta_tree c ! 0 ! 0)"

definition RootMax :: "TreeArrayConstraint \<Rightarrow> int" where
  "RootMax c = node_max (ta_tree c ! 0 ! 0)"

definition MaxDepth :: "TreeArrayConstraint \<Rightarrow> nat" where
  "MaxDepth c = length (ta_tree c) - 1"

definition IsLeaf :: "TreeArrayConstraint \<Rightarrow> nat \<Rightarrow> bool" where
  "IsLeaf c depth = (depth = MaxDepth c)"

definition Width :: "TreeArrayConstraint \<Rightarrow> nat \<Rightarrow> nat" where
  "Width c depth = length (ta_tree c ! depth)"

definition Parent :: "TreeArrayConstraint \<Rightarrow> nat \<Rightarrow> nat" where
  "Parent c position = position div ta_block_size c"

definition ChildStart :: "TreeArrayConstraint \<Rightarrow> nat \<Rightarrow> nat" where
  "ChildStart c position = position * ta_block_size c"

text \<open>\<open>ChildEnd\<close> is the last child, \<open>-1\<close> when there is none; it starts with
  \<open>DCHECK_LT(depth + 1, tree_.size())\<close>.\<close>

definition ChildEnd :: "TreeArrayConstraint \<Rightarrow> nat \<Rightarrow> nat \<Rightarrow> failure + int" where
  "ChildEnd c depth position =
     (if \<not> depth + 1 < length (ta_tree c) then Inl CheckFailed
      else Inr (min (int ((position + 1) * ta_block_size c) - 1)
                    (int (Width c (depth + 1)) - 1)))"

definition set_node ::
  "TreeArrayConstraint \<Rightarrow> nat \<Rightarrow> nat \<Rightarrow> NodeInfo \<Rightarrow> TreeArrayConstraint" where
  "set_node c depth position info =
     c\<lparr>ta_tree := (ta_tree c)[depth := (ta_tree c ! depth)[position := info]]\<rparr>"

definition InitNode :: "TreeArrayConstraint \<Rightarrow> nat \<Rightarrow> nat \<Rightarrow> int \<Rightarrow> int \<Rightarrow> TreeArrayConstraint" where
  "InitNode c depth position mi ma = set_node c depth position \<lparr>node_min = mi, node_max = ma\<rparr>"

definition InitLeaf :: "TreeArrayConstraint \<Rightarrow> nat \<Rightarrow> int \<Rightarrow> int \<Rightarrow> TreeArrayConstraint" where
  "InitLeaf c position mi ma = InitNode c (MaxDepth c) position mi ma"

text \<open>\<open>ReduceRange\<close> adds and subtracts with the plain operators of \<open>int64\<close>.\<close>

definition ReduceRange ::
  "TreeArrayConstraint \<Rightarrow> nat \<Rightarrow> nat \<Rightarrow> int \<Rightarrow> int \<Rightarrow> failure + TreeArrayConstraint" where
  "ReduceRange c depth position delta_min delta_max =
     (case (if delta_min > 0
            then (case add64 (Min_node c depth position) delta_min of
                    Inl e \<Rightarrow> Inl e
                  | Inr m \<Rightarrow> Inr (set_node c depth position
                                     ((ta_tree c ! depth ! position)\<lparr>node_min := m\<rparr>)))
            else Inr c) of
        Inl e \<Rightarrow> Inl e
      | Inr c1 \<Rightarrow>
          (if delta_max > 0
           then (case sub64 (Max_node c1 depth position) delta_max of
                   Inl e \<Rightarrow> Inl e
                 | Inr m \<Rightarrow> Inr (set_node c1 depth position
                                    ((ta_tree c1 ! depth ! position)\<lparr>node_max := m\<rparr>)))
           else Inr c1))"

definition Tree_SetRange ::
  "TreeArrayConstraint \<Rightarrow> nat \<Rightarrow> nat \<Rightarrow> int \<Rightarrow> int \<Rightarrow> TreeArrayConstraint" where
  "Tree_SetRange c depth position new_min new_max =
     (let c1 = (if new_min > Min_node c depth position
                then set_node c depth position
                       ((ta_tree c ! depth ! position)\<lparr>node_min := new_min\<rparr>)
                else c)
      in (if new_max < Max_node c1 depth position
          then set_node c1 depth position
                 ((ta_tree c1 ! depth ! position)\<lparr>node_max := new_max\<rparr>)
          else c1))"

text \<open>The first loop of both \<open>InitialPropagate\<close>: the variables are copied to the
  leaves.\<close>

definition copy_leaves :: "TreeArrayConstraint \<Rightarrow> TreeArrayConstraint" where
  "copy_leaves c =
     fold (\<lambda>i c. InitLeaf c i (var_min (ta_vars c ! i)) (var_max (ta_vars c ! i)))
          [0 ..< length (ta_vars c)] c"

text \<open>The two loops of \<open>SumChanged\<close> that fix every term to its minimum, or to its
  maximum.\<close>

definition set_var :: "TreeArrayConstraint \<Rightarrow> nat \<Rightarrow> IntVar \<Rightarrow> TreeArrayConstraint" where
  "set_var c i v = c\<lparr>ta_vars := (ta_vars c)[i := v]\<rparr>"

definition fix_all_to_min :: "TreeArrayConstraint \<Rightarrow> failure + TreeArrayConstraint" where
  "fix_all_to_min c =
     for_each [0 ..< length (ta_vars c)]
       (\<lambda>i c. case IntVar_SetValue (var_min (ta_vars c ! i)) (ta_vars c ! i) of
                 Inl e \<Rightarrow> Inl e
               | Inr v \<Rightarrow> Inr (set_var c i v)) c"

definition fix_all_to_max :: "TreeArrayConstraint \<Rightarrow> failure + TreeArrayConstraint" where
  "fix_all_to_max c =
     for_each [0 ..< length (ta_vars c)]
       (\<lambda>i c. case IntVar_SetValue (var_max (ta_vars c ! i)) (ta_vars c ! i) of
                 Inl e \<Rightarrow> Inl e
               | Inr v \<Rightarrow> Inr (set_var c i v)) c"

text \<open>\<open>target_var_->SetRange(RootMin(), RootMax())\<close>.\<close>

definition tighten_target :: "TreeArrayConstraint \<Rightarrow> failure + TreeArrayConstraint" where
  "tighten_target c =
     (case IntVar_SetRange (RootMin c) (RootMax c) (ta_target_var c) of
        Inl e \<Rightarrow> Inl e
      | Inr t \<Rightarrow> Inr (c\<lparr>ta_target_var := t\<rparr>))"

subsection \<open>SumConstraint\<close>

text \<open>
  The sums of the children of node \<open>(i, j)\<close>, with the plain \<open>+=\<close> of \<open>int64\<close>, and the
  two outer loops of \<open>InitialPropagate\<close>.
\<close>

definition Sum_compute_node ::
  "nat \<Rightarrow> nat \<Rightarrow> TreeArrayConstraint \<Rightarrow> failure + TreeArrayConstraint" where
  "Sum_compute_node i j c =
     (case ChildEnd c i j of
        Inl e \<Rightarrow> Inl e
      | Inr block_end \<Rightarrow>
          (case for_each [ChildStart c j ..< nat (block_end + 1)]
                  (\<lambda>k (sum_min, sum_max).
                     case add64 sum_min (Min_node c (i + 1) k) of
                       Inl e \<Rightarrow> Inl e
                     | Inr a \<Rightarrow>
                         (case add64 sum_max (Max_node c (i + 1) k) of
                            Inl e \<Rightarrow> Inl e
                          | Inr b \<Rightarrow> Inr (a, b)))
                  (0, 0) of
             Inl e \<Rightarrow> Inl e
           | Inr (sum_min, sum_max) \<Rightarrow> Inr (InitNode c i j sum_min sum_max)))"

definition Sum_compute_up :: "TreeArrayConstraint \<Rightarrow> failure + TreeArrayConstraint" where
  "Sum_compute_up c =
     for_each (rev [0 ..< MaxDepth c])
       (\<lambda>i c. for_each [0 ..< Width c i] (Sum_compute_node i) c) c"

text \<open>
  \<open>PushDown\<close> reads the tree and writes the variables, so the constraint is a parameter
  and the variables are the state. The second function is the loop over the children,
  from child \<open>i\<close>.
\<close>

function Sum_PushDown ::
    "TreeArrayConstraint \<Rightarrow> nat \<Rightarrow> nat \<Rightarrow> int \<Rightarrow> int \<Rightarrow> IntVar list \<Rightarrow> failure + IntVar list"
  and Sum_PushDown_children ::
    "TreeArrayConstraint \<Rightarrow> nat \<Rightarrow> nat \<Rightarrow> int \<Rightarrow> int \<Rightarrow> int \<Rightarrow> int \<Rightarrow> int \<Rightarrow> IntVar list
       \<Rightarrow> failure + IntVar list"
where
  "Sum_PushDown c depth position new_min new_max vars =
     (if new_min \<le> Min_node c depth position \<and> new_max \<ge> Max_node c depth position
      then Inr vars
      else if IsLeaf c depth
      then (case IntVar_SetRange new_min new_max (vars ! position) of
              Inl e \<Rightarrow> Inl e
            | Inr v \<Rightarrow> Inr (vars[position := v]))
      else (let sum_min = Min_node c depth position;
                sum_max = Max_node c depth position;
                new_max1 = min sum_max new_max;
                new_min1 = max sum_min new_min
            in if new_max1 < sum_min \<or> new_min1 > sum_max then Inl Fail
               else (case ChildEnd c depth position of
                       Inl e \<Rightarrow> Inl e
                     | Inr block_end \<Rightarrow>
                         Sum_PushDown_children c depth (ChildStart c position) block_end
                           sum_min sum_max new_min1 new_max1 vars)))"
| "Sum_PushDown_children c depth i block_end sum_min sum_max new_min new_max vars =
     (if int i \<le> block_end
      then (case sub64 sum_min (Min_node c (depth + 1) i) of
              Inl e \<Rightarrow> Inl e
            | Inr residual_min \<Rightarrow>
            (case sub64 sum_max (Max_node c (depth + 1) i) of
              Inl e \<Rightarrow> Inl e
            | Inr residual_max \<Rightarrow>
            (case sub64 new_min residual_max of
              Inl e \<Rightarrow> Inl e
            | Inr child_min \<Rightarrow>
            (case sub64 new_max residual_min of
              Inl e \<Rightarrow> Inl e
            | Inr child_max \<Rightarrow>
            (case Sum_PushDown c (depth + 1) i child_min child_max vars of
              Inl e \<Rightarrow> Inl e
            | Inr vars1 \<Rightarrow>
                Sum_PushDown_children c depth (i + 1) block_end
                  sum_min sum_max new_min new_max vars1)))))
      else Inr vars)"
  by pat_completeness auto

termination
  by (relation "measures
        [\<lambda>x. case x of
                Inl (c, depth, r) \<Rightarrow> 2 * (length (ta_tree c) - depth) + 1
              | Inr (c, depth, r) \<Rightarrow> 2 * (length (ta_tree c) - (depth + 1)) + 2,
         \<lambda>x. case x of
                Inl r \<Rightarrow> 0
              | Inr (c, depth, i, block_end, r) \<Rightarrow> nat (block_end + 1 - int i)]")
     (auto simp: ChildEnd_def split: if_splits)

declare Sum_PushDown.simps [simp del]

declare Sum_PushDown_children.simps [simp del]

definition Sum_SumChanged :: "TreeArrayConstraint \<Rightarrow> failure + TreeArrayConstraint" where
  "Sum_SumChanged c =
     (if var_max (ta_target_var c) = RootMin c \<and> var_max (ta_target_var c) \<noteq> kint64max
      then fix_all_to_min c
      else if var_min (ta_target_var c) = RootMax c \<and> var_min (ta_target_var c) \<noteq> kint64min
      then fix_all_to_max c
      else (case Sum_PushDown c 0 0 (var_min (ta_target_var c)) (var_max (ta_target_var c))
                   (ta_vars c) of
              Inl e \<Rightarrow> Inl e
            | Inr vars \<Rightarrow> Inr (c\<lparr>ta_vars := vars\<rparr>)))"

definition Sum_InitialPropagate :: "TreeArrayConstraint \<Rightarrow> failure + TreeArrayConstraint" where
  "Sum_InitialPropagate c =
     (case Sum_compute_up (copy_leaves c) of
        Inl e \<Rightarrow> Inl e
      | Inr c1 \<Rightarrow>
          (case tighten_target c1 of
             Inl e \<Rightarrow> Inl e
           | Inr c2 \<Rightarrow> Sum_SumChanged c2))"

text \<open>
  \<open>PushUp\<close>: the loop from the leaves to the root carries the position; it is followed
  by \<open>DCHECK_EQ(0, position)\<close>.
\<close>

fun Sum_PushUp_loop ::
  "nat list \<Rightarrow> int \<Rightarrow> int \<Rightarrow> nat \<Rightarrow> TreeArrayConstraint \<Rightarrow> failure + (nat \<times> TreeArrayConstraint)"
where
  "Sum_PushUp_loop [] delta_min delta_max position c = Inr (position, c)"
| "Sum_PushUp_loop (depth # depths) delta_min delta_max position c =
     (case ReduceRange c depth position delta_min delta_max of
        Inl e \<Rightarrow> Inl e
      | Inr c1 \<Rightarrow> Sum_PushUp_loop depths delta_min delta_max (Parent c1 position) c1)"

definition Sum_PushUp ::
  "nat \<Rightarrow> int \<Rightarrow> int \<Rightarrow> TreeArrayConstraint \<Rightarrow> failure + TreeArrayConstraint" where
  "Sum_PushUp position delta_min delta_max c =
     (if \<not> delta_max \<ge> 0 \<or> \<not> delta_min \<ge> 0 then Inl CheckFailed
      else (case add64 delta_min delta_max of
              Inl e \<Rightarrow> Inl e
            | Inr d \<Rightarrow>
                (if \<not> d > 0 then Inl CheckFailed
                 else (case Sum_PushUp_loop (rev [0 ..< MaxDepth c + 1]) delta_min delta_max
                              position c of
                         Inl e \<Rightarrow> Inl e
                       | Inr (p, c1) \<Rightarrow>
                           (if p \<noteq> 0 then Inl CheckFailed else tighten_target c1)))))"

text \<open>
  \<open>LeafChanged\<close> is the demon of variable \<open>term_index\<close>. The old bounds of a variable
  are its bounds when its demons were last executed (the previous bounds of the spec):
  \<open>demons_done\<close> records that they have run.
\<close>

definition Sum_LeafChanged :: "nat \<Rightarrow> TreeArrayConstraint \<Rightarrow> failure + TreeArrayConstraint" where
  "Sum_LeafChanged term_index c =
     (let var = ta_vars c ! term_index
      in case sub64 (var_min var) (old_min var) of
           Inl e \<Rightarrow> Inl e
         | Inr delta_min \<Rightarrow>
             (case sub64 (old_max var) (var_max var) of
                Inl e \<Rightarrow> Inl e
              | Inr delta_max \<Rightarrow>
                  (case Sum_PushUp term_index delta_min delta_max c of
                     Inl e \<Rightarrow> Inl e
                   | Inr c1 \<Rightarrow> Inr (c1\<lparr>ta_enqueued := Suc (ta_enqueued c1)\<rparr>))))"

definition demons_done :: "nat \<Rightarrow> TreeArrayConstraint \<Rightarrow> TreeArrayConstraint" where
  "demons_done i c =
     set_var c i ((ta_vars c ! i)\<lparr>old_min := var_min (ta_vars c ! i),
                                   old_max := var_max (ta_vars c ! i)\<rparr>)"

subsection \<open>SafeSumConstraint\<close>

text \<open>\<open>DetectSumOverflow\<close>, the loop from the sums \<open>sum_min\<close> and \<open>sum_max\<close> so far.\<close>

fun DetectSumOverflow_loop :: "IntVar list \<Rightarrow> int \<Rightarrow> int \<Rightarrow> bool" where
  "DetectSumOverflow_loop [] sum_min sum_max = False"
| "DetectSumOverflow_loop (v # vars) sum_min sum_max =
     (let sum_min1 = CapAdd sum_min (var_min v);
          sum_max1 = CapAdd sum_max (var_max v)
      in if sum_min1 = kint64min \<or> sum_max1 = kint64max then True
         else DetectSumOverflow_loop vars sum_min1 sum_max1)"

definition DetectSumOverflow :: "IntVar list \<Rightarrow> bool" where
  "DetectSumOverflow vars = DetectSumOverflow_loop vars 0 0"

text \<open>\<open>SafeComputeNode\<close>: the loop over the children \<open>ks\<close> that are left, with its
  \<open>break\<close>.\<close>

fun SafeComputeNode_loop ::
  "TreeArrayConstraint \<Rightarrow> nat \<Rightarrow> nat list \<Rightarrow> int \<Rightarrow> int \<Rightarrow> int \<times> int" where
  "SafeComputeNode_loop c depth [] sum_min sum_max = (sum_min, sum_max)"
| "SafeComputeNode_loop c depth (k # ks) sum_min sum_max =
     (let sum_min1 = (if sum_min \<noteq> kint64min then CapAdd sum_min (Min_node c (depth + 1) k)
                      else sum_min);
          sum_max1 = (if sum_max \<noteq> kint64max then CapAdd sum_max (Max_node c (depth + 1) k)
                      else sum_max)
      in if sum_min1 = kint64min \<and> sum_max1 = kint64max then (sum_min1, sum_max1)
         else SafeComputeNode_loop c depth ks sum_min1 sum_max1)"

definition SafeComputeNode ::
  "TreeArrayConstraint \<Rightarrow> nat \<Rightarrow> nat \<Rightarrow> int \<Rightarrow> int \<Rightarrow> failure + (int \<times> int)" where
  "SafeComputeNode c depth position sum_min sum_max =
     (if \<not> depth < MaxDepth c then Inl CheckFailed
      else (case ChildEnd c depth position of
              Inl e \<Rightarrow> Inl e
            | Inr block_end \<Rightarrow>
                Inr (SafeComputeNode_loop c depth
                       [ChildStart c position ..< nat (block_end + 1)] sum_min sum_max)))"

definition SafeSum_compute_node ::
  "nat \<Rightarrow> nat \<Rightarrow> TreeArrayConstraint \<Rightarrow> failure + TreeArrayConstraint" where
  "SafeSum_compute_node i j c =
     (case SafeComputeNode c i j 0 0 of
        Inl e \<Rightarrow> Inl e
      | Inr (sum_min, sum_max) \<Rightarrow> Inr (InitNode c i j sum_min sum_max))"

definition SafeSum_compute_up :: "TreeArrayConstraint \<Rightarrow> failure + TreeArrayConstraint" where
  "SafeSum_compute_up c =
     for_each (rev [0 ..< MaxDepth c])
       (\<lambda>i c. for_each [0 ..< Width c i] (SafeSum_compute_node i) c) c"

function SafeSum_PushDown ::
    "TreeArrayConstraint \<Rightarrow> nat \<Rightarrow> nat \<Rightarrow> int \<Rightarrow> int \<Rightarrow> IntVar list \<Rightarrow> failure + IntVar list"
  and SafeSum_PushDown_children ::
    "TreeArrayConstraint \<Rightarrow> nat \<Rightarrow> nat \<Rightarrow> int \<Rightarrow> int \<Rightarrow> int \<Rightarrow> int \<Rightarrow> int \<Rightarrow> IntVar list
       \<Rightarrow> failure + IntVar list"
where
  "SafeSum_PushDown c depth position new_min new_max vars =
     (if new_min \<le> Min_node c depth position \<and> new_max \<ge> Max_node c depth position
      then Inr vars
      else if IsLeaf c depth
      then (case IntVar_SetRange new_min new_max (vars ! position) of
              Inl e \<Rightarrow> Inl e
            | Inr v \<Rightarrow> Inr (vars[position := v]))
      else (let sum_min = Min_node c depth position;
                sum_max = Max_node c depth position;
                new_max1 = min sum_max new_max;
                new_min1 = max sum_min new_min
            in if new_max1 < sum_min \<or> new_min1 > sum_max then Inl Fail
               else (case ChildEnd c depth position of
                       Inl e \<Rightarrow> Inl e
                     | Inr block_end \<Rightarrow>
                         SafeSum_PushDown_children c depth (ChildStart c position) block_end
                           sum_min sum_max new_min1 new_max1 vars)))"
| "SafeSum_PushDown_children c depth pos block_end sum_min sum_max new_min new_max vars =
     (if int pos \<le> block_end
      then (let target_var_min = Min_node c (depth + 1) pos;
                residual_min = (if sum_min \<noteq> kint64min then CapSub sum_min target_var_min
                                else kint64min);
                target_var_max = Max_node c (depth + 1) pos;
                residual_max = (if sum_max \<noteq> kint64max then CapSub sum_max target_var_max
                                else kint64max)
            in case SafeSum_PushDown c (depth + 1) pos
                      (if residual_max = kint64min then kint64min
                       else CapSub new_min residual_max)
                      (if residual_min = kint64max then kint64min
                       else CapSub new_max residual_min) vars of
                 Inl e \<Rightarrow> Inl e
               | Inr vars1 \<Rightarrow>
                   SafeSum_PushDown_children c depth (pos + 1) block_end
                     sum_min sum_max new_min new_max vars1)
      else Inr vars)"
  by pat_completeness auto

termination
  by (relation "measures
        [\<lambda>x. case x of
                Inl (c, depth, r) \<Rightarrow> 2 * (length (ta_tree c) - depth) + 1
              | Inr (c, depth, r) \<Rightarrow> 2 * (length (ta_tree c) - (depth + 1)) + 2,
         \<lambda>x. case x of
                Inl r \<Rightarrow> 0
              | Inr (c, depth, pos, block_end, r) \<Rightarrow> nat (block_end + 1 - int pos)]")
     (auto simp: ChildEnd_def split: if_splits)

declare SafeSum_PushDown.simps [simp del]

declare SafeSum_PushDown_children.simps [simp del]

definition SafeSum_SumChanged :: "TreeArrayConstraint \<Rightarrow> failure + TreeArrayConstraint" where
  "SafeSum_SumChanged c =
     (if var_max (ta_target_var c) = RootMin c then fix_all_to_min c
      else if var_min (ta_target_var c) = RootMax c then fix_all_to_max c
      else (case SafeSum_PushDown c 0 0 (var_min (ta_target_var c))
                   (var_max (ta_target_var c)) (ta_vars c) of
              Inl e \<Rightarrow> Inl e
            | Inr vars \<Rightarrow> Inr (c\<lparr>ta_vars := vars\<rparr>)))"

definition SafeSum_InitialPropagate ::
  "TreeArrayConstraint \<Rightarrow> failure + TreeArrayConstraint" where
  "SafeSum_InitialPropagate c =
     (case SafeSum_compute_up (copy_leaves c) of
        Inl e \<Rightarrow> Inl e
      | Inr c1 \<Rightarrow>
          (case tighten_target c1 of
             Inl e \<Rightarrow> Inl e
           | Inr c2 \<Rightarrow> SafeSum_SumChanged c2))"

text \<open>
  \<open>PushUp\<close> of the safe variant. The loop answers the position it ends with, or \<open>None\<close>
  when it was left by \<open>return\<close>, which skips the tightening of the target.
\<close>

fun SafeSum_PushUp_loop ::
  "nat list \<Rightarrow> int \<Rightarrow> int \<Rightarrow> bool \<Rightarrow> nat \<Rightarrow> TreeArrayConstraint
     \<Rightarrow> failure + (nat option \<times> TreeArrayConstraint)"
where
  "SafeSum_PushUp_loop [] delta_min delta_max delta_corrupted position c =
     Inr (Some position, c)"
| "SafeSum_PushUp_loop (depth # depths) delta_min delta_max delta_corrupted position c =
     (if Min_node c depth position \<noteq> kint64min \<and> Max_node c depth position \<noteq> kint64max
         \<and> \<not> delta_corrupted
      then (case ReduceRange c depth position delta_min delta_max of
              Inl e \<Rightarrow> Inl e
            | Inr c1 \<Rightarrow>
                SafeSum_PushUp_loop depths delta_min delta_max delta_corrupted
                  (Parent c1 position) c1)
      else if depth = MaxDepth c
      then (let c1 = Tree_SetRange c depth position (var_min (ta_vars c ! position))
                       (var_max (ta_vars c ! position))
            in SafeSum_PushUp_loop depths delta_min delta_max True (Parent c1 position) c1)
      else (case SafeComputeNode c depth position 0 0 of
              Inl e \<Rightarrow> Inl e
            | Inr (sum_min, sum_max) \<Rightarrow>
                (if sum_min = kint64min \<and> sum_max = kint64max then Inr (None, c)
                 else (let c1 = Tree_SetRange c depth position sum_min sum_max
                       in SafeSum_PushUp_loop depths delta_min delta_max True
                            (Parent c1 position) c1))))"

definition SafeSum_PushUp ::
  "nat \<Rightarrow> int \<Rightarrow> int \<Rightarrow> TreeArrayConstraint \<Rightarrow> failure + TreeArrayConstraint" where
  "SafeSum_PushUp position delta_min delta_max c =
     (if \<not> delta_max \<ge> 0 \<or> \<not> delta_min \<ge> 0 \<or> \<not> CapAdd delta_min delta_max > 0
      then Inl CheckFailed
      else (case SafeSum_PushUp_loop (rev [0 ..< MaxDepth c + 1]) delta_min delta_max False
                   position c of
              Inl e \<Rightarrow> Inl e
            | Inr (None, c1) \<Rightarrow> Inr c1
            | Inr (Some p, c1) \<Rightarrow>
                (if p \<noteq> 0 then Inl CheckFailed else tighten_target c1)))"

definition SafeSum_LeafChanged ::
  "nat \<Rightarrow> TreeArrayConstraint \<Rightarrow> failure + TreeArrayConstraint" where
  "SafeSum_LeafChanged term_index c =
     (let var = ta_vars c ! term_index
      in case SafeSum_PushUp term_index (CapSub (var_min var) (old_min var))
                (CapSub (old_max var) (var_max var)) c of
           Inl e \<Rightarrow> Inl e
         | Inr c1 \<Rightarrow> Inr (c1\<lparr>ta_enqueued := Suc (ta_enqueued c1)\<rparr>))"

text \<open>
  The array of three variables in \<open>[-B, B]\<close>, \<open>B\<close> being \<open>kint64max / 4\<close>, and the
  constant \<open>-3 B + 1\<close> their sum is to equal: what
  \<open>MakeSumEquality(vars, -3 * B + 1)\<close> hands to the constructor. \<open>wrap64\<close> gives the value the
  machine leaves in an \<open>int64\<close>.
\<close>

definition c2_B :: int where
  "c2_B = kint64max div 4"

definition c2_vars :: "IntVar list" where
  "c2_vars = [IntVar_make (- c2_B) c2_B, IntVar_make (- c2_B) c2_B, IntVar_make (- c2_B) c2_B]"

definition c2_target :: IntVar where
  "c2_target = IntVar_make (- 3 * c2_B + 1) (- 3 * c2_B + 1)"

definition c2_constraint :: TreeArrayConstraint where
  "c2_constraint =
     \<lparr>ta_vars = c2_vars, ta_target_var = c2_target,
      ta_tree = [[\<lparr>node_min = 0, node_max = 0\<rparr>],
                 [\<lparr>node_min = 0, node_max = 0\<rparr>, \<lparr>node_min = 0, node_max = 0\<rparr>,
                  \<lparr>node_min = 0, node_max = 0\<rparr>]],
      ta_block_size = 16, ta_enqueued = 0\<rparr>"













text \<open>Every length but the first is the previous one divided by the block size, rounded up.\<close>

definition ceil_chain :: "nat \<Rightarrow> nat list \<Rightarrow> bool" where
  "ceil_chain b ls = (\<forall>m. Suc m < length ls \<longrightarrow> ls ! Suc m = (ls ! m + b - 1) div b)"









chapter \<open>Properties\<close>

section \<open>Interval variables\<close>

text \<open>
  Claim C10. The accessors \<open>StartMin\<close>, \<open>StartMax\<close>, \<open>EndMin\<close> and \<open>EndMax\<close> of a
  \<open>FixedDurationIntervalVar\<close> carry the precondition that the interval may still be
  performed: on an interval whose performed status is false each of them ends in the
  fatal \<open>CHECK(performed_.MayBeTrue())\<close> and returns no value.
\<close>

theorem fd_accessors_require_may_be_performed:
  "status (fd_performed v) = kFalse \<Longrightarrow>
     fd_StartMin v = Inl CheckFailed \<and> fd_StartMax v = Inl CheckFailed \<and>
     fd_EndMin v = Inl CheckFailed \<and> fd_EndMax v = Inl CheckFailed"
  by (simp add: fd_StartMin_def fd_StartMax_def fd_EndMin_def fd_EndMax_def MayBeTrue_def)

theorem fd_accessors_require_may_be_performed_witness:
  "status (fd_performed FixedDurationIntervalVar_make_unperformed) = kFalse \<and>
   fd_StartMin FixedDurationIntervalVar_make_unperformed = Inl CheckFailed \<and>
   fd_StartMax FixedDurationIntervalVar_make_unperformed = Inl CheckFailed \<and>
   fd_EndMin FixedDurationIntervalVar_make_unperformed = Inl CheckFailed \<and>
   fd_EndMax FixedDurationIntervalVar_make_unperformed = Inl CheckFailed"
proof -
  have h: "status (fd_performed FixedDurationIntervalVar_make_unperformed) = kFalse"
    by (simp add: FixedDurationIntervalVar_make_unperformed_def)
  show ?thesis
    using h fd_accessors_require_may_be_performed [OF h] by simp
qed

lemmas bool_consts = kFalse_def kTrue_def kUndecidedBooleanValue_def int_of_bool_def
















lemmas vd_defs = vd_setter_def vd_ProcessModification_def vd_SetPerformed_def vd_Push_def
  vd_unperform_def put_start_def put_duration_def put_end_def
  IntervalStorage_SetMin_def IntervalStorage_SetMax_def IntervalStorage_SetRange_def
  SetMinInProcess_def SetMaxInProcess_def SetRangeInProcess_def SyncPreviousBounds_def
  BooleanStorage_SetValue_def BooleanStorage_SetValueInProcess_def
  MayBeTrue_def MustBeTrue_def IntervalStorage_make_def BooleanStorage_make_def fbind_def
  CapAdd_def CapSub_def kint64max_def kint64min_def

lemma contradicts_iff:
  "contradicts_min lo hi m \<longleftrightarrow> \<not> (\<exists>x. lo \<le> x \<and> x \<le> hi \<and> m \<le> x)"
  "contradicts_max lo hi m \<longleftrightarrow> \<not> (\<exists>x. lo \<le> x \<and> x \<le> hi \<and> x \<le> m)"
  "contradicts_range lo hi mi ma \<longleftrightarrow> \<not> (\<exists>x. lo \<le> x \<and> x \<le> hi \<and> mi \<le> x \<and> x \<le> ma)"
proof -
  show "contradicts_min lo hi m \<longleftrightarrow> \<not> (\<exists>x. lo \<le> x \<and> x \<le> hi \<and> m \<le> x)"
    unfolding contradicts_min_def
    by (metis max.bounded_iff max.cobounded1 max.cobounded2 not_le order_refl order_trans)
  show "contradicts_max lo hi m \<longleftrightarrow> \<not> (\<exists>x. lo \<le> x \<and> x \<le> hi \<and> x \<le> m)"
    unfolding contradicts_max_def
    by (metis min.bounded_iff min.cobounded1 min.cobounded2 not_le order_refl order_trans)
  have "max lo mi \<le> min hi ma \<longleftrightarrow> (\<exists>x. lo \<le> x \<and> x \<le> hi \<and> mi \<le> x \<and> x \<le> ma)"
  proof
    assume "max lo mi \<le> min hi ma"
    then show "\<exists>x. lo \<le> x \<and> x \<le> hi \<and> mi \<le> x \<and> x \<le> ma"
      by (intro exI [of _ "max lo mi"]) simp
  next
    assume "\<exists>x. lo \<le> x \<and> x \<le> hi \<and> mi \<le> x \<and> x \<le> ma"
    then show "max lo mi \<le> min hi ma" by auto
  qed
  moreover have "contradicts_range lo hi mi ma \<longleftrightarrow> \<not> max lo mi \<le> min hi ma"
    unfolding contradicts_range_def by (simp only: not_le)
  ultimately show "contradicts_range lo hi mi ma
               \<longleftrightarrow> \<not> (\<exists>x. lo \<le> x \<and> x \<le> hi \<and> mi \<le> x \<and> x \<le> ma)"
    by (simp only:)
qed






lemma CapAdd_unsaturated: "unsaturated a b \<Longrightarrow> CapAdd a b = a + b"
  by (auto simp: unsaturated_def CapAdd_def in_int64_def)

lemma SetRange_result:
  "IntervalStorage_SetRange mi ma s = (st, s') \<Longrightarrow> st \<noteq> INCONSISTENT \<Longrightarrow>
     st_min s' = max (st_min s) mi \<and> st_max s' = min (st_max s) ma"
  by (auto simp: IntervalStorage_SetRange_def SyncPreviousBounds_def Let_def split: if_splits)

lemma vd_unperform_result:
  "vd_unperform v = Inr v' \<Longrightarrow> status (vd_performed v') = kFalse"
  by (auto simp: vd_unperform_def BooleanStorage_SetValue_def bool_consts split: if_splits)

lemma vd_Push_coherent:
  assumes push: "vd_Push v = Inr v'" and may: "MayBeTrue (vd_performed v')"
  shows "CapAdd (st_min (vd_start v')) (st_min (vd_duration v')) \<le> st_min (vd_end v') \<and>
         st_max (vd_end v') \<le> CapAdd (st_max (vd_start v')) (st_max (vd_duration v'))"
proof -
  obtain st1 s where r1: "IntervalStorage_SetRange
                     (CapSub (st_min (vd_end v)) (st_max (vd_duration v)))
                     (CapSub (st_max (vd_end v)) (st_min (vd_duration v))) (vd_start v) = (st1, s)"
    by (cases "IntervalStorage_SetRange
                     (CapSub (st_min (vd_end v)) (st_max (vd_duration v)))
                     (CapSub (st_max (vd_end v)) (st_min (vd_duration v))) (vd_start v)") auto
  obtain st2 d where r2: "IntervalStorage_SetRange
                          (CapSub (st_min (vd_end v)) (st_max s))
                          (CapSub (st_max (vd_end v)) (st_min s)) (vd_duration v) = (st2, d)"
    by (cases "IntervalStorage_SetRange
                          (CapSub (st_min (vd_end v)) (st_max s))
                          (CapSub (st_max (vd_end v)) (st_min s)) (vd_duration v)") auto
  obtain st3 e where r3: "IntervalStorage_SetRange
                               (CapAdd (st_min s) (st_min d))
                               (CapAdd (st_max s) (st_max d)) (vd_end v) = (st3, e)"
    by (cases "IntervalStorage_SetRange
                               (CapAdd (st_min s) (st_min d))
                               (CapAdd (st_max s) (st_max d)) (vd_end v)") auto
  have un: "\<And>w w'. vd_unperform w = Inr w' \<Longrightarrow> \<not> MayBeTrue (vd_performed w')"
    using vd_unperform_result by (simp add: MayBeTrue_def)
  show ?thesis
  proof (cases "MayBeTrue (vd_performed v)")
    case False
    then show ?thesis using push may by (auto simp: vd_Push_def fbind_def)
  next
    case True
    have ok: "st1 \<noteq> INCONSISTENT \<and> st2 \<noteq> INCONSISTENT \<and> st3 \<noteq> INCONSISTENT \<and>
              v' = v\<lparr>vd_start := s, vd_duration := d, vd_end := e,
                     vd_enqueued := Suc (vd_enqueued v)\<rparr>"
      using push may True r1 r2 r3 un
      by (cases st1; cases st2; cases st3)
         (auto simp: vd_Push_def fbind_def split: sum.splits)
    have "st_min e = max (st_min (vd_end v)) (CapAdd (st_min s) (st_min d)) \<and>
          st_max e = min (st_max (vd_end v)) (CapAdd (st_max s) (st_max d))"
      using SetRange_result [OF r3] ok by simp
    then show ?thesis using ok by simp
  qed
qed

lemma vd_call_unperformed:
  assumes "status (vd_performed v) = kFalse"
  shows "vd_call c v = Inr v"
  using assms by (cases c) (simp_all add: vd_setter_def MayBeTrue_def)


lemma wrap64_id: "in_int64 x \<Longrightarrow> wrap64 x = x"
  by (simp add: wrap64_def in_int64_def kint64min_def kint64max_def)

lemma CapAdd_clamp:
  assumes "kint64min < a" "a < kint64max" "kint64min < b" "b < kint64max"
  shows "CapAdd a b = max kint64min (min kint64max (a + b))"
  using assms by (auto simp: CapAdd_def)

lemma make_coherent:
  assumes f: "feasible smin smax dmin dmax emin emax"
  shows "coherent (VariableDurationIntervalVar_make smin smax dmin dmax emin emax optional)"
proof -
  define s1 where "s1 = max smin (emin - dmax)"
  define s2 where "s2 = min smax (emax - dmin)"
  define d1 where "d1 = max dmin (emin - smax)"
  define d2 where "d2 = min dmax (emax - smin)"
  define e1 where "e1 = max emin (smin + dmin)"
  define e2 where "e2 = min emax (smax + dmax)"
  have b: "kint64min < smin" "smin < kint64max" "kint64min < smax" "smax < kint64max"
      "kint64min < dmin" "dmin < kint64max" "kint64min < dmax" "dmax < kint64max"
      "kint64min < emin" "emin < kint64max" "kint64min < emax" "emax < kint64max"
    and i: "in_int64 (emin - dmax)" "in_int64 (emax - dmin)" "in_int64 (emin - smax)"
      "in_int64 (emax - smin)" "in_int64 (smin + dmin)" "in_int64 (smax + dmax)"
    and o: "smin \<le> smax" "dmin \<le> dmax" "emin \<le> smax + dmax" "smin + dmin \<le> emax"
    using f by (simp_all add: feasible_def)
  have mk: "VariableDurationIntervalVar_make smin smax dmin dmax emin emax optional =
     \<lparr>vd_start = IntervalStorage_make s1 s2, vd_duration = IntervalStorage_make d1 d2,
      vd_end = IntervalStorage_make e1 e2, vd_performed = BooleanStorage_make optional,
      vd_in_process = False, vd_enqueued = 0\<rparr>"
    by (simp add: VariableDurationIntervalVar_make_def wrap64_id i s1_def s2_def d1_def d2_def
        e1_def e2_def)
  have r1: "kint64min < s1" "s1 < kint64max" "kint64min < d1" "d1 < kint64max"
    using b o by (auto simp: s1_def d1_def)
  have r2: "kint64min < s2" "s2 < kint64max" "kint64min < d2" "d2 < kint64max"
    using b o by (auto simp: s2_def d2_def)
  have lo: "s1 + d1 \<le> e1" using o by (auto simp: s1_def d1_def e1_def)
  have hi: "e2 \<le> s2 + d2" using o by (auto simp: s2_def d2_def e2_def)
  have e: "kint64min < e1" "e2 < kint64max" using b by (auto simp: e1_def e2_def)
  have "CapAdd s1 d1 \<le> e1"
    using lo e unfolding CapAdd_clamp [OF r1] by auto
  moreover have "e2 \<le> CapAdd s2 d2"
    using hi e unfolding CapAdd_clamp [OF r2] by auto
  ultimately show ?thesis
    unfolding mk by (simp add: coherent_def IntervalStorage_make_def)
qed

lemma same_bounds_refl: "same_bounds v v"
  by (simp add: same_bounds_def)

lemma same_bounds_trans: "same_bounds u v \<Longrightarrow> same_bounds v w \<Longrightarrow> same_bounds u w"
  by (simp add: same_bounds_def)

lemma same_bounds_coherent:
  assumes "same_bounds v v'" and "MayBeTrue (vd_performed v) \<longrightarrow> coherent v"
  shows "MayBeTrue (vd_performed v') \<longrightarrow> coherent v'"
  using assms by (simp add: same_bounds_def coherent_def MayBeTrue_def)

lemma vd_Push_inv:
  "vd_Push v = Inr v' \<Longrightarrow> MayBeTrue (vd_performed v') \<longrightarrow> coherent v'"
  using vd_Push_coherent [of v v'] by (simp add: coherent_def)

lemma vd_SetPerformed_inv:
  assumes inv: "MayBeTrue (vd_performed v) \<longrightarrow> coherent v"
    and res: "vd_SetPerformed b v = Inr v'"
  shows "MayBeTrue (vd_performed v') \<longrightarrow> coherent v'"
proof (cases "vd_in_process v")
  case True
  then have "same_bounds v v'"
    using res
    by (auto simp: vd_SetPerformed_def BooleanStorage_SetValueInProcess_def same_bounds_def
        split: if_splits sum.splits)
  then show ?thesis using inv same_bounds_coherent by blast
next
  case False
  show ?thesis
  proof (cases "status (vd_performed v) = kUndecidedBooleanValue")
    case True
    then obtain w where "vd_Push w = Inr v'"
      using res False by (auto simp: vd_SetPerformed_def BooleanStorage_SetValue_def)
    then show ?thesis by (rule vd_Push_inv)
  next
    case u: False
    then have "v' = v"
      using res False
      by (auto simp: vd_SetPerformed_def BooleanStorage_SetValue_def split: if_splits)
    then show ?thesis using inv by simp
  qed
qed

lemma vd_SetPerformed_in_process:
  assumes "vd_in_process v" and "vd_SetPerformed b v = Inr v'"
  shows "same_bounds v v' \<and> vd_in_process v'"
  using assms
  by (auto simp: vd_SetPerformed_def BooleanStorage_SetValueInProcess_def same_bounds_def
      split: if_splits sum.splits)

lemma out_of_process_unchanged:
  "IntervalStorage_SetMin m s = (st, s') \<Longrightarrow> st \<noteq> PUSH \<Longrightarrow> s' = s"
  "IntervalStorage_SetMax m s = (st, s') \<Longrightarrow> st \<noteq> PUSH \<Longrightarrow> s' = s"
  "IntervalStorage_SetRange mi ma s = (st, s') \<Longrightarrow> st \<noteq> PUSH \<Longrightarrow> s' = s"
  by (auto simp: IntervalStorage_SetMin_def IntervalStorage_SetMax_def
      IntervalStorage_SetRange_def Let_def split: if_splits)

lemma in_process_bounds:
  "SetMinInProcess m s = (ok, s') \<Longrightarrow> st_min s' = st_min s \<and> st_max s' = st_max s"
  "SetMaxInProcess m s = (ok, s') \<Longrightarrow> st_min s' = st_min s \<and> st_max s' = st_max s"
  "SetRangeInProcess mi ma s = (ok, s') \<Longrightarrow> st_min s' = st_min s \<and> st_max s' = st_max s"
  by (auto simp: SetMinInProcess_def SetMaxInProcess_def SetRangeInProcess_def Let_def
      split: if_splits)

lemma field_put:
  assumes "field getf putf" and "st_min s = st_min (getf v)" and "st_max s = st_max (getf v)"
  shows "same_bounds v (putf s v) \<and> vd_in_process (putf s v) = vd_in_process v"
  using assms
  by (auto simp: field_def same_bounds_def put_start_def put_duration_def put_end_def)

lemma field_put_same:
  assumes "field getf putf"
  shows "putf (getf v) v = v"
  using assms by (auto simp: field_def put_start_def put_duration_def put_end_def)

lemma vd_setter_inv:
  assumes fld: "field getf putf"
    and outp: "\<And>s st s'. out_proc s = (st, s') \<Longrightarrow> st \<noteq> PUSH \<Longrightarrow> s' = s"
    and inp: "\<And>s ok s'. in_proc s = (ok, s') \<Longrightarrow> st_min s' = st_min s \<and> st_max s' = st_max s"
    and inv: "MayBeTrue (vd_performed v) \<longrightarrow> coherent v"
    and res: "vd_setter getf putf in_proc out_proc v = Inr v'"
  shows "MayBeTrue (vd_performed v') \<longrightarrow> coherent v'"
proof (cases "MayBeTrue (vd_performed v)")
  case False
  then show ?thesis using res inv by (simp add: vd_setter_def)
next
  case may: True
  show ?thesis
  proof (cases "vd_in_process v")
    case True
    obtain ok s where r: "in_proc (getf v) = (ok, s)" by (cases "in_proc (getf v)") auto
    have sb: "same_bounds v (putf s v)" and ip: "vd_in_process (putf s v)"
      using field_put [OF fld, of s v] inp [OF r] True by auto
    have inv1: "MayBeTrue (vd_performed (putf s v)) \<longrightarrow> coherent (putf s v)"
      using same_bounds_coherent [OF sb inv] .
    show ?thesis
    proof (cases ok)
      case True
      then show ?thesis using res may \<open>vd_in_process v\<close> r inv1 by (simp add: vd_setter_def)
    next
      case False
      then have "vd_SetPerformed False (putf s v) = Inr v'"
        using res may \<open>vd_in_process v\<close> r by (simp add: vd_setter_def)
      then show ?thesis using vd_SetPerformed_inv [OF inv1] by blast
    qed
  next
    case False
    obtain st s where r: "out_proc (getf v) = (st, s)" by (cases "out_proc (getf v)") auto
    have pm: "vd_ProcessModification st (putf s v) = Inr v'"
      using res may False r by (simp add: vd_setter_def)
    show ?thesis
    proof (cases st)
      case PUSH
      then have "vd_Push (putf s v) = Inr v'"
        using pm by (simp add: vd_ProcessModification_def)
      then show ?thesis by (rule vd_Push_inv)
    next
      case NO_OP
      then have "s = getf v" using outp [OF r] by simp
      then have "putf s v = v" using field_put_same [OF fld] by simp
      then show ?thesis using pm NO_OP inv by (simp add: vd_ProcessModification_def)
    next
      case INCONSISTENT
      then have "s = getf v" using outp [OF r] by simp
      then have "putf s v = v" using field_put_same [OF fld] by simp
      then have "vd_SetPerformed False v = Inr v'"
        using pm INCONSISTENT by (simp add: vd_ProcessModification_def)
      then show ?thesis using vd_SetPerformed_inv [OF inv] by blast
    qed
  qed
qed

lemma fields: "field vd_start put_start" "field vd_duration put_duration" "field vd_end put_end"
  by (simp_all add: field_def)

lemma vd_call_inv:
  assumes inv: "MayBeTrue (vd_performed v) \<longrightarrow> coherent v"
    and res: "vd_call c v = Inr v'"
  shows "MayBeTrue (vd_performed v') \<longrightarrow> coherent v'"
proof (cases c)
  case (SetStartMin m)
  show ?thesis
    by (rule vd_setter_inv [OF fields(1) _ _ inv res [unfolded SetStartMin vd_call.simps]])
       (erule out_of_process_unchanged in_process_bounds; assumption?)+
next
  case (SetStartMax m)
  show ?thesis
    by (rule vd_setter_inv [OF fields(1) _ _ inv res [unfolded SetStartMax vd_call.simps]])
       (erule out_of_process_unchanged in_process_bounds; assumption?)+
next
  case (SetStartRange mi ma)
  show ?thesis
    by (rule vd_setter_inv [OF fields(1) _ _ inv res [unfolded SetStartRange vd_call.simps]])
       (erule out_of_process_unchanged in_process_bounds; assumption?)+
next
  case (SetDurationMin m)
  show ?thesis
    by (rule vd_setter_inv [OF fields(2) _ _ inv res [unfolded SetDurationMin vd_call.simps]])
       (erule out_of_process_unchanged in_process_bounds; assumption?)+
next
  case (SetDurationMax m)
  show ?thesis
    by (rule vd_setter_inv [OF fields(2) _ _ inv res [unfolded SetDurationMax vd_call.simps]])
       (erule out_of_process_unchanged in_process_bounds; assumption?)+
next
  case (SetDurationRange mi ma)
  show ?thesis
    by (rule vd_setter_inv [OF fields(2) _ _ inv res [unfolded SetDurationRange vd_call.simps]])
       (erule out_of_process_unchanged in_process_bounds; assumption?)+
next
  case (SetEndMin m)
  show ?thesis
    by (rule vd_setter_inv [OF fields(3) _ _ inv res [unfolded SetEndMin vd_call.simps]])
       (erule out_of_process_unchanged in_process_bounds; assumption?)+
next
  case (SetEndMax m)
  show ?thesis
    by (rule vd_setter_inv [OF fields(3) _ _ inv res [unfolded SetEndMax vd_call.simps]])
       (erule out_of_process_unchanged in_process_bounds; assumption?)+
next
  case (SetEndRange mi ma)
  show ?thesis
    by (rule vd_setter_inv [OF fields(3) _ _ inv res [unfolded SetEndRange vd_call.simps]])
       (erule out_of_process_unchanged in_process_bounds; assumption?)+
qed

lemma vd_setter_in_process:
  assumes fld: "field getf putf"
    and inp: "\<And>s ok s'. in_proc s = (ok, s') \<Longrightarrow> st_min s' = st_min s \<and> st_max s' = st_max s"
    and ip: "vd_in_process v"
    and res: "vd_setter getf putf in_proc out_proc v = Inr v'"
  shows "same_bounds v v' \<and> vd_in_process v'"
proof (cases "MayBeTrue (vd_performed v)")
  case False
  then show ?thesis using res ip by (simp add: vd_setter_def same_bounds_refl)
next
  case may: True
  obtain ok s where r: "in_proc (getf v) = (ok, s)" by (cases "in_proc (getf v)") auto
  have sb: "same_bounds v (putf s v)" and ip1: "vd_in_process (putf s v)"
    using field_put [OF fld, of s v] inp [OF r] ip by auto
  show ?thesis
  proof (cases ok)
    case True
    then show ?thesis using res may ip r sb ip1 by (simp add: vd_setter_def)
  next
    case False
    then have "vd_SetPerformed False (putf s v) = Inr v'"
      using res may ip r by (simp add: vd_setter_def)
    then show ?thesis
      using vd_SetPerformed_in_process [OF ip1] sb same_bounds_trans by blast
  qed
qed

lemma vd_call_in_process:
  assumes ip: "vd_in_process v" and res: "vd_call c v = Inr v'"
  shows "same_bounds v v' \<and> vd_in_process v'"
proof (cases c)
  case (SetStartMin m)
  show ?thesis
    by (rule vd_setter_in_process [OF fields(1) _ ip res [unfolded SetStartMin vd_call.simps]])
       (erule in_process_bounds)
next
  case (SetStartMax m)
  show ?thesis
    by (rule vd_setter_in_process [OF fields(1) _ ip res [unfolded SetStartMax vd_call.simps]])
       (erule in_process_bounds)
next
  case (SetStartRange mi ma)
  show ?thesis
    by (rule vd_setter_in_process [OF fields(1) _ ip res [unfolded SetStartRange vd_call.simps]])
       (erule in_process_bounds)
next
  case (SetDurationMin m)
  show ?thesis
    by (rule vd_setter_in_process [OF fields(2) _ ip res [unfolded SetDurationMin vd_call.simps]])
       (erule in_process_bounds)
next
  case (SetDurationMax m)
  show ?thesis
    by (rule vd_setter_in_process [OF fields(2) _ ip res [unfolded SetDurationMax vd_call.simps]])
       (erule in_process_bounds)
next
  case (SetDurationRange mi ma)
  show ?thesis
    by (rule vd_setter_in_process [OF fields(2) _ ip
          res [unfolded SetDurationRange vd_call.simps]])
       (erule in_process_bounds)
next
  case (SetEndMin m)
  show ?thesis
    by (rule vd_setter_in_process [OF fields(3) _ ip res [unfolded SetEndMin vd_call.simps]])
       (erule in_process_bounds)
next
  case (SetEndMax m)
  show ?thesis
    by (rule vd_setter_in_process [OF fields(3) _ ip res [unfolded SetEndMax vd_call.simps]])
       (erule in_process_bounds)
next
  case (SetEndRange mi ma)
  show ?thesis
    by (rule vd_setter_in_process [OF fields(3) _ ip res [unfolded SetEndRange vd_call.simps]])
       (erule in_process_bounds)
qed

lemma vd_run_in_process:
  "vd_in_process v \<Longrightarrow> vd_run as v = Inr v' \<Longrightarrow> same_bounds v v' \<and> vd_in_process v'"
proof (induction as arbitrary: v)
  case Nil
  then show ?case by (simp add: same_bounds_refl)
next
  case (Cons a as)
  obtain v1 where a: "vd_act a v = Inr v1" and r: "vd_run as v1 = Inr v'"
    using Cons.prems(2) by (auto simp: fbind_def split: sum.splits)
  have 1: "same_bounds v v1 \<and> vd_in_process v1"
  proof (cases a)
    case (Call c)
    then have "vd_call c v = Inr v1" using a by simp
    then show ?thesis using vd_call_in_process [OF Cons.prems(1)] by blast
  next
    case (Perform b)
    then have "vd_SetPerformed b v = Inr v1" using a by simp
    then show ?thesis using vd_SetPerformed_in_process [OF Cons.prems(1)] by blast
  qed
  then have "same_bounds v1 v' \<and> vd_in_process v'" using Cons.IH [OF _ r] by blast
  then show ?case using 1 same_bounds_trans by blast
qed

lemma vd_ProcessDemons_in_process:
  assumes "vd_in_process v" and "vd_ProcessDemons getf bd rd v = Inr v'"
  shows "same_bounds v v' \<and> vd_in_process v'"
proof -
  obtain v1 where a: "(if st_min (getf v) = st_max (getf v) then vd_run bd v else Inr v) = Inr v1"
    and b: "(if st_min (getf v1) \<noteq> previous_min (getf v1)
                 \<or> st_max (getf v1) \<noteq> previous_max (getf v1)
              then vd_run rd v1 else Inr v1) = Inr v'"
    using assms(2) by (auto simp: vd_ProcessDemons_def fbind_def split: sum.splits)
  have "vd_run bd v = Inr v1 \<or> v1 = v" using a by (simp split: if_splits)
  then have 1: "same_bounds v v1 \<and> vd_in_process v1"
    using assms(1) vd_run_in_process [of v bd v1] same_bounds_refl by blast
  have "vd_run rd v1 = Inr v' \<or> v' = v1" using b by (simp split: if_splits)
  then have 2: "same_bounds v1 v' \<and> vd_in_process v'"
    using 1 vd_run_in_process [of v1 rd v'] same_bounds_refl by blast
  show ?thesis using 1 2 same_bounds_trans by blast
qed

lemma vd_apply_inv:
  assumes fld: "field getf putf"
    and inv: "MayBeTrue (vd_performed v) \<longrightarrow> coherent v"
    and res: "vd_UpdatePreviousBoundsAndApplyPostponedBounds getf putf call v = Inr v'"
  shows "MayBeTrue (vd_performed v') \<longrightarrow> coherent v'"
proof -
  define s where "s = getf v"
  define v1 where "v1 = putf (s\<lparr>previous_min := st_min s, previous_max := st_max s\<rparr>) v"
  have "same_bounds v v1"
    unfolding v1_def using field_put [OF fld, of _ v] by (simp add: s_def)
  then have inv1: "MayBeTrue (vd_performed v1) \<longrightarrow> coherent v1"
    using same_bounds_coherent inv by blast
  have "v' = v1 \<or> (\<exists>c. vd_call c v1 = Inr v')"
    using res
    by (auto simp: vd_UpdatePreviousBoundsAndApplyPostponedBounds_def Let_def s_def v1_def
        split: if_splits)
  then show ?thesis using inv1 vd_call_inv by blast
qed

lemma vd_performed_apply_inv:
  assumes inv: "MayBeTrue (vd_performed v) \<longrightarrow> coherent v"
    and res: "vd_performed_UpdatePreviousBoundsAndApplyPostponedBounds v = Inr v'"
  shows "MayBeTrue (vd_performed v') \<longrightarrow> coherent v'"
proof -
  define v1 where "v1 = v\<lparr>vd_performed := (vd_performed v)\<lparr>previous_status := status (vd_performed v)\<rparr>\<rparr>"
  have "same_bounds v v1" by (simp add: v1_def same_bounds_def)
  then have inv1: "MayBeTrue (vd_performed v1) \<longrightarrow> coherent v1"
    using same_bounds_coherent inv by blast
  have "v' = v1 \<or> (\<exists>b. vd_SetPerformed b v1 = Inr v')"
    using res
    by (auto simp: vd_performed_UpdatePreviousBoundsAndApplyPostponedBounds_def Let_def v1_def
        split: if_splits)
  then show ?thesis using inv1 vd_SetPerformed_inv by blast
qed

lemma vd_Process_inv:
  assumes inv: "MayBeTrue (vd_performed v) \<longrightarrow> coherent v"
    and res: "vd_Process d v = Inr v'"
  shows "MayBeTrue (vd_performed v') \<longrightarrow> coherent v'"
proof -
  define v1 where "v1 = v\<lparr>vd_in_process := True,
                    vd_start := UpdatePostponedBounds (vd_start v),
                    vd_duration := UpdatePostponedBounds (vd_duration v),
                    vd_end := UpdatePostponedBounds (vd_end v),
                    vd_performed := (vd_performed v)\<lparr>postponed_status := status (vd_performed v)\<rparr>\<rparr>"
  have s1: "same_bounds v v1" and ip1: "vd_in_process v1"
    by (simp_all add: v1_def same_bounds_def UpdatePostponedBounds_def)
  obtain v3 v4 v5 v6 v7 where
    a: "(if MayBeTrue (vd_performed v1)
                   then fbind (vd_ProcessDemons vd_start (vd_start_bound d)
                                 (vd_start_range d) v1)
                          (\<lambda>v2. fbind (vd_ProcessDemons vd_duration (vd_duration_bound d)
                                         (vd_duration_range d) v2)
                                   (vd_ProcessDemons vd_end (vd_end_bound d) (vd_end_range d)))
                   else Inr v1) = Inr v3"
    and b: "(if previous_status (vd_performed v3) \<noteq> status (vd_performed v3)
                            then vd_run (vd_performed_bound d) v3 else Inr v3) = Inr v4"
    and c: "vd_UpdatePreviousBoundsAndApplyPostponedBounds vd_start put_start
                                 SetStartRange (v4\<lparr>vd_in_process := False\<rparr>) = Inr v5"
    and e: "vd_UpdatePreviousBoundsAndApplyPostponedBounds vd_duration
                                    put_duration SetDurationRange v5 = Inr v6"
    and f: "vd_UpdatePreviousBoundsAndApplyPostponedBounds vd_end
                                       put_end SetEndRange v6 = Inr v7"
    and g: "vd_performed_UpdatePreviousBoundsAndApplyPostponedBounds v7 = Inr v'"
    using res unfolding vd_Process_def Let_def v1_def [symmetric]
    by (auto simp: fbind_def split: if_splits sum.splits)
  have s3: "same_bounds v1 v3 \<and> vd_in_process v3"
  proof (cases "MayBeTrue (vd_performed v1)")
    case False
    then show ?thesis using a ip1 by (simp add: same_bounds_refl)
  next
    case True
    then obtain u1 u2 where
      "vd_ProcessDemons vd_start (vd_start_bound d) (vd_start_range d) v1 = Inr u1"
      "vd_ProcessDemons vd_duration (vd_duration_bound d) (vd_duration_range d) u1 = Inr u2"
      "vd_ProcessDemons vd_end (vd_end_bound d) (vd_end_range d) u2 = Inr v3"
      using a by (auto simp: fbind_def split: sum.splits)
    then show ?thesis
      using vd_ProcessDemons_in_process ip1 same_bounds_trans by metis
  qed
  have "vd_run (vd_performed_bound d) v3 = Inr v4 \<or> v4 = v3"
    using b by (simp split: if_splits)
  then have s4: "same_bounds v3 v4"
    using s3 vd_run_in_process [of v3 _ v4] same_bounds_refl by blast
  have "same_bounds v4 (v4\<lparr>vd_in_process := False\<rparr>)" by (simp add: same_bounds_def)
  then have "same_bounds v (v4\<lparr>vd_in_process := False\<rparr>)"
    using s1 s3 s4 same_bounds_trans by blast
  then have "MayBeTrue (vd_performed (v4\<lparr>vd_in_process := False\<rparr>))
               \<longrightarrow> coherent (v4\<lparr>vd_in_process := False\<rparr>)"
    using same_bounds_coherent inv by blast
  then have "MayBeTrue (vd_performed v5) \<longrightarrow> coherent v5"
    using vd_apply_inv [OF fields(1) _ c] by blast
  then have "MayBeTrue (vd_performed v6) \<longrightarrow> coherent v6"
    using vd_apply_inv [OF fields(2) _ e] by blast
  then have "MayBeTrue (vd_performed v7) \<longrightarrow> coherent v7"
    using vd_apply_inv [OF fields(3) _ f] by blast
  then show ?thesis using vd_performed_apply_inv [OF _ g] by blast
qed

lemma vd_reachable_coherent:
  "vd_reachable v \<Longrightarrow> MayBeTrue (vd_performed v) \<longrightarrow> coherent v"
proof (induction rule: vd_reachable.induct)
  case (created start_min start_max duration_min duration_max end_min end_max optional)
  then show ?case using make_coherent by blast
next
  case (called v c v')
  then show ?case using vd_call_inv by blast
next
  case (performed v b v')
  then show ?case using vd_SetPerformed_inv by blast
next
  case (processed v d v')
  then show ?case using vd_Process_inv by blast
qed


lemmas vd_Process_defs = vd_Process_def vd_ProcessDemons_def
  vd_UpdatePreviousBoundsAndApplyPostponedBounds_def
  vd_performed_UpdatePreviousBoundsAndApplyPostponedBounds_def UpdatePostponedBounds_def
  no_demons_def fbind_def Let_def put_start_def put_duration_def put_end_def

text \<open>
  Claim C8, as stated, fails: the inequalities need not hold of the interval the
  constructor returns. For start in \<open>[0, 10]\<close>, duration in \<open>[3, 5]\<close> and end in
  \<open>[50, 60]\<close> the constructor intersects each range once and tests nothing: it returns
  start \<open>[45, 10]\<close>, duration \<open>[40, 5]\<close> and end \<open>[50, 15]\<close> on an interval that must be
  performed, with \<open>45 + 40 > 50\<close>. No \<open>Push\<close> has run by then, a setter that changes no
  bound runs none, and \<open>Process\<close> returns the interval as it is.
\<close>

theorem vd_constructor_incoherent:
  "VariableDurationIntervalVar_make 0 10 3 5 50 60 False = c8_late \<and>
   MayBeTrue (vd_performed c8_late) \<and>
   (st_min (vd_start c8_late), st_max (vd_start c8_late)) = (45, 10) \<and>
   (st_min (vd_duration c8_late), st_max (vd_duration c8_late)) = (40, 5) \<and>
   (st_min (vd_end c8_late), st_max (vd_end c8_late)) = (50, 15) \<and>
   st_min (vd_start c8_late) + st_min (vd_duration c8_late) > st_min (vd_end c8_late) \<and>
   \<not> coherent c8_late \<and>
   vd_call (SetStartMin 0) c8_late = Inr c8_late \<and>
   vd_Process no_demons c8_late = Inr c8_late"
  by (simp add: VariableDurationIntervalVar_make_def c8_late_def wrap64_def coherent_def
      CapAdd_def kint64min_def kint64max_def IntervalStorage_make_def BooleanStorage_make_def
      vd_defs bool_consts MayBeTrue_def IntervalStorage_SetMin_def vd_Process_defs)

text \<open>
  Claim C8, amended. Take a VariableDuration interval created with feasible bounds, after
  any sequence of bound setters, of \<open>SetPerformed\<close> and of \<open>Process\<close> that return. If it
  may still be performed, then \<open>start.min + duration.min \<le> end.min\<close> and
  \<open>start.max + duration.max \<ge> end.max\<close>, the sums being the saturating ones of \<open>Push\<close> and
  hence the exact ones whenever no sentinel is involved. If performed is false, every
  bound setter returns without a failure (and without an effect). The interval with
  start in \<open>[0, 10]\<close>, duration in \<open>[3, 5]\<close> and end in \<open>[0, 12]\<close>, feasible bounds, is
  created with start in \<open>[0, 9]\<close>, duration in \<open>[3, 5]\<close> and end in \<open>[3, 12]\<close>, which
  \<open>Push\<close> and \<open>Process\<close> leave as they are.
\<close>

theorem vd_interval_coherence:
  "(vd_reachable v \<and> MayBeTrue (vd_performed v) \<longrightarrow>
      CapAdd (st_min (vd_start v)) (st_min (vd_duration v)) \<le> st_min (vd_end v) \<and>
      st_max (vd_end v) \<le> CapAdd (st_max (vd_start v)) (st_max (vd_duration v)) \<and>
      (unsaturated (st_min (vd_start v)) (st_min (vd_duration v)) \<longrightarrow>
         st_min (vd_start v) + st_min (vd_duration v) \<le> st_min (vd_end v)) \<and>
      (unsaturated (st_max (vd_start v)) (st_max (vd_duration v)) \<longrightarrow>
         st_max (vd_end v) \<le> st_max (vd_start v) + st_max (vd_duration v))) \<and>
   (status (vd_performed u) = kFalse \<longrightarrow> vd_call c u = Inr u) \<and>
   feasible 0 10 3 5 0 12 \<and>
   VariableDurationIntervalVar_make 0 10 3 5 0 12 False = c8_interval \<and>
   (st_min (vd_start c8_interval), st_max (vd_start c8_interval)) = (0, 9) \<and>
   (st_min (vd_duration c8_interval), st_max (vd_duration c8_interval)) = (3, 5) \<and>
   (st_min (vd_end c8_interval), st_max (vd_end c8_interval)) = (3, 12) \<and>
   vd_Push c8_interval = Inr (c8_interval\<lparr>vd_enqueued := 1\<rparr>) \<and>
   vd_Process no_demons c8_interval = Inr c8_interval"
proof -
  have a: "vd_reachable v \<and> MayBeTrue (vd_performed v) \<longrightarrow>
      CapAdd (st_min (vd_start v)) (st_min (vd_duration v)) \<le> st_min (vd_end v) \<and>
      st_max (vd_end v) \<le> CapAdd (st_max (vd_start v)) (st_max (vd_duration v))"
    using vd_reachable_coherent [of v] by (simp add: coherent_def)
  have b: "vd_reachable v \<and> MayBeTrue (vd_performed v) \<longrightarrow>
      (unsaturated (st_min (vd_start v)) (st_min (vd_duration v)) \<longrightarrow>
         st_min (vd_start v) + st_min (vd_duration v) \<le> st_min (vd_end v)) \<and>
      (unsaturated (st_max (vd_start v)) (st_max (vd_duration v)) \<longrightarrow>
         st_max (vd_end v) \<le> st_max (vd_start v) + st_max (vd_duration v))"
    using a CapAdd_unsaturated by auto
  have d: "status (vd_performed u) = kFalse \<longrightarrow> vd_call c u = Inr u"
    using vd_call_unperformed by blast
  have e: "feasible 0 10 3 5 0 12 \<and>
      VariableDurationIntervalVar_make 0 10 3 5 0 12 False = c8_interval"
    by (simp add: VariableDurationIntervalVar_make_def c8_interval_def wrap64_def feasible_def
        in_int64_def kint64min_def kint64max_def)
  have f: "(st_min (vd_start c8_interval), st_max (vd_start c8_interval)) = (0, 9) \<and>
   (st_min (vd_duration c8_interval), st_max (vd_duration c8_interval)) = (3, 5) \<and>
   (st_min (vd_end c8_interval), st_max (vd_end c8_interval)) = (3, 12)"
    by (simp add: c8_interval_def IntervalStorage_make_def)
  have g: "vd_Push c8_interval = Inr (c8_interval\<lparr>vd_enqueued := 1\<rparr>)"
    by (simp add: c8_interval_def vd_defs bool_consts)
  have h: "vd_Process no_demons c8_interval = Inr c8_interval"
    by (simp add: c8_interval_def vd_defs bool_consts vd_Process_defs IntervalStorage_make_def
        BooleanStorage_make_def MayBeTrue_def)
  show ?thesis using a b d e f g h by blast
qed

theorem vd_interval_coherence_witness:
  "vd_reachable c8_pushed \<and> MayBeTrue (vd_performed c8_pushed) \<and>
   vd_call (SetEndMax 10) (VariableDurationIntervalVar_make 0 10 3 5 0 12 False) = Inr c8_pushed \<and>
   unsaturated (st_min (vd_start c8_pushed)) (st_min (vd_duration c8_pushed)) \<and>
   unsaturated (st_max (vd_start c8_pushed)) (st_max (vd_duration c8_pushed)) \<and>
   st_min (vd_start c8_pushed) + st_min (vd_duration c8_pushed) \<le> st_min (vd_end c8_pushed) \<and>
   st_max (vd_end c8_pushed) \<le> st_max (vd_start c8_pushed) + st_max (vd_duration c8_pushed) \<and>
   (st_max (vd_start c8_pushed), st_max (vd_end c8_pushed)) = (7, 10) \<and>
   status (vd_performed c8_unperformed) = kFalse \<and>
   vd_call (SetEndMin 100) c8_unperformed = Inr c8_unperformed"
proof -
  have f: "feasible 0 10 3 5 0 12"
    by (simp add: feasible_def in_int64_def kint64min_def kint64max_def)
  have c: "vd_call (SetEndMax 10) (VariableDurationIntervalVar_make 0 10 3 5 0 12 False)
             = Inr c8_pushed"
    by (simp add: VariableDurationIntervalVar_make_def wrap64_def c8_pushed_def
        c8_tightened_def c8_interval_def vd_defs bool_consts)
  have r: "vd_reachable c8_pushed"
    using called [OF created [OF f] c] .
  show ?thesis
    using vd_interval_coherence [of c8_pushed c8_unperformed "SetEndMin 100"] r c
    by (simp add: c8_tightened_def c8_pushed_def c8_unperformed_def c8_interval_def
        unsaturated_def in_int64_def vd_defs bool_consts)
qed

section \<open>The model cache and the array factories\<close>

lemma AreAllBooleans_iff:
  "AreAllBooleans s vs = (\<forall>v\<in>set vs. 0 \<le> var_Min s v \<and> var_Max s v \<le> 1)"
  by (induction vs) auto

lemma MakeMax_booleans_fresh:
  assumes "2 < length vs" and "AreAllBooleans s vs"
    and "FindVarArrayExpression h (model_cache s) vs VAR_ARRAY_MAX = None"
  shows "\<exists>s1. MakeMax h vs s = (Var (length (int_vars s)), s1) \<and>
           length (int_vars s1) = Suc (length (int_vars s)) \<and>
           (\<forall>v < length (int_vars s). int_vars s1 ! v = int_vars s ! v) \<and>
           model_cache s1 VAR_ARRAY_MAX = model_cache s VAR_ARRAY_MAX"
  using assms
  by (auto simp: MakeMax_def Let_def MakeBoolVar_def MakeIntVar_def AddConstraint_def
      InsertVarArrayExpression_def nth_append)

text \<open>
  Claim C5 is not met by the code: \<open>MakeMax\<close> looks an array of more than two variables
  up under \<open>VAR_ARRAY_MAX\<close>, but for an array of booleans it stores the variable it
  built under \<open>VAR_ARRAY_MIN\<close> (the non-boolean branch, and \<open>MakeMin\<close>, use the type they
  looked up). A second call of \<open>MakeMax\<close> on the same booleans, before search and with
  whatever hash function and table size, misses the cache again and returns a second
  variable; the witness also shows \<open>MakeMin\<close> returning the variable of the maximum.
\<close>

theorem MakeMax_booleans_twice_differ:
  assumes "2 < length vs" and "AreAllBooleans s vs" and "\<forall>v\<in>set vs. v < length (int_vars s)"
    and "FindVarArrayExpression h (model_cache s) vs VAR_ARRAY_MAX = None"
  shows "fst (MakeMax h vs (snd (MakeMax h vs s))) \<noteq> fst (MakeMax h vs s)"
proof -
  obtain s1 where 1: "MakeMax h vs s = (Var (length (int_vars s)), s1)"
    and len: "length (int_vars s1) = Suc (length (int_vars s))"
    and same: "\<forall>v < length (int_vars s). int_vars s1 ! v = int_vars s ! v"
    and mc: "model_cache s1 VAR_ARRAY_MAX = model_cache s VAR_ARRAY_MAX"
    using MakeMax_booleans_fresh [OF assms(1,2,4)] by blast
  have b1: "AreAllBooleans s1 vs"
    using assms(2,3) same by (simp add: AreAllBooleans_iff var_Min_def var_Max_def)
  have f1: "FindVarArrayExpression h (model_cache s1) vs VAR_ARRAY_MAX = None"
    using assms(4) mc by (simp add: FindVarArrayExpression_def)
  obtain s2 where 2: "MakeMax h vs s1 = (Var (length (int_vars s1)), s2)"
    using MakeMax_booleans_fresh [OF assms(1) b1 f1] by blast
  show ?thesis using 1 2 len by simp
qed

theorem MakeMax_booleans_twice_differ_witness:
  "2 < length [0, 1, 2 :: nat] \<and> AreAllBooleans c5_solver [0, 1, 2] \<and>
   FindVarArrayExpression c5_hash (model_cache c5_solver) [0, 1, 2] VAR_ARRAY_MAX = None \<and>
   fst (MakeMax c5_hash [0, 1, 2] c5_solver) = Var 3 \<and>
   fst (MakeMax c5_hash [0, 1, 2] (snd (MakeMax c5_hash [0, 1, 2] c5_solver))) = Var 4 \<and>
   fst (MakeMin c5_hash [0, 1, 2] (snd (MakeMax c5_hash [0, 1, 2] c5_solver))) = Var 3"
  using MakeMax_booleans_twice_differ [of "[0, 1, 2]" c5_solver c5_hash]
  by (simp add: c5_solver_def c5_hash_def MakeMax_def MakeMin_def Let_def MakeBoolVar_def
      MakeIntVar_def AddConstraint_def InsertVarArrayExpression_def FindVarArrayExpression_def
      Cache1_Find_def Cache1_UnsafeInsert_def Cache1_make_def var_Min_def var_Max_def)

section \<open>Assignments\<close>

lemma IsEqual_iff: "IsEqual xs ys = (xs = ys)"
  by (induction xs ys rule: IsEqual.induct) auto

lemma fold_Container_Add:
  assumes "distinct vs" and "set vs \<inter> var_of ` set c = {}" and "\<And>v. var_of (reset v) = v"
  shows "fold (Container_Add var_of reset) vs c = c @ map reset vs"
  using assms(1,2)
proof (induction vs arbitrary: c)
  case Nil
  then show ?case by simp
next
  case (Cons v vs)
  have "set vs \<inter> var_of ` set (c @ [reset v]) = {}"
    using Cons.prems assms(3) by auto
  then have "fold (Container_Add var_of reset) vs (c @ [reset v]) = (c @ [reset v]) @ map reset vs"
    using Cons.IH Cons.prems by simp
  moreover have "Container_Add var_of reset v c = c @ [reset v]"
    using Cons.prems by (auto simp: Container_Add_def)
  ultimately show ?case by simp
qed

lemma RealSave_named:
  "\<forall>e\<in>set c. name_of e \<noteq> [] \<Longrightarrow> RealSave name_of to_proto c = map to_proto c"
  by (induction c) auto

lemma fast_load_loop_matching:
  assumes "length container = length protos" and "i \<le> length protos"
    and "\<forall>k<length protos. i \<le> k \<longrightarrow> name_of (container ! k) = id_of (protos ! k)"
  shows "fast_load_loop name_of id_of store protos i container =
           (True, take i container @ map2 store (drop i protos) (drop i container))"
  using assms
proof (induction "length protos - i" arbitrary: i container)
  case 0
  then show ?case by simp
next
  case (Suc n)
  then have lt: "i < length protos" by simp
  let ?c = "container[i := store (protos ! i) (container ! i)]"
  have "fast_load_loop name_of id_of store protos (Suc i) ?c =
          (True, take (Suc i) ?c @ map2 store (drop (Suc i) protos) (drop (Suc i) ?c))"
  proof (rule Suc.hyps(1))
    show "n = length protos - Suc i" using Suc.hyps(2) by simp
    show "length ?c = length protos" using Suc.prems(1) by simp
    show "Suc i \<le> length protos" using lt by simp
    show "\<forall>k<length protos. Suc i \<le> k \<longrightarrow> name_of (?c ! k) = id_of (protos ! k)"
      using Suc.prems(3) by simp
  qed
  moreover have "take (Suc i) ?c = take i container @ [store (protos ! i) (container ! i)]"
    using lt Suc.prems(1) by (simp add: take_Suc_conv_app_nth)
  moreover have "drop (Suc i) ?c = drop (Suc i) container" by simp
  moreover have "drop i protos = protos ! i # drop (Suc i) protos"
    using lt by (simp add: Cons_nth_drop_Suc)
  moreover have "drop i container = container ! i # drop (Suc i) container"
    using lt Suc.prems(1) by (simp add: Cons_nth_drop_Suc)
  moreover have "name_of (container ! i) = id_of (protos ! i)"
    using Suc.prems(3) lt by simp
  ultimately show ?case using lt by (simp del: fast_load_loop.simps add: fast_load_loop.simps [of _ _ _ protos i container])
qed

lemma RealLoad_fresh:
  assumes named: "\<forall>e\<in>set ca. name_of e \<noteq> []"
    and ids: "\<And>e. id_of (to_proto e) = name_of e"
    and fresh: "\<And>e. name_of (reset (var_of e)) = name_of e"
  shows "RealLoad name_of id_of store (RealSave name_of to_proto ca) (map (\<lambda>e. reset (var_of e)) ca)
           = Inr (map (\<lambda>e. store (to_proto e) (reset (var_of e))) ca)"
proof -
  have sv: "RealSave name_of to_proto ca = map to_proto ca"
    using named by (rule RealSave_named)
  have "fast_load_loop name_of id_of store (map to_proto ca) 0 (map (\<lambda>e. reset (var_of e)) ca) =
          (True, take 0 (map (\<lambda>e. reset (var_of e)) ca) @
                 map2 store (drop 0 (map to_proto ca)) (drop 0 (map (\<lambda>e. reset (var_of e)) ca)))"
    by (rule fast_load_loop_matching) (simp_all add: ids fresh)
  moreover have "map2 store (map to_proto ca) (map (\<lambda>e. reset (var_of e)) ca) =
                 map (\<lambda>e. store (to_proto e) (reset (var_of e))) ca"
    by (induction ca) auto
  ultimately show ?thesis
    by (simp add: RealLoad_def sv)
qed

lemma fold_Add_IntVar:
  "fold Add_IntVar vs x =
     x\<lparr>int_var_container := fold (Container_Add iv_var IntVarElement_Reset) vs (int_var_container x)\<rparr>"
  by (induction vs arbitrary: x) (simp_all add: Add_IntVar_def)

lemma fold_Add_IntervalVar:
  "fold Add_IntervalVar vs x =
     x\<lparr>interval_var_container :=
         fold (Container_Add it_var IntervalVarElement_Reset) vs (interval_var_container x)\<rparr>"
  by (induction vs arbitrary: x) (simp_all add: Add_IntervalVar_def)

lemma fold_Add_SequenceVar:
  "fold Add_SequenceVar vs x =
     x\<lparr>sequence_var_container :=
         fold (Container_Add sq_var SequenceVarElement_Reset) vs (sequence_var_container x)\<rparr>"
  by (induction vs arbitrary: x) (simp_all add: Add_SequenceVar_def)

lemma distinct_names_vars:
  "distinct (map (\<lambda>e. f (g e)) xs) \<Longrightarrow> distinct (map g xs)"
  by (induction xs) auto

lemma readd_container:
  assumes "distinct_nonempty (map (\<lambda>e. var_name (var_of e)) ca)"
    and "\<And>v. var_of (reset v) = v"
  shows "fold (Container_Add var_of reset) (map var_of ca) [] = map (\<lambda>e. reset (var_of e)) ca"
proof -
  have "distinct (map var_of ca)"
    using assms(1) distinct_names_vars [of var_name var_of ca] by (simp add: distinct_nonempty_def)
  then have "fold (Container_Add var_of reset) (map var_of ca) [] = [] @ map reset (map var_of ca)"
    using assms(2) by (intro fold_Container_Add) auto
  then show ?thesis by (simp add: comp_def)
qed

lemma nonempty_names:
  "distinct_nonempty (map f xs) \<Longrightarrow> \<forall>e\<in>set xs. f e \<noteq> []"
  by (force simp: distinct_nonempty_def)

lemma IntVarElement_roundtrip:
  "IntVarElement_eq
     (IntVarElement_StoreFromProto (IntVarElement_RestoreToProto e) (IntVarElement_Reset (iv_var e))) e"
  by (simp add: IntVarElement_eq_def IntVarElement_StoreFromProto_def
      IntVarElement_RestoreToProto_def IntVarElement_Reset_def)

lemma IntervalVarElement_roundtrip:
  "IntervalVarElement_eq
     (IntervalVarElement_StoreFromProto (IntervalVarElement_RestoreToProto e)
        (IntervalVarElement_Reset (it_var e))) e"
  by (simp add: IntervalVarElement_eq_def IntervalVarElement_StoreFromProto_def
      IntervalVarElement_RestoreToProto_def IntervalVarElement_Reset_def)

lemma SequenceVarElement_roundtrip:
  "SequenceVarElement_eq
     (SequenceVarElement_StoreFromProto (SequenceVarElement_RestoreToProto e)
        (SequenceVarElement_Reset (sq_var e))) e"
  by (simp add: SequenceVarElement_eq_def SequenceVarElement_StoreFromProto_def
      SequenceVarElement_RestoreToProto_def SequenceVarElement_Reset_def IsEqual_iff)

lemma list_all2_roundtrip:
  "(\<And>e. eq (f e) e) \<Longrightarrow> list_all2 eq (map f xs) xs"
  by (induction xs) auto

text \<open>
  Claim C4, as stated, fails: \<open>Clear\<close> drops the elements, and \<open>Load\<close> only fills elements
  that the assignment holds (a record whose variable is not in the assignment is
  skipped), so after \<open>Save\<close>, \<open>Clear\<close> and \<open>Load\<close> the assignment is empty.
\<close>

theorem Save_Clear_Load_is_empty:
  "well_named c4_small \<and>
   Assignment_Load (Assignment_Save c4_small) (Assignment_Clear c4_small) =
     Inr (Assignment_Clear c4_small) \<and>
   int_var_container (Assignment_Clear c4_small) = [] \<and>
   \<not> elements_equal (Assignment_Clear c4_small) c4_small"
  by (simp add: c4_small_def Assignment_Load_def Assignment_Save_def Assignment_Clear_def
      RealLoad_def fbind_def elements_equal_def well_named_def distinct_nonempty_def
      IntVarElement_RestoreToProto_def)

text \<open>
  Claim C4, amended. For every assignment whose variables all have distinct non-empty
  names, \<open>Save\<close> into a record, then \<open>Clear\<close> and \<open>Add\<close> of the same variables again (in
  the same order, the objective included), then \<open>Load\<close> of the record restores the
  assignment: every element compares equal to its state before the \<open>Save\<close>.
\<close>

theorem Save_Clear_Add_Load_restores:
  assumes "well_named a"
  shows "\<exists>b c. Add_variables_of a (Assignment_Clear a) = Inr b \<and>
               Assignment_Load (Assignment_Save a) b = Inr c \<and> elements_equal c a"
proof -
  let ?ci = "map (\<lambda>e. IntVarElement_Reset (iv_var e)) (int_var_container a)"
  let ?ct = "map (\<lambda>e. IntervalVarElement_Reset (it_var e)) (interval_var_container a)"
  let ?cs = "map (\<lambda>e. SequenceVarElement_Reset (sq_var e)) (sequence_var_container a)"
  let ?ob = "map_option (\<lambda>e. IntVarElement_Reset (iv_var e)) (objective_element a)"
  let ?b = "a\<lparr>int_var_container := ?ci, interval_var_container := ?ct,
               sequence_var_container := ?cs, objective_element := ?ob\<rparr>"
  have ni: "distinct_nonempty (map (\<lambda>e. var_name (iv_var e)) (int_var_container a))"
    and nt: "distinct_nonempty (map (\<lambda>e. var_name (it_var e)) (interval_var_container a))"
    and ns: "distinct_nonempty (map (\<lambda>e. var_name (sq_var e)) (sequence_var_container a))"
    using assms by (simp_all add: well_named_def)
  have no: "\<And>e. objective_element a = Some e \<Longrightarrow> var_name (iv_var e) \<noteq> []"
    using assms by (auto simp: well_named_def distinct_nonempty_def)
  have ai: "fold (Container_Add iv_var IntVarElement_Reset) (map iv_var (int_var_container a)) [] = ?ci"
    by (rule readd_container [OF ni]) (simp add: IntVarElement_Reset_def)
  have at: "fold (Container_Add it_var IntervalVarElement_Reset)
              (map it_var (interval_var_container a)) [] = ?ct"
    by (rule readd_container [OF nt]) (simp add: IntervalVarElement_Reset_def)
  have as: "fold (Container_Add sq_var SequenceVarElement_Reset)
              (map sq_var (sequence_var_container a)) [] = ?cs"
    by (rule readd_container [OF ns]) (simp add: SequenceVarElement_Reset_def)
  have add: "Add_variables_of a (Assignment_Clear a) = Inr ?b"
    by (cases "objective_element a")
       (simp_all add: Add_variables_of_def Assignment_Clear_def fold_Add_IntVar
          fold_Add_IntervalVar fold_Add_SequenceVar ai at as AddObjective_def Let_def)
  let ?fi = "\<lambda>e. IntVarElement_StoreFromProto (IntVarElement_RestoreToProto e)
                   (IntVarElement_Reset (iv_var e))"
  let ?ft = "\<lambda>e. IntervalVarElement_StoreFromProto (IntervalVarElement_RestoreToProto e)
                   (IntervalVarElement_Reset (it_var e))"
  let ?fs = "\<lambda>e. SequenceVarElement_StoreFromProto (SequenceVarElement_RestoreToProto e)
                   (SequenceVarElement_Reset (sq_var e))"
  have li: "RealLoad (\<lambda>e. var_name (iv_var e)) ip_var_id IntVarElement_StoreFromProto
              (RealSave (\<lambda>e. var_name (iv_var e)) IntVarElement_RestoreToProto (int_var_container a))
              ?ci = Inr (map ?fi (int_var_container a))"
    using nonempty_names [OF ni]
    by (intro RealLoad_fresh)
       (simp_all add: IntVarElement_RestoreToProto_def IntVarElement_Reset_def)
  have lt: "RealLoad (\<lambda>e. var_name (it_var e)) tp_var_id IntervalVarElement_StoreFromProto
              (RealSave (\<lambda>e. var_name (it_var e)) IntervalVarElement_RestoreToProto
                 (interval_var_container a))
              ?ct = Inr (map ?ft (interval_var_container a))"
    using nonempty_names [OF nt]
    by (intro RealLoad_fresh)
       (simp_all add: IntervalVarElement_RestoreToProto_def IntervalVarElement_Reset_def)
  have ls: "RealLoad (\<lambda>e. var_name (sq_var e)) sp_var_id SequenceVarElement_StoreFromProto
              (RealSave (\<lambda>e. var_name (sq_var e)) SequenceVarElement_RestoreToProto
                 (sequence_var_container a))
              ?cs = Inr (map ?fs (sequence_var_container a))"
    using nonempty_names [OF ns]
    by (intro RealLoad_fresh)
       (simp_all add: SequenceVarElement_RestoreToProto_def SequenceVarElement_Reset_def)
  let ?oc = "map_option (\<lambda>e. (IntVarElement_Reset (iv_var e))
                \<lparr>iv_min := iv_min e, iv_max := iv_max e, iv_activated := iv_activated e\<rparr>)
              (objective_element a)"
  let ?c = "a\<lparr>int_var_container := map ?fi (int_var_container a),
               interval_var_container := map ?ft (interval_var_container a),
               sequence_var_container := map ?fs (sequence_var_container a),
               objective_element := ?oc\<rparr>"
  have load: "Assignment_Load (Assignment_Save a) ?b = Inr ?c"
  proof (cases "objective_element a")
    case None
    then show ?thesis
      using li lt ls by (simp add: Assignment_Load_def Assignment_Save_def fbind_def)
  next
    case (Some e)
    then show ?thesis
      using li lt ls no [OF Some]
      by (simp add: Assignment_Load_def Assignment_Save_def fbind_def IntVarElement_Reset_def)
  qed
  have eq: "elements_equal ?c a"
  proof -
    have "list_all2 IntVarElement_eq (map ?fi (int_var_container a)) (int_var_container a)"
      by (rule list_all2_roundtrip) (rule IntVarElement_roundtrip)
    moreover have "list_all2 IntervalVarElement_eq (map ?ft (interval_var_container a))
                     (interval_var_container a)"
      by (rule list_all2_roundtrip) (rule IntervalVarElement_roundtrip)
    moreover have "list_all2 SequenceVarElement_eq (map ?fs (sequence_var_container a))
                     (sequence_var_container a)"
      by (rule list_all2_roundtrip) (rule SequenceVarElement_roundtrip)
    moreover have "objective_equal ?oc (objective_element a)"
      by (cases "objective_element a")
         (simp_all add: objective_equal_def IntVarElement_eq_def IntVarElement_Reset_def)
    ultimately show ?thesis by (simp add: elements_equal_def)
  qed
  show ?thesis using add load eq by blast
qed

theorem Save_Clear_Add_Load_restores_witness:
  "well_named c4_assignment \<and>
   Add_variables_of c4_assignment (Assignment_Clear c4_assignment) = Inr c4_readded \<and>
   Assignment_Load (Assignment_Save c4_assignment) c4_readded =
     Inr (c4_assignment\<lparr>int_var_container :=
            [\<lparr>iv_var = \<lparr>var_id = 0, var_name = ''a''\<rparr>, iv_min = 0, iv_max = 5,
              iv_activated = True\<rparr>,
             \<lparr>iv_var = \<lparr>var_id = 1, var_name = ''b''\<rparr>, iv_min = 2, iv_max = 3,
              iv_activated = False\<rparr>]\<rparr>) \<and>
   elements_equal c4_assignment c4_assignment"
  using Save_Clear_Add_Load_restores [of c4_assignment]
  by (simp add: c4_assignment_def c4_readded_def well_named_def distinct_nonempty_def
      Add_variables_of_def Assignment_Clear_def Add_IntVar_def Add_IntervalVar_def
      Add_SequenceVar_def Container_Add_def AddObjective_def Assignment_Load_def
      Assignment_Save_def RealLoad_def fbind_def elements_equal_def objective_equal_def
      IntVarElement_eq_def IntervalVarElement_eq_def SequenceVarElement_eq_def
      IntVarElement_Reset_def IntervalVarElement_Reset_def SequenceVarElement_Reset_def
      IntVarElement_StoreFromProto_def IntVarElement_RestoreToProto_def
      IntervalVarElement_StoreFromProto_def IntervalVarElement_RestoreToProto_def
      SequenceVarElement_StoreFromProto_def SequenceVarElement_RestoreToProto_def
      Let_def)

section \<open>The positive boolean scalar product\<close>

lemma IntVar_SetValue_forced:
  "IntVar_SetValue x v = Inr v' \<Longrightarrow> forced_to x v'"
  by (auto simp: IntVar_SetValue_def IntVar_SetRange_def forced_to_def split: if_splits)

lemma forced_to_Bound: "forced_to x v \<Longrightarrow> Bound v"
  by (simp add: forced_to_def Bound_def)

lemma ps_walk_walked:
  assumes "ps_walk su sd coefs lu vars mc = Inr (k, vars', mc')" and "lu < int (length vars)"
  shows "walked su sd coefs lu vars mc k vars' mc'"
  using assms
proof (induction su sd coefs lu vars mc arbitrary: k vars' mc' rule: ps_walk.induct)
  case (1 su sd coefs lu vars mc)
  note eq = "1.prems"(1) [unfolded ps_walk.simps [of su sd coefs lu vars mc]]
    and lt = "1.prems"(2)
  show ?case
  proof (cases "lu \<ge> 0")
    case False
    then show ?thesis using eq by (auto simp: walked_def)
  next
    case nonneg: True
    then have ix: "nat lu < length vars" using lt by simp
    show ?thesis
    proof (cases "Bound (vars ! nat lu)")
      case True
      then have r: "ps_walk su sd coefs (lu - 1) vars mc = Inr (k, vars', mc')"
        using eq nonneg by simp
      have w: "walked su sd coefs (lu - 1) vars mc k vars' mc'"
        using "1.IH"(3) [OF nonneg _ r] True lt by simp
      show ?thesis
        unfolding walked_def
      proof (intro conjI allI impI)
        show "k \<le> lu" using w by (simp add: walked_def)
        show "- 1 \<le> k" using w nonneg by (simp add: walked_def)
        show "length vars' = length vars" using w by (simp add: walked_def)
        show "if 0 \<le> k
              then \<not> Bound (vars ! nat k) \<and> coefs ! nat k \<le> su \<and> coefs ! nat k \<le> sd
                   \<and> mc' = coefs ! nat k
              else mc' = mc" using w by (simp add: walked_def)
        fix i assume i: "i < length vars"
        have "int i = lu \<Longrightarrow> i = nat lu" by simp
        then show "if k < int i \<and> int i \<le> lu \<and> \<not> Bound (vars ! i)
              then (if coefs ! i > su then forced_to 0 (vars' ! i)
                    else coefs ! i > sd \<and> forced_to 1 (vars' ! i))
              else vars' ! i = vars ! i"
          using w i True
          by (cases "int i = lu") (auto simp: walked_def split: if_splits)
      qed
    next
      case unbound: False
      show ?thesis
      proof (cases "coefs ! nat lu > su")
        case up: True
        then obtain v where sv: "IntVar_SetValue 0 (vars ! nat lu) = Inr v"
          and r: "ps_walk su sd coefs (lu - 1) (vars[nat lu := v]) mc = Inr (k, vars', mc')"
          using eq nonneg unbound by (auto split: sum.splits)
        have w: "walked su sd coefs (lu - 1) (vars[nat lu := v]) mc k vars' mc'"
          using "1.IH"(1) [OF nonneg unbound up sv r] lt by simp
        have fv: "forced_to 0 v" using sv by (rule IntVar_SetValue_forced)
        have klt: "k \<le> lu - 1" using w by (simp add: walked_def)
        show ?thesis
          unfolding walked_def
        proof (intro conjI allI impI)
          show "k \<le> lu" using klt by simp
          show "- 1 \<le> k" using w nonneg by (simp add: walked_def)
          show "length vars' = length vars" using w by (simp add: walked_def)
          show "if 0 \<le> k
                then \<not> Bound (vars ! nat k) \<and> coefs ! nat k \<le> su \<and> coefs ! nat k \<le> sd
                     \<and> mc' = coefs ! nat k
                else mc' = mc"
            using w klt by (auto simp: walked_def nth_list_update split: if_splits)
          fix i assume i: "i < length vars"
          show "if k < int i \<and> int i \<le> lu \<and> \<not> Bound (vars ! i)
                then (if coefs ! i > su then forced_to 0 (vars' ! i)
                      else coefs ! i > sd \<and> forced_to 1 (vars' ! i))
                else vars' ! i = vars ! i"
          proof (cases "i = nat lu")
            case True
            have "vars' ! i = (vars[nat lu := v]) ! i"
              using w i True klt nonneg by (auto simp: walked_def split: if_splits)
            then have "vars' ! i = v" using True ix by simp
            then show ?thesis using True fv up unbound klt nonneg by simp
          next
            case False
            then have "int i \<noteq> lu" using nonneg by auto
            then show ?thesis
              using w i False by (auto simp: walked_def nth_list_update split: if_splits)
          qed
        qed
      next
        case nup: False
        show ?thesis
        proof (cases "coefs ! nat lu > sd")
          case down: True
          then obtain v where sv: "IntVar_SetValue 1 (vars ! nat lu) = Inr v"
            and r: "ps_walk su sd coefs (lu - 1) (vars[nat lu := v]) mc = Inr (k, vars', mc')"
            using eq nonneg unbound nup by (auto split: sum.splits)
          have w: "walked su sd coefs (lu - 1) (vars[nat lu := v]) mc k vars' mc'"
            using "1.IH"(2) [OF nonneg unbound nup down sv r] lt by simp
          have fv: "forced_to 1 v" using sv by (rule IntVar_SetValue_forced)
          have klt: "k \<le> lu - 1" using w by (simp add: walked_def)
          show ?thesis
            unfolding walked_def
          proof (intro conjI allI impI)
            show "k \<le> lu" using klt by simp
            show "- 1 \<le> k" using w nonneg by (simp add: walked_def)
            show "length vars' = length vars" using w by (simp add: walked_def)
            show "if 0 \<le> k
                  then \<not> Bound (vars ! nat k) \<and> coefs ! nat k \<le> su \<and> coefs ! nat k \<le> sd
                       \<and> mc' = coefs ! nat k
                  else mc' = mc"
              using w klt by (auto simp: walked_def nth_list_update split: if_splits)
            fix i assume i: "i < length vars"
            show "if k < int i \<and> int i \<le> lu \<and> \<not> Bound (vars ! i)
                  then (if coefs ! i > su then forced_to 0 (vars' ! i)
                        else coefs ! i > sd \<and> forced_to 1 (vars' ! i))
                  else vars' ! i = vars ! i"
            proof (cases "i = nat lu")
              case True
              have "vars' ! i = (vars[nat lu := v]) ! i"
                using w i True klt nonneg by (auto simp: walked_def split: if_splits)
              then have "vars' ! i = v" using True ix by simp
              then show ?thesis using True fv nup down unbound klt nonneg by simp
            next
              case False
              then have "int i \<noteq> lu" using nonneg by auto
              then show ?thesis
                using w i False by (auto simp: walked_def nth_list_update split: if_splits)
            qed
          qed
        next
          case ndown: False
          then have a: "k = lu" and b: "vars' = vars" and c: "mc' = coefs ! nat lu"
            using eq nonneg unbound nup by auto
          show ?thesis
            unfolding a b c using nonneg unbound nup ndown by (auto simp: walked_def)
        qed
      qed
    qed
  qed
qed

lemmas ps_eval = ps_walk.simps ps_sums.simps ps_Propagate_def ps_InitialPropagate_def ps_Update_def fbind_def
  IntVar_SetRange_def IntVar_SetValue_def IntVar_make_def Bound_def
  add64_def sub64_def mul64_def in_int64_def kint64max_def kint64min_def Let_def

text \<open>
  Claim C7, as stated, fails: a propagation step walks the indices only when a slack is
  below the recorded \<open>max_coefficient\<close>. After the third variable (coefficient 3) has
  been set to 0, \<open>Update(2)\<close> and its \<open>Propagate\<close> find both slacks equal to 3, which is
  not below the recorded 3: there is no walk, \<open>first_unbound_backward\<close> still points to
  the bound variable and \<open>max_coefficient\<close> stays 3, although the first unbound
  coefficient that fits both slacks is 2, at index 1.
\<close>

theorem Propagate_without_walk:
  "ps_InitialPropagate c7_initial = Inr c7_propagated \<and>
   IntVar_SetValue 0 (ps_vars c7_propagated ! 2) = Inr (ps_vars c7_decided ! 2) \<and>
   ps_Update 2 c7_decided = Inr c7_updated \<and>
   ps_Propagate (c7_decided\<lparr>sum_of_all_variables := 3\<rparr>) = Inr c7_updated \<and>
   var_max (ps_target_var c7_updated) - sum_of_bound_variables c7_updated = 3 \<and>
   sum_of_all_variables c7_updated - var_min (ps_target_var c7_updated) = 3 \<and>
   first_unbound_backward c7_updated = 2 \<and> Bound (ps_vars c7_updated ! 2) \<and>
   \<not> Bound (ps_vars c7_updated ! 1) \<and> ps_coefs c7_updated ! 1 = 2 \<and>
   max_coefficient c7_updated = 3 \<and>
   \<not> walked 3 3 (ps_coefs c7_decided) (first_unbound_backward c7_decided) (ps_vars c7_decided)
       (max_coefficient c7_decided) (first_unbound_backward c7_updated) (ps_vars c7_updated)
       (max_coefficient c7_updated)"
  by (simp add: c7_initial_def c7_propagated_def c7_decided_def c7_updated_def ps_eval
      walked_def)

text \<open>
  Claim C7, amended. Each propagation step first narrows the target to
  \<open>[sum_of_bound, sum_of_all]\<close> and computes \<open>slack_up = T.max - sum_of_bound\<close> and
  \<open>slack_down = sum_of_all - T.min\<close>. If a slack is below the recorded \<open>max_coefficient\<close>,
  it walks the indices from \<open>first_unbound_backward\<close> downward, skipping bound variables,
  forcing \<open>x_i = 0\<close> whenever \<open>c_i > slack_up\<close> and otherwise \<open>x_i = 1\<close> whenever
  \<open>c_i > slack_down\<close>, stops at the first unbound coefficient that fits both slacks,
  records that coefficient as the new \<open>max_coefficient\<close> and the index where it stopped
  as \<open>first_unbound_backward\<close>. Otherwise it leaves the variables and both cells as they
  are.
\<close>

theorem ps_Propagate_step:
  assumes "ps_Propagate s = Inr s'"
    and "first_unbound_backward s < int (length (ps_vars s))"
  shows "IntVar_SetRange (sum_of_bound_variables s) (sum_of_all_variables s) (ps_target_var s)
           = Inr (ps_target_var s') \<and>
         (if sum_of_all_variables s - var_min (ps_target_var s') < max_coefficient s
             \<or> var_max (ps_target_var s') - sum_of_bound_variables s < max_coefficient s
          then walked (var_max (ps_target_var s') - sum_of_bound_variables s)
                 (sum_of_all_variables s - var_min (ps_target_var s'))
                 (ps_coefs s) (first_unbound_backward s) (ps_vars s) (max_coefficient s)
                 (first_unbound_backward s') (ps_vars s') (max_coefficient s')
          else ps_vars s' = ps_vars s \<and> first_unbound_backward s' = first_unbound_backward s
               \<and> max_coefficient s' = max_coefficient s)"
proof -
  obtain t where t: "IntVar_SetRange (sum_of_bound_variables s) (sum_of_all_variables s)
                       (ps_target_var s) = Inr t"
    using assms(1) by (auto simp: ps_Propagate_def fbind_def split: sum.splits)
  obtain su where su: "sub64 (var_max t) (sum_of_bound_variables s) = Inr su"
    using assms(1) t by (auto simp: ps_Propagate_def fbind_def split: sum.splits)
  obtain sd where sd: "sub64 (sum_of_all_variables s) (var_min t) = Inr sd"
    using assms(1) t su by (auto simp: ps_Propagate_def fbind_def split: sum.splits)
  have su': "su = var_max t - sum_of_bound_variables s"
    using su by (auto simp: sub64_def split: if_splits)
  have sd': "sd = sum_of_all_variables s - var_min t"
    using sd by (auto simp: sub64_def split: if_splits)
  show ?thesis
  proof (cases "sd < max_coefficient s \<or> su < max_coefficient s")
    case False
    then have "s' = s\<lparr>ps_target_var := t\<rparr>"
      using assms(1) t su sd by (auto simp: ps_Propagate_def fbind_def Let_def)
    then show ?thesis using False t su' sd' by auto
  next
    case True
    then obtain k vars' mc' where
      w: "ps_walk su sd (ps_coefs s) (first_unbound_backward s) (ps_vars s) (max_coefficient s)
            = Inr (k, vars', mc')"
      and s': "s' = s\<lparr>ps_target_var := t, ps_vars := vars', max_coefficient := mc',
                      first_unbound_backward := k\<rparr>"
      using assms(1) t su sd
      by (auto simp: ps_Propagate_def fbind_def Let_def split: sum.splits)
    have "walked su sd (ps_coefs s) (first_unbound_backward s) (ps_vars s) (max_coefficient s)
            k vars' mc'"
      using ps_walk_walked [OF w assms(2)] .
    then show ?thesis using True t su' sd' s' by auto
  qed
qed

theorem ps_Propagate_step_witness:
  "ps_Propagate c7_tight = Inr c7_tight_propagated \<and>
   first_unbound_backward c7_tight < int (length (ps_vars c7_tight)) \<and>
   var_max (ps_target_var c7_tight_propagated) - sum_of_bound_variables c7_tight = 2 \<and>
   sum_of_all_variables c7_tight - var_min (ps_target_var c7_tight_propagated) = 6 \<and>
   max_coefficient c7_tight = 3 \<and>
   forced_to 0 (ps_vars c7_tight_propagated ! 2) \<and>
   first_unbound_backward c7_tight_propagated = 1 \<and>
   max_coefficient c7_tight_propagated = 2"
  using ps_Propagate_step [of c7_tight c7_tight_propagated]
  by (simp add: c7_tight_def c7_tight_propagated_def c7_propagated_def c7_initial_def
      ps_eval forced_to_def)

section \<open>The non-overlapping rectangles\<close>































lemmas dn_eval = dn_InitialPropagate_def sizes_positive_loop.simps PropagateAll_def
  propagate_box_def FillNeighbors_def FillNeighbors_loop.simps CheckEnergy_def
  PushOverlappingBoxes_def PushOneBox_def PushOneDirection_def push_after_def
  Overlap_def DisjointHorizontal_def DisjointVertical_def dn_size_def fbind_def
  CheckEnergy_loop.simps CheckEnergy_body_def wrap64_def in_int64_def kint64max_def kint64min_def
  IntVar_make_def IntVar_SetMin_def IntVar_SetMax_def set_insert_def Let_def
  positions_def sizes_def set_position_def set_size_def


lemma c3_stacked_rejected:
  "dn_InitialPropagate c3_stacked = Inl Fail"
  by (simp add: c3_stacked_def c3_apart_def dn_eval upt_rec)





section \<open>The sum constraints\<close>

lemmas tree_eval = Min_node_def Max_node_def RootMin_def RootMax_def MaxDepth_def IsLeaf_def
  Width_def Parent_def ChildStart_def ChildEnd_def set_node_def InitNode_def InitLeaf_def
  ReduceRange_def Tree_SetRange_def copy_leaves_def set_var_def fix_all_to_min_def
  fix_all_to_max_def tighten_target_def IntVar_SetRange_def IntVar_SetValue_def
  IntVar_make_def add64_def sub64_def in_int64_def kint64max_def kint64min_def
  CapAdd_def CapSub_def Let_def upt_rec

lemmas Sum_eval = Sum_compute_node_def Sum_compute_up_def Sum_PushDown.simps
  Sum_PushDown_children.simps Sum_SumChanged_def Sum_InitialPropagate_def
  Sum_PushUp_def Sum_LeafChanged_def demons_done_def

lemmas SafeSum_eval = SafeComputeNode_def SafeSum_compute_node_def SafeSum_compute_up_def
  SafeSum_PushDown.simps SafeSum_PushDown_children.simps SafeSum_SumChanged_def
  SafeSum_InitialPropagate_def SafeSum_PushUp_def SafeSum_LeafChanged_def

lemma c2_make:
  "TreeArrayConstraint_make 16 c2_vars c2_target = Some (Inr c2_constraint)"
  by (simp add: TreeArrayConstraint_make_def lengths_loop.simps c2_constraint_def c2_vars_def
      Let_def upt_rec numeral_3_eq_3)

lemma c2_in_range:
  "list_all (\<lambda>v. - (kint64max div 4) \<le> var_min v \<and> var_max v \<le> kint64max div 4) c2_vars"
  by (simp add: c2_vars_def c2_B_def IntVar_make_def)

lemma c2_no_overflow_detected: "\<not> DetectSumOverflow c2_vars"
  by (simp add: DetectSumOverflow_def c2_vars_def c2_B_def tree_eval)

lemma c2_Sum: "Sum_InitialPropagate c2_constraint = Inl Overflow"
  by (simp add: c2_constraint_def c2_vars_def c2_target_def c2_B_def tree_eval Sum_eval)

lemma c2_SafeSum:
  "SafeSum_InitialPropagate c2_constraint =
     Inr (c2_constraint
       \<lparr>ta_vars := [(IntVar_make (- c2_B) c2_B)\<lparr>var_max := - c2_B + 1\<rparr>,
                    (IntVar_make (- c2_B) c2_B)\<lparr>var_max := - c2_B + 1\<rparr>,
                    (IntVar_make (- c2_B) c2_B)\<lparr>var_max := - c2_B + 1\<rparr>],
        ta_tree := [[\<lparr>node_min = - 3 * c2_B, node_max = 3 * c2_B\<rparr>],
                    [\<lparr>node_min = - c2_B, node_max = c2_B\<rparr>,
                     \<lparr>node_min = - c2_B, node_max = c2_B\<rparr>,
                     \<lparr>node_min = - c2_B, node_max = c2_B\<rparr>]]\<rparr>)"
  by (simp add: c2_constraint_def c2_vars_def c2_target_def c2_B_def tree_eval SafeSum_eval)

lemma c2_wrapped: "wrap64 (- 3 * c2_B + 1 - 2 * c2_B) = 3 * 2 ^ 61 + 6"
  by (simp add: wrap64_def c2_B_def kint64max_def)

lemma c2_wrapped_fails:
  "IntVar_SetRange (wrap64 (- 3 * c2_B + 1 - 2 * c2_B)) (- 3 * c2_B + 1 + 2 * c2_B)
     (c2_vars ! 0) = Inl Fail"
  by (simp add: wrap64_def c2_vars_def c2_B_def tree_eval)

lemma c2_SafeSum_bounds:
  "\<exists>c. SafeSum_InitialPropagate c2_constraint = Inr c \<and>
        map var_min (ta_vars c) = [- c2_B, - c2_B, - c2_B] \<and>
        map var_max (ta_vars c) = [- c2_B + 1, - c2_B + 1, - c2_B + 1]"
  unfolding c2_SafeSum by (simp add: IntVar_make_def)














































lemma ceil_chain_snoc:
  assumes "ceil_chain b ls" and "ls \<noteq> []"
  shows "ceil_chain b (ls @ [(last ls + b - 1) div b])"
  unfolding ceil_chain_def
proof (intro allI impI)
  fix m assume m: "Suc m < length (ls @ [(last ls + b - 1) div b])"
  show "(ls @ [(last ls + b - 1) div b]) ! Suc m
          = ((ls @ [(last ls + b - 1) div b]) ! m + b - 1) div b"
  proof (cases "Suc m < length ls")
    case True
    have "ls ! Suc m = (ls ! m + b - 1) div b" using assms(1) True by (simp add: ceil_chain_def)
    then show ?thesis using True by (simp add: nth_append)
  next
    case False
    then have e: "length ls = Suc m" using m by simp
    have "last ls = ls ! m" using assms(2) e by (simp add: last_conv_nth)
    then show ?thesis using e by (simp add: nth_append)
  qed
qed

lemma lengths_loop_chain:
  assumes "lengths_loop b ls = Some r" and "ls \<noteq> []" and "ceil_chain b ls"
  shows "r \<noteq> [] \<and> r ! 0 = ls ! 0 \<and> length ls \<le> length r \<and>
         (length ls < length r \<longrightarrow> 0 < b) \<and> last r \<le> 1 \<and> ceil_chain b r"
proof -
  define P where "P = (\<lambda>b ls r. ls \<noteq> [] \<longrightarrow> ceil_chain b ls \<longrightarrow>
         (r \<noteq> [] \<and> r ! 0 = ls ! 0 \<and> length ls \<le> length r \<and>
          (length ls < length r \<longrightarrow> 0 < b) \<and> last r \<le> 1 \<and> ceil_chain b r))"
  have "P b ls r"
  proof (rule lengths_loop.raw_induct [where P = P, OF _ assms(1)])
    fix loop b ls r
    assume ih: "\<And>b ls y. loop b ls = Some y \<Longrightarrow> P b ls y"
      and eq: "(if 1 < last ls
                then if b = 0 then None
                     else loop b (ls @ [(last ls + b - 1) div b])
                else Some ls) = Some r"
    show "P b ls r"
      unfolding P_def
    proof (intro impI)
      assume ne: "ls \<noteq> []" and ch: "ceil_chain b ls"
      show "r \<noteq> [] \<and> r ! 0 = ls ! 0 \<and> length ls \<le> length r \<and>
            (length ls < length r \<longrightarrow> 0 < b) \<and> last r \<le> 1 \<and> ceil_chain b r"
      proof (cases "last ls > 1")
        case False
        have rls: "r = ls" using eq False by simp
        show ?thesis unfolding rls using ne ch False by simp
      next
        case True
        have b: "b \<noteq> 0" using eq True by (cases "b = 0") simp_all
        have l: "loop b (ls @ [(last ls + b - 1) div b]) = Some r"
          using eq True b by simp
        have "P b (ls @ [(last ls + b - 1) div b]) r" by (rule ih [OF l])
        then have h: "r \<noteq> []" "r ! 0 = (ls @ [(last ls + b - 1) div b]) ! 0"
          "length (ls @ [(last ls + b - 1) div b]) \<le> length r" "last r \<le> 1"
          "ceil_chain b r"
          unfolding P_def using ceil_chain_snoc [OF ch ne] by simp_all
        have "r ! 0 = ls ! 0" using h(2) ne by (simp add: nth_append)
        then show ?thesis using h b by simp
      qed
    qed
  qed
  then show ?thesis unfolding P_def using assms(2,3) by simp
qed

lemma lengths_loop_positive:
  assumes "lengths_loop b ls = Some r" and "\<forall>x \<in> set ls. 0 < x"
  shows "\<forall>x \<in> set r. 0 < x"
proof -
  define P where "P = (\<lambda>(b::nat) (ls::nat list) (r::nat list).
                         (\<forall>x \<in> set ls. 0 < x) \<longrightarrow> (\<forall>x \<in> set r. 0 < x))"
  have "P b ls r"
  proof (rule lengths_loop.raw_induct [where P = P, OF _ assms(1)])
    fix loop b ls r
    assume ih: "\<And>b ls y. loop b ls = Some y \<Longrightarrow> P b ls y"
      and eq: "(if 1 < last ls
                then if b = 0 then None
                     else loop b (ls @ [(last ls + b - 1) div b])
                else Some ls) = Some r"
    show "P b ls r"
      unfolding P_def
    proof (intro impI)
      assume pos: "\<forall>x \<in> set ls. 0 < x"
      show "\<forall>x \<in> set r. 0 < x"
      proof (cases "last ls > 1")
        case False
        then show ?thesis using eq pos by simp
      next
        case True
        have b: "b \<noteq> 0" using eq True by (cases "b = 0") simp_all
        have l: "loop b (ls @ [(last ls + b - 1) div b]) = Some r"
          using eq True b by simp
        have "b \<le> last ls + b - 1" using True by simp
        then have "0 < (last ls + b - 1) div b" using b by (simp add: div_greater_zero_iff)
        then have "\<forall>x \<in> set (ls @ [(last ls + b - 1) div b]). 0 < x" using pos by simp
        then show ?thesis using ih [OF l] by (simp add: P_def)
      qed
    qed
  qed
  then show ?thesis using assms(2) by (simp add: P_def)
qed

lemma ceiling_decreases:
  fixes x b :: nat
  assumes "1 < x" and "2 \<le> b"
  shows "(x + b - 1) div b < x"
proof -
  have "2 * (b - 1) \<le> x * (b - 1)" using assms(1) by (intro mult_le_mono1) simp
  then have "b - 1 < x * (b - 1)" using assms(2) by simp
  moreover have "x + b - 1 = x + (b - 1)" using assms(2) by simp
  ultimately have "x + b - 1 < x + x * (b - 1)" by linarith
  also have "x + x * (b - 1) = x * b" using assms(2) by (simp add: diff_mult_distrib2)
  finally show ?thesis using assms(2) by (simp add: div_less_iff_less_mult)
qed

lemma lengths_loop_returns:
  assumes "2 \<le> b"
  shows "\<exists>r. lengths_loop b ls = Some r"
proof (induction "last ls" arbitrary: ls rule: less_induct)
  case less
  show ?case
  proof (cases "last ls > 1")
    case False
    then show ?thesis by (subst lengths_loop.simps) simp
  next
    case True
    let ?ls = "ls @ [(last ls + b - 1) div b]"
    have "last ?ls < last ls" using ceiling_decreases [OF True assms] by simp
    then obtain r where "lengths_loop b ?ls = Some r" using less by blast
    then have "lengths_loop b ls = Some r"
      using True assms by (subst lengths_loop.simps) simp
    then show ?thesis by blast
  qed
qed


lemma TreeArrayConstraint_make_returns:
  assumes "2 \<le> block_size" and "vars \<noteq> []"
  shows "\<exists>c. TreeArrayConstraint_make block_size vars target = Some (Inr c)"
proof -
  obtain r where r: "lengths_loop block_size [length vars] = Some r"
    using lengths_loop_returns [OF assms(1)] by blast
  have "ceil_chain block_size [length vars]" by (simp add: ceil_chain_def)
  from lengths_loop_chain [OF r _ this] have h: "r \<noteq> []" "last r \<le> 1" by simp_all
  have "\<forall>x \<in> set r. 0 < x" using lengths_loop_positive [OF r] assms(2) by simp
  then have "0 < last r" using h(1) by simp
  then have "last r = 1" using h(2) by simp
  then have "r ! (length r - Suc 0) = 1" using h(1) by (simp add: last_conv_nth)
  then show ?thesis
    using r h(1) by (simp add: TreeArrayConstraint_make_def Let_def)
qed










text \<open>
  Claim C2 fails in the code. Take three variables in \<open>[-B, B]\<close>, \<open>B\<close> being
  \<open>kint64max / 4\<close>, the bound of the claim for \<open>n = 3\<close>, and ask for their sum to be
  \<open>-3 B + 1\<close>, as \<open>v = (-B, -B, -B + 1)\<close> has it. \<open>DetectSumOverflow\<close> finds nothing, so
  the factory chooses the plain \<open>SumConstraint\<close>. Its \<open>PushDown\<close> computes
  \<open>new_min - residual_max = (-3 B + 1) - 2 B\<close> with the plain subtraction of \<open>int64\<close>,
  which overflows: the run has no defined outcome, and on a two's complement machine the
  difference wraps to \<open>3 * 2^61 + 6\<close>, above the maximum of the leaf, so that \<open>SetRange\<close>
  fails. \<open>SafeSumConstraint\<close> saturates the difference instead, returns without failure
  and narrows the maximum of every variable to \<open>-B + 1\<close>.
\<close>

theorem Sum_overflows_where_SafeSum_succeeds:
  "list_all (\<lambda>v. - (kint64max div 4) \<le> var_min v \<and> var_max v \<le> kint64max div 4) c2_vars \<and>
   \<not> DetectSumOverflow c2_vars \<and>
   TreeArrayConstraint_make 16 c2_vars c2_target = Some (Inr c2_constraint) \<and>
   Sum_InitialPropagate c2_constraint = Inl Overflow \<and>
   wrap64 (- 3 * c2_B + 1 - 2 * c2_B) = 3 * 2 ^ 61 + 6 \<and>
   IntVar_SetRange (wrap64 (- 3 * c2_B + 1 - 2 * c2_B)) (- 3 * c2_B + 1 + 2 * c2_B)
     (c2_vars ! 0) = Inl Fail \<and>
   (\<exists>c. SafeSum_InitialPropagate c2_constraint = Inr c \<and>
        map var_min (ta_vars c) = [- c2_B, - c2_B, - c2_B] \<and>
        map var_max (ta_vars c) = [- c2_B + 1, - c2_B + 1, - c2_B + 1])"
  using c2_in_range c2_no_overflow_detected c2_make c2_Sum c2_wrapped c2_wrapped_fails
    c2_SafeSum_bounds
  by blast

end
